theory Spec2Isabelle
  imports Complex_Main "HOL-Library.FSet" "HOL-Library.Sublist"
begin

section \<open>JavaScript strings\<close>

text \<open>
  A JavaScript string is a sequence of UTF-16 code units; \<open>length\<close> of the list is the
  string's \<open>.length\<close>. A code unit is a natural number below 65536 (no function below
  depends on the bound). ASCII literals of the source are written with \<open>js\<close>, other
  literals as the list of their code units.
\<close>

type_synonym jsstring = "nat list"

definition js :: "string \<Rightarrow> jsstring" where
  "js s = map of_char s"

section \<open>News items (sources/types.ts)\<close>

text \<open>
  A \<open>Date\<close> holds a time value in milliseconds since the epoch, or is an invalid date
  (\<open>new Date\<close> of a text that does not parse), whose \<open>getTime()\<close> is NaN.
\<close>

datatype Date = ValidDate int | InvalidDate

record GithubExtra =
  stars :: "nat option"
  todayStars :: "nat option"
  description :: "jsstring option"
  language :: "jsstring option"

record NewsItem =
  title :: jsstring
  link :: jsstring
  source :: jsstring
  pubDate :: "Date option"
  extra :: "GithubExtra option"

section \<open>TitleDeduplicator (dispatcher.ts)\<close>

text \<open>The character class of \<open>extractTokens\<close>: U+4E00 to U+9FFF.\<close>

definition dedup_cjk :: "nat \<Rightarrow> bool" where
  "dedup_cjk c \<longleftrightarrow> 0x4e00 \<le> c \<and> c \<le> 0x9fff"

text \<open>The character class \<open>[a-z]\<close>.\<close>

definition lower_az :: "nat \<Rightarrow> bool" where
  "lower_az c \<longleftrightarrow> 0x61 \<le> c \<and> c \<le> 0x7a"

text \<open>
  \<open>String.prototype.toLowerCase\<close>, one code unit at a time. The code units whose lower
  case contains a letter of \<open>a-z\<close> are \<open>A-Z\<close>, U+0130 (lower case \<open>i\<close> followed by
  U+0307) and U+212A (the Kelvin sign, lower case \<open>k\<close>). Every other code unit lower-cases
  to code units outside \<open>a-z\<close> and is kept as it is: the only reader of the lower-cased
  title is the pattern \<open>[a-z]{3,}\<close>, which cannot tell the difference.
\<close>

definition lowerUnit :: "nat \<Rightarrow> nat list" where
  "lowerUnit c =
     (if 0x41 \<le> c \<and> c \<le> 0x5a then [c + 0x20]
      else if c = 0x130 then [0x69, 0x307]
      else if c = 0x212a then [0x6b]
      else [c])"

definition toLowerCase :: "jsstring \<Rightarrow> jsstring" where
  "toLowerCase s = concat (map lowerUnit s)"

text \<open>
  \<open>s.match(/[a-z]{3,}/g)\<close>: the quantifier is greedy and unbounded, so every match is a
  maximal run of letters, and a run shorter than three letters matches nowhere. \<open>cur\<close>
  is the run read so far. No match (\<open>null\<close> in the source) is the empty list.
\<close>

fun matchWords :: "jsstring \<Rightarrow> jsstring \<Rightarrow> jsstring list" where
  "matchWords cur [] = (if 3 \<le> length cur then [cur] else [])"
| "matchWords cur (c # cs) =
     (if lower_az c then matchWords (cur @ [c]) cs
      else (if 3 \<le> length cur then [cur] else []) @ matchWords [] cs)"

text \<open>\<open>title.match\<close> with that class and the flag \<open>g\<close>: every matching code unit, as a
  one-unit string.\<close>

definition matchCjk :: "jsstring \<Rightarrow> jsstring list" where
  "matchCjk s = map (\<lambda>c. [c]) (filter dedup_cjk s)"

text \<open>
  A \<open>Set<string>\<close> is a finite set of strings; the program reads it only through
  \<open>size\<close>, \<open>has\<close> and a counting iteration, none of which sees the insertion order.
\<close>

definition extractTokens :: "jsstring \<Rightarrow> jsstring fset" where
  "extractTokens t =
     fset_of_list (matchCjk t) |\<union>| fset_of_list (matchWords [] (toLowerCase t))"

text \<open>
  \<open>jaccard\<close> divides two small integers. The quotient is a rational here; the source
  computes it as a double. Division in doubles is correctly rounded and monotone, \<open>0\<close>,
  \<open>1\<close> and \<open>0.5\<close> are doubles, and a quotient of set sizes that is below \<open>0.5\<close> is below
  it by far more than a rounding error, so each comparison with the threshold \<open>0.5\<close> and
  each of the values \<open>0\<close> and \<open>1\<close> is the same in both.
\<close>

definition jaccard :: "jsstring fset \<Rightarrow> jsstring fset \<Rightarrow> rat" where
  "jaccard a b =
     (if fcard a = 0 \<or> fcard b = 0 then 0
      else let intersection = fcard (ffilter (\<lambda>t. t |\<in>| b) a)
           in rat_of_nat intersection /
              (rat_of_nat (fcard a) + rat_of_nat (fcard b) - rat_of_nat intersection))"

text \<open>One entry of the field \<open>seen\<close>: \<open>{ chars, link }\<close>.\<close>

record SeenEntry =
  chars :: "jsstring fset"
  seen_link :: jsstring

text \<open>
  \<open>filter(items, threshold)\<close>: the loop over \<open>items\<close>, with the field \<open>seen\<close> and the
  local \<open>result\<close> passed along. It returns \<open>result\<close> and the new value of \<open>seen\<close>.
\<close>

fun filter_loop ::
  "rat \<Rightarrow> SeenEntry list \<Rightarrow> NewsItem list \<Rightarrow> NewsItem list \<Rightarrow> NewsItem list \<times> SeenEntry list"
where
  "filter_loop threshold seen result [] = (result, seen)"
| "filter_loop threshold seen result (item # items) =
     (if list_ex (\<lambda>s. seen_link s = link item) seen
      then filter_loop threshold seen result items
      else
        let tokens = extractTokens (title item);
            isDup = list_ex (\<lambda>s. jaccard (chars s) tokens \<ge> threshold) seen
        in if isDup then filter_loop threshold seen result items
           else filter_loop threshold
                  (seen @ [\<lparr>chars = tokens, seen_link = link item\<rparr>])
                  (result @ [item]) items)"

definition dedup_filter ::
  "SeenEntry list \<Rightarrow> NewsItem list \<Rightarrow> rat \<Rightarrow> NewsItem list \<times> SeenEntry list" where
  "dedup_filter seen items threshold = filter_loop threshold seen [] items"

text \<open>The record that \<open>filter\<close> pushes for an accepted item.\<close>

definition entryOf :: "NewsItem \<Rightarrow> SeenEntry" where
  "entryOf item = \<lparr>chars = extractTokens (title item), seen_link = link item\<rparr>"

text \<open>An item is a duplicate of the state: by link, or by title similarity.\<close>

definition isDuplicate :: "rat \<Rightarrow> SeenEntry list \<Rightarrow> NewsItem \<Rightarrow> bool" where
  "isDuplicate threshold seen item \<longleftrightarrow>
     (\<exists>s \<in> set seen. seen_link s = link item
        \<or> jaccard (chars s) (extractTokens (title item)) \<ge> threshold)"

section \<open>Effects: the trace of a run\<close>

text \<open>
  Everything the program does to the outside world is an event of a trace, appended in
  program order: a request to a translation provider, a feed or page fetch, a webhook
  send with its outcome, a pacing delay and a \<open>console.warn\<close> line. (\<open>console.log\<close>
  lines are not recorded.) The outside world answers through oracles that read the
  length of the trace as the time of the request, so that the same request may be
  answered differently at different moments of a run.
\<close>

datatype exn = Error (message: jsstring)

datatype event =
    PrimaryCall jsstring
  | FallbackCall jsstring
  | FetchCall jsstring
  | SendCall jsstring jsstring bool
  | Sleep nat
  | Warn jsstring

type_synonym trace = "event list"

section \<open>Translator (translator.ts)\<close>

definition THROTTLE_MS :: nat where
  "THROTTLE_MS = 300"

definition MAX_CONSECUTIVE_FAILURES :: nat where
  "MAX_CONSECUTIVE_FAILURES = 2"

text \<open>The character class of \<open>cjkPattern\<close>: three ranges. The pattern has no flag \<open>u\<close>,
  so it reads code units.\<close>

definition translator_cjk :: "nat \<Rightarrow> bool" where
  "translator_cjk c \<longleftrightarrow>
     (0x4e00 \<le> c \<and> c \<le> 0x9fff) \<or> (0x3400 \<le> c \<and> c \<le> 0x4dbf) \<or> (0xf900 \<le> c \<and> c \<le> 0xfaff)"

text \<open>The class \<open>\s\<close>: the white space and line terminators of ECMAScript.\<close>

definition js_space :: "nat \<Rightarrow> bool" where
  "js_space c \<longleftrightarrow>
     (0x9 \<le> c \<and> c \<le> 0xd) \<or> c = 0x20 \<or> c = 0xa0 \<or> c = 0x1680
     \<or> (0x2000 \<le> c \<and> c \<le> 0x200a) \<or> c = 0x2028 \<or> c = 0x2029 \<or> c = 0x202f
     \<or> c = 0x205f \<or> c = 0x3000 \<or> c = 0xfeff"

text \<open>The class \<open>\d\<close>: the ten ASCII digits.\<close>

definition js_digit :: "nat \<Rightarrow> bool" where
  "js_digit c \<longleftrightarrow> 0x30 \<le> c \<and> c \<le> 0x39"

text \<open>
  The pattern of \<open>meaningfulChars\<close> has the flag \<open>u\<close>: it reads code points, a high
  surrogate followed by a low surrogate being one code point. The classes \<open>\p{P}\<close> and
  \<open>\p{S}\<close> are tables of the JavaScript engine, not of this repository: they are the
  parameter \<open>ps\<close>, true on the code points of general category punctuation or symbol.
\<close>

definition high_surrogate :: "nat \<Rightarrow> bool" where
  "high_surrogate c \<longleftrightarrow> 0xd800 \<le> c \<and> c \<le> 0xdbff"

definition low_surrogate :: "nat \<Rightarrow> bool" where
  "low_surrogate c \<longleftrightarrow> 0xdc00 \<le> c \<and> c \<le> 0xdfff"

definition codePoint :: "nat \<Rightarrow> nat \<Rightarrow> nat" where
  "codePoint h l = 0x10000 + (h - 0xd800) * 0x400 + (l - 0xdc00)"

definition stripped :: "(nat \<Rightarrow> bool) \<Rightarrow> nat \<Rightarrow> bool" where
  "stripped ps cp \<longleftrightarrow> js_space cp \<or> js_digit cp \<or> ps cp"

text \<open>\<open>text.replace(/[\s\d\p{P}\p{S}]/gu, '')\<close>.\<close>

fun stripMeaningless :: "(nat \<Rightarrow> bool) \<Rightarrow> jsstring \<Rightarrow> jsstring" where
  "stripMeaningless ps [] = []"
| "stripMeaningless ps [c] = (if stripped ps c then [] else [c])"
| "stripMeaningless ps (c # d # cs) =
     (if high_surrogate c \<and> low_surrogate d
      then (if stripped ps (codePoint c d) then [] else [c, d]) @ stripMeaningless ps cs
      else (if stripped ps c then [] else [c]) @ stripMeaningless ps (d # cs))"

text \<open>
  \<open>needsTranslation\<close>. The quotient is a rational here and a double in the source, and
  the literal \<open>0.3\<close> is the double nearest to three tenths. Division in doubles is
  correctly rounded, so a quotient equal to three tenths is that same double (not below
  it), and a quotient of two string lengths that is below three tenths is below it by
  at least one over ten times the length, far more than a rounding error: the
  comparison is the same in both.
\<close>

definition needsTranslation :: "(nat \<Rightarrow> bool) \<Rightarrow> jsstring \<Rightarrow> bool" where
  "needsTranslation ps text =
     (let cjkCount = length (filter translator_cjk text);
          meaningfulChars = length (stripMeaningless ps text)
      in if meaningfulChars = 0 then False
         else rat_of_nat cjkCount / rat_of_nat meaningfulChars < 3 / 10)"

text \<open>
  The general categories P and S on the ASCII range: every printable ASCII character
  that is not a letter, a digit or the space is a punctuation mark or a symbol. This
  table is an instance of the parameter \<open>ps\<close> for texts in ASCII and CJK ideographs.
\<close>

definition asciiPunctOrSymbol :: "nat \<Rightarrow> bool" where
  "asciiPunctOrSymbol c \<longleftrightarrow>
     (0x21 \<le> c \<and> c \<le> 0x2f) \<or> (0x3a \<le> c \<and> c \<le> 0x40)
     \<or> (0x5b \<le> c \<and> c \<le> 0x60) \<or> (0x7b \<le> c \<and> c \<le> 0x7e)"

text \<open>
  The two providers. A request either rejects (network failure, timeout, a body that is
  not JSON) or is answered: \<open>response.ok\<close> and the fields of the body the code reads
  (\<open>None\<close> for a field that is absent).
\<close>

datatype primary_response =
    PrimaryRejects exn
  | PrimaryResponse bool "jsstring option"

datatype fallback_response =
    FallbackRejects exn
  | FallbackResponse bool "int option" "jsstring option"

record Net =
  primaryNet :: "nat \<Rightarrow> jsstring \<Rightarrow> primary_response"
  fallbackNet :: "nat \<Rightarrow> jsstring \<Rightarrow> fallback_response"

text \<open>\<open>x || null\<close> on an optional string: the empty string is falsy.\<close>

definition orNull :: "jsstring option \<Rightarrow> jsstring option" where
  "orNull x = (case x of None \<Rightarrow> None | Some s \<Rightarrow> if s = [] then None else Some s)"

definition translatePrimary ::
  "Net \<Rightarrow> jsstring \<Rightarrow> trace \<Rightarrow> (exn + jsstring option) \<times> trace" where
  "translatePrimary net text tr =
     (case primaryNet net (length tr) text of
        PrimaryRejects e \<Rightarrow> (Inl e, tr @ [PrimaryCall text])
      | PrimaryResponse ok targetText \<Rightarrow>
          (if \<not> ok then Inr None else Inr (orNull targetText), tr @ [PrimaryCall text]))"

definition translateFallback ::
  "Net \<Rightarrow> jsstring \<Rightarrow> trace \<Rightarrow> (exn + jsstring option) \<times> trace" where
  "translateFallback net text tr =
     (case fallbackNet net (length tr) text of
        FallbackRejects e \<Rightarrow> (Inl e, tr @ [FallbackCall text])
      | FallbackResponse ok code target \<Rightarrow>
          (if \<not> ok then Inr None
           else if code \<noteq> Some 200 then Inr None
           else Inr (orNull target), tr @ [FallbackCall text]))"

text \<open>The warning of \<open>translateText\<close> when the fallback rejects.\<close>

definition translateFailedWarning :: "jsstring \<Rightarrow> exn \<Rightarrow> jsstring" where
  "translateFailedWarning text e =
     js ''['' @ [0x7ffb, 0x8bd1] @ js ''] '' @ [0x7ffb, 0x8bd1, 0x5931, 0x8d25] @ js '': ''
     @ [0x22] @ take 40 text @ js ''...'' @ [0x22] @ js '' - '' @ message e"

text \<open>
  \<open>translateText\<close>: the primary provider, then the fallback; both \<open>try\<close> blocks catch
  everything. The result is a sum, so that "it never throws" is a theorem and not a
  consequence of the type.
\<close>

definition translateText ::
  "Net \<Rightarrow> jsstring \<Rightarrow> trace \<Rightarrow> (exn + jsstring option) \<times> trace" where
  "translateText net text tr =
     (case translatePrimary net text tr of
        (Inr (Some primary), tr1) \<Rightarrow>
          (if primary \<noteq> [] then (Inr (Some primary), tr1)
           else (case translateFallback net text tr1 of
                   (Inr (Some fallback), tr2) \<Rightarrow>
                     (if fallback \<noteq> [] then Inr (Some fallback) else Inr None, tr2)
                 | (Inr None, tr2) \<Rightarrow> (Inr None, tr2)
                 | (Inl e, tr2) \<Rightarrow> (Inr None, tr2 @ [Warn (translateFailedWarning text e)])))
      | (_, tr1) \<Rightarrow>
          (case translateFallback net text tr1 of
             (Inr (Some fallback), tr2) \<Rightarrow>
               (if fallback \<noteq> [] then Inr (Some fallback) else Inr None, tr2)
           | (Inr None, tr2) \<Rightarrow> (Inr None, tr2)
           | (Inl e, tr2) \<Rightarrow> (Inr None, tr2 @ [Warn (translateFailedWarning text e)])))"

text \<open>The locals of \<open>translateTitles\<close>.\<close>

record TranslationState =
  results :: "NewsItem list"
  translatedCount :: nat
  consecutiveFailures :: nat
  aborted :: bool

text \<open>How a \<open>try\<close> block of the loop ends: with \<open>continue\<close>, or by falling out of it.\<close>

datatype flow = Continue | FallThrough

text \<open>The fullwidth parentheses around a translation: \<open>original(translated)\<close>.\<close>

definition withTranslation :: "jsstring \<Rightarrow> jsstring \<Rightarrow> jsstring" where
  "withTranslation original translated = original @ [0xff08] @ translated @ [0xff09]"

text \<open>The \<open>try\<close> block of the loop, branch \<open>isGithub\<close>.\<close>

definition tryGithub ::
  "(nat \<Rightarrow> bool) \<Rightarrow> Net \<Rightarrow> NewsItem \<Rightarrow> TranslationState \<Rightarrow> trace
     \<Rightarrow> (exn + flow) \<times> TranslationState \<times> trace" where
  "tryGithub ps net item st tr =
     (case extra item of
        None \<Rightarrow> (Inr FallThrough, st\<lparr>results := results st @ [item]\<rparr>, tr)
      | Some e \<Rightarrow>
         (case description e of
            None \<Rightarrow> (Inr FallThrough, st\<lparr>results := results st @ [item]\<rparr>, tr)
          | Some desc \<Rightarrow>
             if desc \<noteq> [] \<and> needsTranslation ps desc then
               (let tr1 = (if translatedCount st > 0 then tr @ [Sleep THROTTLE_MS] else tr)
                in case translateText net desc tr1 of
                     (Inl err, tr2) \<Rightarrow> (Inl err, st, tr2)
                   | (Inr None, tr2) \<Rightarrow>
                       (Inr FallThrough,
                        st\<lparr>consecutiveFailures := consecutiveFailures st + 1,
                           results := results st @ [item]\<rparr>, tr2)
                   | (Inr (Some translated), tr2) \<Rightarrow>
                       if translated \<noteq> [] \<and> translated \<noteq> desc then
                         (Inr Continue,
                          st\<lparr>results := results st @
                               [item\<lparr>extra := Some (e\<lparr>description :=
                                  Some (withTranslation desc translated)\<rparr>)\<rparr>],
                             translatedCount := translatedCount st + 1,
                             consecutiveFailures := 0\<rparr>, tr2)
                       else (Inr FallThrough, st\<lparr>results := results st @ [item]\<rparr>, tr2))
             else (Inr FallThrough, st\<lparr>results := results st @ [item]\<rparr>, tr)))"

text \<open>The \<open>try\<close> block of the loop, the other branch: the title is translated.\<close>

definition tryTitle ::
  "(nat \<Rightarrow> bool) \<Rightarrow> Net \<Rightarrow> NewsItem \<Rightarrow> TranslationState \<Rightarrow> trace
     \<Rightarrow> (exn + flow) \<times> TranslationState \<times> trace" where
  "tryTitle ps net item st tr =
     (if needsTranslation ps (title item) then
        (let tr1 = (if translatedCount st > 0 then tr @ [Sleep THROTTLE_MS] else tr)
         in case translateText net (title item) tr1 of
              (Inl err, tr2) \<Rightarrow> (Inl err, st, tr2)
            | (Inr None, tr2) \<Rightarrow>
                (Inr FallThrough,
                 st\<lparr>consecutiveFailures := consecutiveFailures st + 1,
                    results := results st @ [item]\<rparr>, tr2)
            | (Inr (Some translated), tr2) \<Rightarrow>
                if translated \<noteq> [] \<and> translated \<noteq> title item then
                  (Inr Continue,
                   st\<lparr>results := results st @
                        [item\<lparr>title := withTranslation (title item) translated\<rparr>],
                      translatedCount := translatedCount st + 1,
                      consecutiveFailures := 0\<rparr>, tr2)
                else (Inr FallThrough, st\<lparr>results := results st @ [item]\<rparr>, tr2))
      else (Inr FallThrough, st\<lparr>results := results st @ [item]\<rparr>, tr))"

text \<open>
  Decimal digits of a number, as \<open>String(n)\<close> and template literals print it. The
  first argument bounds the number of digits; \<open>n\<close> itself is always enough.
\<close>

fun digitsOf :: "nat \<Rightarrow> nat \<Rightarrow> jsstring" where
  "digitsOf 0 n = [0x30 + n mod 10]"
| "digitsOf (Suc k) n =
     (if n < 10 then [0x30 + n] else digitsOf k (n div 10) @ [0x30 + n mod 10])"

definition showNat :: "nat \<Rightarrow> jsstring" where
  "showNat n = digitsOf n n"

definition abortWarning :: "nat \<Rightarrow> jsstring" where
  "abortWarning n =
     js ''['' @ [0x7ffb, 0x8bd1] @ js ''] '' @ [0x8fde, 0x7eed] @ js '' '' @ showNat n
     @ js '' '' @ [0x6b21, 0x5931, 0x8d25, 0xff0c, 0x8df3, 0x8fc7, 0x5269, 0x4f59, 0x7ffb,
                  0x8bd1, 0x76f4, 0x63a5, 0x63a8, 0x9001, 0x3002]"

text \<open>One turn of the loop of \<open>translateTitles\<close>.\<close>

definition translateStep ::
  "(nat \<Rightarrow> bool) \<Rightarrow> Net \<Rightarrow> bool \<Rightarrow> NewsItem \<Rightarrow> TranslationState \<times> trace
     \<Rightarrow> TranslationState \<times> trace" where
  "translateStep ps net isGithub item s =
     (case s of (st, tr) \<Rightarrow>
      if aborted st then (st\<lparr>results := results st @ [item]\<rparr>, tr)
      else
        (case (if isGithub then tryGithub ps net item st tr else tryTitle ps net item st tr) of
           (Inr Continue, st1, tr1) \<Rightarrow> (st1, tr1)
         | (r, st1, tr1) \<Rightarrow>
             (let st2 = (case r of
                           Inl err \<Rightarrow>
                             st1\<lparr>results := results st1 @ [item],
                                 consecutiveFailures := consecutiveFailures st1 + 1\<rparr>
                         | Inr f \<Rightarrow> st1)
              in if consecutiveFailures st2 \<ge> MAX_CONSECUTIVE_FAILURES
                 then (st2\<lparr>aborted := True\<rparr>,
                       tr1 @ [Warn (abortWarning (consecutiveFailures st2))])
                 else (st2, tr1))))"

fun translateLoop ::
  "(nat \<Rightarrow> bool) \<Rightarrow> Net \<Rightarrow> bool \<Rightarrow> NewsItem list \<Rightarrow> TranslationState \<times> trace
     \<Rightarrow> TranslationState \<times> trace" where
  "translateLoop ps net isGithub [] s = s"
| "translateLoop ps net isGithub (item # items) s =
     translateLoop ps net isGithub items (translateStep ps net isGithub item s)"

definition initialState :: TranslationState where
  "initialState =
     \<lparr>results = [], translatedCount = 0, consecutiveFailures = 0, aborted = False\<rparr>"

text \<open>
  \<open>translateTitles(items, isGithub)\<close>, started on the trace \<open>tr\<close>: the value the promise
  resolves to (or the exception it rejects with) and the trace of the call.
\<close>

definition translateTitles ::
  "(nat \<Rightarrow> bool) \<Rightarrow> Net \<Rightarrow> NewsItem list \<Rightarrow> bool \<Rightarrow> trace
     \<Rightarrow> (exn + NewsItem list) \<times> trace" where
  "translateTitles ps net items isGithub tr =
     (case translateLoop ps net isGithub items (initialState, tr) of
        (st, tr') \<Rightarrow> (Inr (results st), tr'))"

section \<open>MessageFormatter (formatter.ts)\<close>

text \<open>
  \<open>formatTime\<close> reads the clock through \<open>Intl.DateTimeFormat.formatToParts\<close>: the
  parts (type and value) are the parameter \<open>parts\<close>. \<open>get\<close> is the value of the first
  part of a type, or the empty string.
\<close>

definition getPart :: "(jsstring \<times> jsstring) list \<Rightarrow> jsstring \<Rightarrow> jsstring" where
  "getPart parts type =
     (case find (\<lambda>p. fst p = type) parts of None \<Rightarrow> [] | Some p \<Rightarrow> snd p)"

definition formatTime :: "(jsstring \<times> jsstring) list \<Rightarrow> jsstring" where
  "formatTime parts =
     getPart parts (js ''year'') @ js ''-'' @ getPart parts (js ''month'') @ js ''-''
     @ getPart parts (js ''day'') @ js '' '' @ getPart parts (js ''hour'') @ js '':''
     @ getPart parts (js ''minute'')"

text \<open>\<open>SourceGroup\<close>, with its fields \<open>name\<close> and \<open>items\<close>.\<close>

record SourceGroup =
  group_name :: jsstring
  group_items :: "NewsItem list"

text \<open>\<open>Array.prototype.join\<close>.\<close>

fun joinWith :: "jsstring \<Rightarrow> jsstring list \<Rightarrow> jsstring" where
  "joinWith sep [] = []"
| "joinWith sep [x] = x"
| "joinWith sep (x # y # ys) = x @ sep @ joinWith sep (y # ys)"

text \<open>One line of a section: \<open>index + 1\<close>, a full stop, and the Markdown link.\<close>

definition itemLine :: "nat \<Rightarrow> NewsItem \<Rightarrow> jsstring" where
  "itemLine index item =
     showNat (index + 1) @ js ''. ['' @ title item @ js ''](''  @ link item @ js '')''"

definition formatSourceSection :: "SourceGroup \<Rightarrow> jsstring" where
  "formatSourceSection grp =
     joinWith [0xa]
       ([js ''### '' @ group_name grp, []]
        @ map (\<lambda>(index, item). itemLine index item) (enumerate 0 (group_items grp)))"

text \<open>The header of a message: the category name, marked as a continuation (three
  code units: the word in fullwidth parentheses) from the second message on.\<close>

definition headerOf :: "jsstring \<Rightarrow> nat \<Rightarrow> jsstring" where
  "headerOf categoryName batchIndex =
     (if batchIndex = 0 then js ''## '' @ categoryName
      else js ''## '' @ categoryName @ [0xff08, 0x7eed, 0xff09])"

text \<open>\<open>header + '\n' + currentSections.join('\n\n') + footer\<close>.\<close>

definition renderMessage :: "jsstring \<Rightarrow> jsstring \<Rightarrow> nat \<Rightarrow> jsstring list \<Rightarrow> jsstring" where
  "renderMessage categoryName footer batchIndex sections =
     headerOf categoryName batchIndex @ [0xa] @ joinWith [0xa, 0xa] sections @ footer"

text \<open>The footer: two line feeds, a quote mark, a five-unit label and the time.\<close>

definition footerOf :: "(jsstring \<times> jsstring) list \<Rightarrow> jsstring" where
  "footerOf parts =
     [0xa, 0xa] @ js ''> '' @ [0x66f4, 0x65b0, 0x65f6, 0x95f4, 0xff1a] @ formatTime parts"

text \<open>The message for a category without news: the header, an empty line and a
  seven-unit sentence.\<close>

definition noDataMessage :: "jsstring \<Rightarrow> jsstring" where
  "noDataMessage categoryName =
     js ''## '' @ categoryName @ [0xa, 0xa, 0x6682, 0x65e0, 0x65b0, 0x95fb, 0x6570, 0x636e, 0x3002]"

text \<open>The locals of the loop of \<open>formatNewsMessages\<close>.\<close>

record FormatState =
  messages :: "jsstring list"
  batchIndex :: nat
  currentSections :: "jsstring list"
  currentLength :: int

text \<open>The two tests of the loop. Numbers are integers: lengths, the two limits and
  their differences.\<close>

definition wouldExceedChars :: "jsstring \<Rightarrow> int \<Rightarrow> jsstring list \<Rightarrow> int \<Rightarrow> jsstring \<Rightarrow> bool" where
  "wouldExceedChars footer maxChars current len section \<longleftrightarrow>
     length current > 0
     \<and> len + int (length section) + 2 > maxChars - int (length footer) - 30"

definition wouldExceedCount :: "int \<Rightarrow> jsstring list \<Rightarrow> bool" where
  "wouldExceedCount maxSourcesPerMsg current \<longleftrightarrow> int (length current) \<ge> maxSourcesPerMsg"

definition formatStep ::
  "jsstring \<Rightarrow> jsstring \<Rightarrow> int \<Rightarrow> int \<Rightarrow> FormatState \<Rightarrow> SourceGroup \<Rightarrow> FormatState" where
  "formatStep categoryName footer maxSourcesPerMsg maxChars st grp =
     (let section = formatSourceSection grp;
          st1 = (if length (currentSections st) > 0
                    \<and> (wouldExceedChars footer maxChars (currentSections st)
                          (currentLength st) section
                        \<or> wouldExceedCount maxSourcesPerMsg (currentSections st))
                 then st\<lparr>messages := messages st @
                            [renderMessage categoryName footer (batchIndex st)
                               (currentSections st)],
                         batchIndex := batchIndex st + 1,
                         currentSections := [],
                         currentLength := 0\<rparr>
                 else st)
      in st1\<lparr>currentSections := currentSections st1 @ [section],
              currentLength := currentLength st1 + int (length section) + 2\<rparr>)"

definition formatNewsMessages ::
  "(jsstring \<times> jsstring) list \<Rightarrow> jsstring \<Rightarrow> SourceGroup list \<Rightarrow> int \<Rightarrow> int \<Rightarrow> jsstring list"
where
  "formatNewsMessages parts categoryName groups maxSourcesPerMsg maxChars =
     (let nonEmpty = filter (\<lambda>g. length (group_items g) > 0) groups
      in if length nonEmpty = 0 then [noDataMessage categoryName]
         else
           let footer = footerOf parts;
               st = foldl (formatStep categoryName footer maxSourcesPerMsg maxChars)
                      \<lparr>messages = [], batchIndex = 0, currentSections = [],
                       currentLength = 0\<rparr>
                      nonEmpty
           in if length (currentSections st) > 0
              then messages st @
                     [renderMessage categoryName footer (batchIndex st) (currentSections st)]
              else messages st)"

text \<open>
  Two notions for the statements about the loop. The running character total of the
  sections of a message is what \<open>currentLength\<close> holds once they have been pushed:
  each section counts for its length plus 2. A split is forced before a section when
  one of the two tests of the loop holds for the sections pushed so far.
\<close>

definition runningTotal :: "jsstring list \<Rightarrow> int" where
  "runningTotal sections = sum_list (map (\<lambda>s. int (length s) + 2) sections)"

definition splitForced :: "jsstring \<Rightarrow> int \<Rightarrow> int \<Rightarrow> jsstring list \<Rightarrow> jsstring \<Rightarrow> bool" where
  "splitForced footer maxSourcesPerMsg maxChars current section \<longleftrightarrow>
     wouldExceedChars footer maxChars current (runningTotal current) section
     \<or> wouldExceedCount maxSourcesPerMsg current"

section \<open>RSS source (sources/rss-source.ts)\<close>

text \<open>\<open>RssSourceConfig\<close>, with its fields \<open>name\<close> and \<open>url\<close> (the \<open>type\<close> is \<open>'rss'\<close>).\<close>

record RssSourceConfig =
  rss_name :: jsstring
  rss_url :: jsstring

text \<open>
  What \<open>parser.parseURL\<close> gives: it rejects (network failure, timeout, a body that is
  not a feed), or it resolves to a feed whose \<open>items\<close> may be absent. Of an item the
  code reads \<open>title\<close>, \<open>link\<close> and \<open>pubDate\<close>, each of which may be absent.
\<close>

record FeedItem =
  item_title :: "jsstring option"
  item_link :: "jsstring option"
  item_pubDate :: "jsstring option"

datatype feed_response = FeedRejects exn | FeedParsed "FeedItem list option"

text \<open>\<open>String.prototype.trim\<close>: white space and line terminators, the class \<open>\s\<close>.\<close>

definition trim :: "jsstring \<Rightarrow> jsstring" where
  "trim s = rev (dropWhile js_space (rev (dropWhile js_space s)))"

text \<open>
  The object the \<open>map\<close> of \<open>fetchSingleFeed\<close> builds. \<open>new Date(text)\<close> is the engine's
  parser, the parameter \<open>parseDate\<close>; an empty \<open>pubDate\<close> is falsy.
\<close>

definition toNewsItem :: "(jsstring \<Rightarrow> Date) \<Rightarrow> RssSourceConfig \<Rightarrow> FeedItem \<Rightarrow> NewsItem" where
  "toNewsItem parseDate src item =
     \<lparr>title = trim (case item_title item of None \<Rightarrow> [] | Some t \<Rightarrow> t),
      link = (case item_link item of None \<Rightarrow> [] | Some l \<Rightarrow> l),
      source = rss_name src,
      pubDate = (case item_pubDate item of
                   None \<Rightarrow> None
                 | Some d \<Rightarrow> if d = [] then None else Some (parseDate d)),
      extra = None\<rparr>"

definition rssFailedWarning :: "RssSourceConfig \<Rightarrow> exn \<Rightarrow> jsstring" where
  "rssFailedWarning src e =
     js ''[RSS] '' @ [0x6293, 0x53d6, 0x5931, 0x8d25] @ js '': '' @ rss_name src
     @ js '' ('' @ rss_url src @ js '') - '' @ message e"

definition fetchSingleFeed ::
  "(nat \<Rightarrow> jsstring \<Rightarrow> feed_response) \<Rightarrow> (jsstring \<Rightarrow> Date) \<Rightarrow> RssSourceConfig \<Rightarrow> trace
     \<Rightarrow> NewsItem list \<times> trace" where
  "fetchSingleFeed feedNet parseDate src tr =
     (case feedNet (length tr) (rss_url src) of
        FeedRejects e \<Rightarrow>
          ([], tr @ [FetchCall (rss_url src), Warn (rssFailedWarning src e)])
      | FeedParsed feedItems \<Rightarrow>
          (filter (\<lambda>item. title item \<noteq> [] \<and> link item \<noteq> [])
             (map (toNewsItem parseDate src)
                (case feedItems of None \<Rightarrow> [] | Some l \<Rightarrow> l)),
           tr @ [FetchCall (rss_url src)]))"

text \<open>The \<open>filter\<close> with the set \<open>seen\<close>: the first item of each link.\<close>

fun uniqueByLink :: "jsstring fset \<Rightarrow> NewsItem list \<Rightarrow> NewsItem list" where
  "uniqueByLink seen [] = []"
| "uniqueByLink seen (item # rest) =
     (if link item |\<in>| seen then uniqueByLink seen rest
      else item # uniqueByLink (finsert (link item) seen) rest)"

text \<open>\<open>a.pubDate?.getTime() ?? 0\<close>: the time value, 0 without a date, and NaN
  (\<open>None\<close>) for an invalid date, which \<open>??\<close> does not replace.\<close>

definition timeOf :: "NewsItem \<Rightarrow> int option" where
  "timeOf a =
     (case pubDate a of
        None \<Rightarrow> Some 0
      | Some (ValidDate t) \<Rightarrow> Some t
      | Some InvalidDate \<Rightarrow> None)"

text \<open>The comparator of the sort: \<open>timeB - timeA\<close>, NaN when one of the two is.\<close>

definition byTimeDescending :: "NewsItem \<Rightarrow> NewsItem \<Rightarrow> int option" where
  "byTimeDescending a b =
     (case (timeOf a, timeOf b) of
        (Some timeA, Some timeB) \<Rightarrow> Some (timeB - timeA)
      | _ \<Rightarrow> None)"

text \<open>
  \<open>Array.prototype.sort\<close> with a comparator is a stable sort; a comparator value of
  NaN counts as zero. For a consistent comparator every stable sort gives the same
  list, here by insertion from the right. With a comparator that is not consistent
  (an invalid date among the items) the order is left to the engine, and this function
  is one such order.
\<close>

fun insertBy :: "('a \<Rightarrow> 'a \<Rightarrow> int option) \<Rightarrow> 'a \<Rightarrow> 'a list \<Rightarrow> 'a list" where
  "insertBy cmp x [] = [x]"
| "insertBy cmp x (y # ys) =
     (if (case cmp x y of None \<Rightarrow> True | Some v \<Rightarrow> v \<le> 0) then x # y # ys
      else y # insertBy cmp x ys)"

definition sortBy :: "('a \<Rightarrow> 'a \<Rightarrow> int option) \<Rightarrow> 'a list \<Rightarrow> 'a list" where
  "sortBy cmp xs = foldr (insertBy cmp) xs []"

text \<open>\<open>xs.slice(0, count)\<close> for an integer \<open>count\<close>: a negative \<open>count\<close> counts from the
  end.\<close>

definition sliceTo :: "int \<Rightarrow> 'a list \<Rightarrow> 'a list" where
  "sliceTo count xs =
     (if count < 0 then take (nat (int (length xs) + count)) xs else take (nat count) xs)"

definition fetchSingleRssSource ::
  "(nat \<Rightarrow> jsstring \<Rightarrow> feed_response) \<Rightarrow> (jsstring \<Rightarrow> Date) \<Rightarrow> RssSourceConfig \<Rightarrow> int
     \<Rightarrow> trace \<Rightarrow> NewsItem list \<times> trace" where
  "fetchSingleRssSource feedNet parseDate src count tr =
     (case fetchSingleFeed feedNet parseDate src tr of
        (feedItems, tr1) \<Rightarrow>
          (sliceTo count (sortBy byTimeDescending (uniqueByLink {||} feedItems)), tr1))"

section \<open>Values at run time\<close>

text \<open>
  The type annotations of the source are erased before it runs. What \<open>response.json()\<close>
  resolves to is whatever \<open>JSON.parse\<close> builds from the body, and reading a property
  that is not there gives \<open>undefined\<close>. A number is a double: it is kept as its value,
  both zeros as 0 (truthiness, \<open>===\<close> and the conversion to a string treat them
  alike), or as one of the infinities that a literal out of range gives. An object is
  the list of its own properties, no key twice.
\<close>

datatype jsnumber = Finite rat | PlusInfinity | MinusInfinity

datatype jsvalue =
    JUndefined
  | JNull
  | JBool bool
  | JNum jsnumber
  | JStr jsstring
  | JArr "jsvalue list"
  | JObj "(jsstring \<times> jsvalue) list"

text \<open>The values that count as true in a condition, \<open>||\<close> or \<open>?:\<close>.\<close>

fun truthy :: "jsvalue \<Rightarrow> bool" where
  "truthy JUndefined = False"
| "truthy JNull = False"
| "truthy (JBool b) = b"
| "truthy (JNum n) = (n \<noteq> Finite 0)"
| "truthy (JStr s) = (s \<noteq> [])"
| "truthy (JArr xs) = True"
| "truthy (JObj ps) = True"

text \<open>
  \<open>a === b\<close>. An object or an array is equal to itself only. The values this program
  compares are the links of two different items, and two nodes of parsed responses are
  never the same object: on objects and arrays the comparison is false.
\<close>

fun strictEquals :: "jsvalue \<Rightarrow> jsvalue \<Rightarrow> bool" where
  "strictEquals JUndefined JUndefined = True"
| "strictEquals JNull JNull = True"
| "strictEquals (JBool a) (JBool b) = (a = b)"
| "strictEquals (JNum a) (JNum b) = (a = b)"
| "strictEquals (JStr a) (JStr b) = (a = b)"
| "strictEquals a b = False"

text \<open>
  The errors the engine throws here, all of them instances of \<open>Error\<close>, with the
  messages of V8: a property read of \<open>undefined\<close> or \<open>null\<close>, a call of something that
  is not a function, an object that cannot be made a string, and a lone surrogate given
  to \<open>encodeURIComponent\<close>.
\<close>

definition cannotRead :: "string \<Rightarrow> string \<Rightarrow> exn" where
  "cannotRead v k =
     Error (js ''Cannot read properties of '' @ js v @ js '' (reading '' @ [0x27] @ js k
            @ [0x27] @ js '')'')"

definition notAFunction :: "string \<Rightarrow> exn" where
  "notAFunction callee = Error (js callee @ js '' is not a function'')"

definition notPrimitive :: exn where
  "notPrimitive = Error (js ''Cannot convert object to primitive value'')"

definition uriMalformed :: exn where
  "uriMalformed = Error (js ''URI malformed'')"

text \<open>
  Reading the property \<open>k\<close> of a value that is neither \<open>undefined\<close> nor \<open>null\<close>, for the
  keys this program reads from a response: \<open>data\<close>, \<open>cards\<close>, \<open>content\<close>, \<open>list\<close>, \<open>0\<close>,
  \<open>word\<close>, \<open>url\<close>, \<open>desc\<close>, \<open>Title\<close>, \<open>Url\<close>, \<open>keyword\<close> and \<open>show_name\<close>. None of them is
  a property of the prototype of objects, arrays, strings, numbers or booleans, so only
  own properties are found. Index 0 of an array is its first element, and of a string
  its first code unit.
\<close>

fun getProperty :: "jsvalue \<Rightarrow> jsstring \<Rightarrow> jsvalue" where
  "getProperty (JObj ps) k = (case map_of ps k of None \<Rightarrow> JUndefined | Some v \<Rightarrow> v)"
| "getProperty (JArr xs) k =
     (if k = js ''0'' then (case xs of [] \<Rightarrow> JUndefined | x # rest \<Rightarrow> x) else JUndefined)"
| "getProperty (JStr s) k =
     (if k = js ''0'' then (case s of [] \<Rightarrow> JUndefined | c # rest \<Rightarrow> JStr [c])
      else JUndefined)"
| "getProperty v k = JUndefined"

text \<open>\<open>v?.k\<close> and \<open>v?.[0]\<close>.\<close>

definition optional :: "jsvalue \<Rightarrow> string \<Rightarrow> jsvalue" where
  "optional v k = (if v = JUndefined \<or> v = JNull then JUndefined else getProperty v (js k))"

text \<open>\<open>v.k\<close>, which throws when \<open>v\<close> is \<open>undefined\<close> or \<open>null\<close>.\<close>

definition readProperty :: "jsvalue \<Rightarrow> string \<Rightarrow> exn + jsvalue" where
  "readProperty v k =
     (if v = JUndefined then Inl (cannotRead ''undefined'' k)
      else if v = JNull then Inl (cannotRead ''null'' k)
      else Inr (getProperty v (js k)))"

text \<open>
  \<open>ToString\<close>, which a template literal applies to each of its values. The text of a
  number is the engine's, the parameter \<open>numText\<close>. An array is joined with
  commas, \<open>undefined\<close> and \<open>null\<close> among its elements giving nothing. A parsed object
  has no function of its own: with an own property \<open>toString\<close> it cannot be converted
  (the \<open>valueOf\<close> it has or inherits gives no primitive value either), without one
  \<open>Object.prototype.toString\<close> answers.
\<close>

fun ToString :: "(jsnumber \<Rightarrow> jsstring) \<Rightarrow> jsvalue \<Rightarrow> exn + jsstring"
  and joinElements :: "(jsnumber \<Rightarrow> jsstring) \<Rightarrow> jsvalue list \<Rightarrow> exn + jsstring"
where
  "ToString numText JUndefined = Inr (js ''undefined'')"
| "ToString numText JNull = Inr (js ''null'')"
| "ToString numText (JBool b) = Inr (if b then js ''true'' else js ''false'')"
| "ToString numText (JNum n) = Inr (numText n)"
| "ToString numText (JStr s) = Inr s"
| "ToString numText (JArr xs) = joinElements numText xs"
| "ToString numText (JObj ps) =
     (if js ''toString'' \<in> set (map fst ps) then Inl notPrimitive
      else Inr (js ''[object Object]''))"
| "joinElements numText [] = Inr []"
| "joinElements numText (x # xs) =
     (case (if x = JUndefined \<or> x = JNull then Inr [] else ToString numText x) of
        Inl e \<Rightarrow> Inl e
      | Inr s \<Rightarrow>
          if xs = [] then Inr s
          else (case joinElements numText xs of
                  Inl e \<Rightarrow> Inl e
                | Inr r \<Rightarrow> Inr (s @ js '','' @ r)))"

text \<open>
  \<open>encodeURIComponent\<close>: the letters, the digits and \<open>- _ . ! ~ * ' ( )\<close> stay, every
  other code point becomes the bytes of its UTF-8 form, each as \<open>%\<close> and two
  hexadecimal digits in upper case; a surrogate without its partner is a \<open>URIError\<close>.
\<close>

definition uriUnreserved :: "nat \<Rightarrow> bool" where
  "uriUnreserved c \<longleftrightarrow>
     (0x41 \<le> c \<and> c \<le> 0x5a) \<or> (0x61 \<le> c \<and> c \<le> 0x7a) \<or> (0x30 \<le> c \<and> c \<le> 0x39)
     \<or> c \<in> {0x2d, 0x5f, 0x2e, 0x21, 0x7e, 0x2a, 0x27, 0x28, 0x29}"

definition utf8 :: "nat \<Rightarrow> nat list" where
  "utf8 cp =
     (if cp < 0x80 then [cp]
      else if cp < 0x800 then [0xc0 + cp div 0x40, 0x80 + cp mod 0x40]
      else if cp < 0x10000
        then [0xe0 + cp div 0x1000, 0x80 + cp div 0x40 mod 0x40, 0x80 + cp mod 0x40]
      else [0xf0 + cp div 0x40000, 0x80 + cp div 0x1000 mod 0x40,
            0x80 + cp div 0x40 mod 0x40, 0x80 + cp mod 0x40])"

definition hexDigit :: "nat \<Rightarrow> nat" where
  "hexDigit d = (if d < 10 then 0x30 + d else 0x41 + (d - 10))"

definition percentEncoded :: "nat \<Rightarrow> jsstring" where
  "percentEncoded cp = concat (map (\<lambda>b. [0x25, hexDigit (b div 16), hexDigit (b mod 16)]) (utf8 cp))"

fun encodeURIComponent :: "jsstring \<Rightarrow> exn + jsstring" where
  "encodeURIComponent [] = Inr []"
| "encodeURIComponent [c] =
     (if high_surrogate c \<or> low_surrogate c then Inl uriMalformed
      else Inr (if uriUnreserved c then [c] else percentEncoded c))"
| "encodeURIComponent (c # d # cs) =
     (if high_surrogate c then
        (if low_surrogate d then
           (case encodeURIComponent cs of
              Inl e \<Rightarrow> Inl e
            | Inr r \<Rightarrow> Inr (percentEncoded (codePoint c d) @ r))
         else Inl uriMalformed)
      else if low_surrogate c then Inl uriMalformed
      else (case encodeURIComponent (d # cs) of
              Inl e \<Rightarrow> Inl e
            | Inr r \<Rightarrow> Inr ((if uriUnreserved c then [c] else percentEncoded c) @ r)))"

text \<open>\<open>xs.map(f)\<close> with a callback that may throw: the first exception ends it.\<close>

fun mapThrowing :: "('a \<Rightarrow> exn + 'b) \<Rightarrow> 'a list \<Rightarrow> exn + 'b list" where
  "mapThrowing f [] = Inr []"
| "mapThrowing f (x # xs) =
     (case f x of
        Inl e \<Rightarrow> Inl e
      | Inr y \<Rightarrow> (case mapThrowing f xs of Inl e \<Rightarrow> Inl e | Inr ys \<Rightarrow> Inr (y # ys)))"

text \<open>
  A \<open>NewsItem\<close> as it is at run time. The fetchers of the hot lists copy fields of the
  response into \<open>title\<close>, \<open>link\<close> and \<open>extra.description\<close> without a test, so these are
  values of any kind; \<open>rt_description\<close> is \<open>item.extra?.description\<close>. An item of the
  declared type is the special case \<open>runtimeItem\<close>.
\<close>

record RuntimeItem =
  rt_title :: jsvalue
  rt_link :: jsvalue
  rt_source :: jsstring
  rt_description :: jsvalue

definition runtimeItem :: "NewsItem \<Rightarrow> RuntimeItem" where
  "runtimeItem item =
     \<lparr>rt_title = JStr (title item),
      rt_link = JStr (link item),
      rt_source = source item,
      rt_description =
        (case extra item of
           None \<Rightarrow> JUndefined
         | Some e \<Rightarrow> (case description e of None \<Rightarrow> JUndefined | Some d \<Rightarrow> JStr d))\<rparr>"

section \<open>Hot lists (sources/baidu-hot.ts, toutiao-hot.ts, bilibili-hot.ts)\<close>

text \<open>
  What \<open>fetch\<close> gives: it rejects (no connection, the timeout of ten seconds), or it
  resolves to a response with its \<open>ok\<close>, its \<open>status\<close> and what \<open>response.json()\<close>
  resolves to, or rejects with when the body is not JSON.
\<close>

datatype http_response = FetchRejects exn | HttpResponse bool nat "exn + jsvalue"

text \<open>
  \<open>items.slice(0, count).map(f)\<close> on a value of any kind. Only an array has both
  methods; a string has \<open>slice\<close> and no \<open>map\<close>; \<open>items\<close> is never \<open>undefined\<close> or \<open>null\<close>
  where this is used, after \<open>?? []\<close>.
\<close>

definition sliceMap :: "(jsvalue \<Rightarrow> exn + 'b) \<Rightarrow> int \<Rightarrow> jsvalue \<Rightarrow> exn + 'b list" where
  "sliceMap f count items =
     (case items of
        JArr xs \<Rightarrow> mapThrowing f (sliceTo count xs)
      | JStr s \<Rightarrow> Inl (notAFunction ''items.slice(...).map'')
      | JUndefined \<Rightarrow> Inl (cannotRead ''undefined'' ''slice'')
      | JNull \<Rightarrow> Inl (cannotRead ''null'' ''slice'')
      | _ \<Rightarrow> Inl (notAFunction ''items.slice''))"

text \<open>\<open>v ?? []\<close>.\<close>

definition orEmptyArray :: "jsvalue \<Rightarrow> jsvalue" where
  "orEmptyArray v = (if v = JUndefined \<or> v = JNull then JArr [] else v)"

text \<open>The line of the \<open>catch\<close> of a fetcher, with the name of the list in brackets.\<close>

definition hotFailedWarning :: "jsstring \<Rightarrow> exn \<Rightarrow> jsstring" where
  "hotFailedWarning listName e =
     js ''['' @ listName @ js ''] '' @ [0x6293, 0x53d6, 0x5931, 0x8d25] @ js '': '' @ message e"

text \<open>
  The body of the \<open>try\<close> up to the parsed response: the request has been made, a
  response that is not \<open>ok\<close> is thrown as \<open>HTTP\<close> and its status.
\<close>

definition responseData :: "http_response \<Rightarrow> exn + jsvalue" where
  "responseData response =
     (case response of
        FetchRejects e \<Rightarrow> Inl e
      | HttpResponse ok status body \<Rightarrow>
          if \<not> ok then Inl (Error (js ''HTTP '' @ showNat status)) else body)"

text \<open>\<open>fetchBaiduHot\<close>: the object that the \<open>map\<close> builds of an element of the list, and
  the function. The \<open>catch\<close> covers the whole body.\<close>

definition baiduItem :: "jsvalue \<Rightarrow> exn + RuntimeItem" where
  "baiduItem item =
     (case readProperty item ''word'' of
        Inl e \<Rightarrow> Inl e
      | Inr word \<Rightarrow>
          Inr \<lparr>rt_title = word,
               rt_link = getProperty item (js ''url''),
               rt_source = [0x767e, 0x5ea6, 0x70ed, 0x641c],
               rt_description =
                 (if truthy (getProperty item (js ''desc'')) then getProperty item (js ''desc'')
                  else JUndefined)\<rparr>)"

definition fetchBaiduHot ::
  "(nat \<Rightarrow> http_response) \<Rightarrow> int \<Rightarrow> trace \<Rightarrow> RuntimeItem list \<times> trace" where
  "fetchBaiduHot net count tr =
     (let tr1 = tr @ [FetchCall (js ''https://top.baidu.com/api/board?platform=wise&tab=realtime'')]
      in case (case responseData (net (length tr)) of
                 Inl e \<Rightarrow> Inl e
               | Inr data \<Rightarrow>
                   sliceMap baiduItem count
                     (orEmptyArray
                        (optional (optional (optional (optional (optional (optional data
                           ''data'') ''cards'') ''0'') ''content'') ''0'') ''content''))) of
           Inl e \<Rightarrow> ([], tr1 @ [Warn (hotFailedWarning [0x767e, 0x5ea6, 0x70ed, 0x641c] e)])
         | Inr newsItems \<Rightarrow> (newsItems, tr1))"

text \<open>\<open>fetchToutiaoHot\<close>.\<close>

definition toutiaoItem :: "jsvalue \<Rightarrow> exn + RuntimeItem" where
  "toutiaoItem item =
     (case readProperty item ''Title'' of
        Inl e \<Rightarrow> Inl e
      | Inr t \<Rightarrow>
          Inr \<lparr>rt_title = t,
               rt_link = getProperty item (js ''Url''),
               rt_source = [0x4eca, 0x65e5, 0x5934, 0x6761],
               rt_description = JUndefined\<rparr>)"

definition fetchToutiaoHot ::
  "(nat \<Rightarrow> http_response) \<Rightarrow> int \<Rightarrow> trace \<Rightarrow> RuntimeItem list \<times> trace" where
  "fetchToutiaoHot net count tr =
     (let tr1 = tr @ [FetchCall
                        (js ''https://www.toutiao.com/hot-event/hot-board/?origin=toutiao_pc'')]
      in case (case responseData (net (length tr)) of
                 Inl e \<Rightarrow> Inl e
               | Inr data \<Rightarrow> sliceMap toutiaoItem count (orEmptyArray (optional data ''data''))) of
           Inl e \<Rightarrow> ([], tr1 @ [Warn (hotFailedWarning [0x4eca, 0x65e5, 0x5934, 0x6761] e)])
         | Inr newsItems \<Rightarrow> (newsItems, tr1))"

text \<open>\<open>fetchBilibiliHot\<close>: the title is \<open>show_name\<close> or, when that is falsy, \<open>keyword\<close>; the
  link is a string, made of the text of \<open>keyword\<close>.\<close>

definition bilibiliItem :: "(jsnumber \<Rightarrow> jsstring) \<Rightarrow> jsvalue \<Rightarrow> exn + RuntimeItem" where
  "bilibiliItem numText item =
     (case readProperty item ''show_name'' of
        Inl e \<Rightarrow> Inl e
      | Inr show_name \<Rightarrow>
          (case ToString numText (getProperty item (js ''keyword'')) of
             Inl e \<Rightarrow> Inl e
           | Inr keyword \<Rightarrow>
               (case encodeURIComponent keyword of
                  Inl e \<Rightarrow> Inl e
                | Inr encoded \<Rightarrow>
                    Inr \<lparr>rt_title = (if truthy show_name then show_name
                                     else getProperty item (js ''keyword'')),
                         rt_link = JStr (js ''https://search.bilibili.com/all?keyword='' @ encoded),
                         rt_source = js ''B'' @ [0x7ad9, 0x70ed, 0x641c],
                         rt_description = JUndefined\<rparr>)))"

definition fetchBilibiliHot ::
  "(jsnumber \<Rightarrow> jsstring) \<Rightarrow> (nat \<Rightarrow> http_response) \<Rightarrow> int \<Rightarrow> trace
     \<Rightarrow> RuntimeItem list \<times> trace" where
  "fetchBilibiliHot numText net count tr =
     (let tr1 = tr @ [FetchCall (js ''https://app.bilibili.com/x/v2/search/trending/ranking'')]
      in case (case responseData (net (length tr)) of
                 Inl e \<Rightarrow> Inl e
               | Inr data \<Rightarrow>
                   sliceMap (bilibiliItem numText) count
                     (orEmptyArray (optional (optional data ''data'') ''list''))) of
           Inl e \<Rightarrow>
             ([], tr1 @ [Warn (hotFailedWarning (js ''B'' @ [0x7ad9, 0x70ed, 0x641c]) e)])
         | Inr newsItems \<Rightarrow> (newsItems, tr1))"

section \<open>Dispatcher (dispatcher.ts)\<close>

text \<open>The configuration (config/types.ts). Field names carry a prefix where the source
  has \<open>type\<close>, \<open>url\<close>, \<open>name\<close>, \<open>count\<close>, \<open>webhooks\<close>, \<open>sources\<close>, \<open>language\<close>
  and \<open>since\<close>. \<open>createWebhookAdapter\<close> takes the type of a webhook as any string.\<close>

record WebhookConfig =
  wh_type :: jsstring
  wh_url :: jsstring

record GithubTrendingSourceConfig =
  gh_name :: "jsstring option"
  gh_language :: "jsstring option"
  gh_since :: "jsstring option"

text \<open>\<open>SourceConfig\<close>, a union tagged by \<open>type\<close>; the three hot lists have an optional
  \<open>name\<close>.\<close>

datatype SourceConfig =
    RssSource RssSourceConfig
  | GithubTrendingSource GithubTrendingSourceConfig
  | BaiduHotSource "jsstring option"
  | ToutiaoHotSource "jsstring option"
  | BilibiliHotSource "jsstring option"

record CategoryConfig =
  cat_name :: jsstring
  cat_count :: int
  cat_webhooks :: "jsstring list"
  cat_sources :: "SourceConfig list"

text \<open>
  \<open>AppConfig\<close>: \<open>webhooks\<close> in the order \<open>Object.entries\<close> lists them, \<open>categories\<close>
  as the map of the own properties of the object (it is only looked up; what the lookup
  finds besides them is in \<open>dispatchLoop\<close>), and \<open>settings?.translate\<close> (\<open>None\<close> when
  absent). The configuration has the declared type \<open>AppConfig\<close>.
\<close>

record AppConfig =
  webhooks :: "(jsstring \<times> WebhookConfig) list"
  categories :: "jsstring \<rightharpoonup> CategoryConfig"
  settings_translate :: "bool option"

record LocalFilter =
  blockedKeywords :: "jsstring list"

text \<open>The two adapter classes, each constructed with a name and a URL.\<close>

datatype WebhookAdapter =
    WpsTeamsWebhook jsstring jsstring
  | WecomWebhook jsstring jsstring

fun adapterName :: "WebhookAdapter \<Rightarrow> jsstring" where
  "adapterName (WpsTeamsWebhook n u) = n"
| "adapterName (WecomWebhook n u) = n"

text \<open>
  The outside world and the engine, as the dispatcher meets them. The engine: the
  Unicode tables of \<open>needsTranslation\<close>, the date parser, \<open>(stars / 1000).toFixed(1)\<close>,
  the clock of \<open>formatTime\<close> and the text of a number. \<open>loadLocalFilter\<close>
  (config/loader.ts, in a version of the file that is not among the sources) reads a
  file: it returns a filter or throws. The network: the translation providers, the
  feeds (with items as the parser library declares them), the responses of the three
  hot lists, and the items that \<open>fetchGithubTrending\<close> returns from inside its \<open>try\<close>,
  whose \<open>catch\<close> returns the empty list and whose warning is not recorded. \<open>sendNet\<close> is
  what \<open>sendMarkdown\<close> of an adapter does with a text: it resolves (\<open>None\<close>) or throws.
\<close>

record Env =
  punctOrSymbol :: "nat \<Rightarrow> bool"
  dateParse :: "jsstring \<Rightarrow> Date"
  thousandsFixed :: "nat \<Rightarrow> jsstring"
  clock :: "nat \<Rightarrow> (jsstring \<times> jsstring) list"
  numberToString :: "jsnumber \<Rightarrow> jsstring"
  loadLocalFilter :: "exn + LocalFilter"
  translators :: Net
  feedNet :: "nat \<Rightarrow> jsstring \<Rightarrow> feed_response"
  githubNet :: "nat \<Rightarrow> GithubTrendingSourceConfig \<Rightarrow> int \<Rightarrow> NewsItem list"
  baiduNet :: "nat \<Rightarrow> http_response"
  toutiaoNet :: "nat \<Rightarrow> http_response"
  bilibiliNet :: "nat \<Rightarrow> http_response"
  sendNet :: "nat \<Rightarrow> WebhookAdapter \<Rightarrow> jsstring \<Rightarrow> exn option"

definition unsupportedWebhookType :: "jsstring \<Rightarrow> exn" where
  "unsupportedWebhookType t =
     Error ([0x4e0d, 0x652f, 0x6301, 0x7684] @ js '' webhook '' @ [0x7c7b, 0x578b] @ js '': '' @ t)"

definition createWebhookAdapter :: "jsstring \<Rightarrow> WebhookConfig \<Rightarrow> exn + WebhookAdapter" where
  "createWebhookAdapter n config =
     (if wh_type config = js ''wps-teams'' then Inr (WpsTeamsWebhook n (wh_url config))
      else if wh_type config = js ''wecom'' then Inr (WecomWebhook n (wh_url config))
      else Inl (unsupportedWebhookType (wh_type config)))"

definition isGithubSource :: "SourceConfig \<Rightarrow> bool" where
  "isGithubSource s = (case s of GithubTrendingSource c \<Rightarrow> True | _ \<Rightarrow> False)"

definition isGithubCategory :: "CategoryConfig \<Rightarrow> bool" where
  "isGithubCategory category = list_ex isGithubSource (cat_sources category)"

text \<open>\<open>text.includes(kw)\<close>: \<open>kw\<close> occurs in \<open>text\<close> at some position.\<close>

fun stringIncludes :: "jsstring \<Rightarrow> jsstring \<Rightarrow> bool" where
  "stringIncludes [] kw = (kw = [])"
| "stringIncludes (c # cs) kw = (prefix kw (c # cs) \<or> stringIncludes cs kw)"

text \<open>
  \<open>applyKeywordFilter\<close>, on items seen through \<open>view\<close> as they are at run time. The
  template literal converts the title and \<open>item.extra?.description ?? ''\<close> to strings,
  which throws on a value that cannot be converted; the \<open>filter\<close> ends there.
\<close>

definition keywordText :: "(jsnumber \<Rightarrow> jsstring) \<Rightarrow> RuntimeItem \<Rightarrow> exn + jsstring" where
  "keywordText numText item =
     (case ToString numText (rt_title item) of
        Inl e \<Rightarrow> Inl e
      | Inr t \<Rightarrow>
          (case (if rt_description item = JUndefined \<or> rt_description item = JNull then Inr []
                 else ToString numText (rt_description item)) of
             Inl e \<Rightarrow> Inl e
           | Inr d \<Rightarrow> Inr (t @ js '' '' @ d)))"

fun filterThrowing :: "('a \<Rightarrow> exn + bool) \<Rightarrow> 'a list \<Rightarrow> exn + 'a list" where
  "filterThrowing p [] = Inr []"
| "filterThrowing p (x # xs) =
     (case p x of
        Inl e \<Rightarrow> Inl e
      | Inr keep \<Rightarrow>
          (case filterThrowing p xs of
             Inl e \<Rightarrow> Inl e
           | Inr ys \<Rightarrow> Inr (if keep then x # ys else ys)))"

definition applyKeywordFilter ::
  "(jsnumber \<Rightarrow> jsstring) \<Rightarrow> ('a \<Rightarrow> RuntimeItem) \<Rightarrow> 'a list \<Rightarrow> LocalFilter \<Rightarrow> exn + 'a list" where
  "applyKeywordFilter numText view newsItems localFilter =
     (if length (blockedKeywords localFilter) = 0 then Inr newsItems
      else filterThrowing
        (\<lambda>item.
           case keywordText numText (view item) of
             Inl e \<Rightarrow> Inl e
           | Inr text \<Rightarrow>
               Inr (\<not> list_ex (\<lambda>kw. stringIncludes text kw) (blockedKeywords localFilter)))
        newsItems)"

text \<open>
  \<open>TitleDeduplicator.filter\<close> on items as they are at run time, with the threshold 0.5
  that \<open>dispatch\<close> leaves to the default. The links are compared with \<open>===\<close>;
  \<open>extractTokens\<close> calls \<open>title.match\<close>, which only a string has. On items of the
  declared type this is \<open>dedup_filter\<close> above.
\<close>

record RuntimeSeenEntry =
  rt_chars :: "jsstring fset"
  rt_seen_link :: jsvalue

definition extractTokensOf :: "jsvalue \<Rightarrow> exn + jsstring fset" where
  "extractTokensOf t =
     (case t of
        JStr s \<Rightarrow> Inr (extractTokens s)
      | JUndefined \<Rightarrow> Inl (cannotRead ''undefined'' ''match'')
      | JNull \<Rightarrow> Inl (cannotRead ''null'' ''match'')
      | _ \<Rightarrow> Inl (notAFunction ''title.match''))"

fun filter_loop_runtime ::
  "('a \<Rightarrow> RuntimeItem) \<Rightarrow> rat \<Rightarrow> RuntimeSeenEntry list \<Rightarrow> 'a list \<Rightarrow> 'a list
     \<Rightarrow> exn + 'a list \<times> RuntimeSeenEntry list" where
  "filter_loop_runtime view threshold seen result [] = Inr (result, seen)"
| "filter_loop_runtime view threshold seen result (item # items) =
     (if list_ex (\<lambda>s. strictEquals (rt_seen_link s) (rt_link (view item))) seen
      then filter_loop_runtime view threshold seen result items
      else
        (case extractTokensOf (rt_title (view item)) of
           Inl e \<Rightarrow> Inl e
         | Inr tokens \<Rightarrow>
             if list_ex (\<lambda>s. jaccard (rt_chars s) tokens \<ge> threshold) seen
             then filter_loop_runtime view threshold seen result items
             else filter_loop_runtime view threshold
                    (seen @ [\<lparr>rt_chars = tokens, rt_seen_link = rt_link (view item)\<rparr>])
                    (result @ [item]) items))"

definition dedup_filter_runtime ::
  "('a \<Rightarrow> RuntimeItem) \<Rightarrow> RuntimeSeenEntry list \<Rightarrow> 'a list
     \<Rightarrow> exn + 'a list \<times> RuntimeSeenEntry list" where
  "dedup_filter_runtime view seen newsItems = filter_loop_runtime view (1 / 2) seen [] newsItems"

text \<open>
  \<open>encodeURIComponent\<close> throws a \<open>URIError\<close> on a string with a surrogate that has no
  partner; \<open>wellFormed\<close> is the absence of such a surrogate.
\<close>

fun wellFormed :: "jsstring \<Rightarrow> bool" where
  "wellFormed [] = True"
| "wellFormed [c] = (\<not> high_surrogate c \<and> \<not> low_surrogate c)"
| "wellFormed (c # d # cs) =
     (if high_surrogate c then low_surrogate d \<and> wellFormed cs
      else \<not> low_surrogate c \<and> wellFormed (d # cs))"

text \<open>
  \<open>fetchGithubTrending\<close> (sources/github-trending.ts): \<open>buildTrendingUrl\<close> runs before
  the \<open>try\<close> and encodes the language, when there is one; the rest is the \<open>try\<close> block.
  The event names the site; the language and the period are in the configuration that
  the oracle reads.
\<close>

definition fetchGithubTrending ::
  "Env \<Rightarrow> GithubTrendingSourceConfig \<Rightarrow> int \<Rightarrow> trace \<Rightarrow> (exn + NewsItem list) \<times> trace" where
  "fetchGithubTrending env config count tr =
     (case gh_language config of
        Some lang \<Rightarrow>
          if lang \<noteq> [] \<and> \<not> wellFormed lang then (Inl (Error (js ''URI malformed'')), tr)
          else (Inr (githubNet env (length tr) config count),
                tr @ [FetchCall (js ''https://github.com/trending'')])
      | None \<Rightarrow>
          (Inr (githubNet env (length tr) config count),
           tr @ [FetchCall (js ''https://github.com/trending'')]))"

text \<open>\<open>formatStars\<close> (sources/github-trending.ts).\<close>

definition formatStars :: "Env \<Rightarrow> nat \<Rightarrow> jsstring" where
  "formatStars env n = (if n \<ge> 1000 then thousandsFixed env n @ js ''k'' else showNat n)"

text \<open>One line of \<open>formatGithubMarkdown\<close>.\<close>

definition githubLine :: "Env \<Rightarrow> nat \<Rightarrow> NewsItem \<Rightarrow> jsstring" where
  "githubLine env index item =
     (let parts = (case extra item of
                     None \<Rightarrow> []
                   | Some e \<Rightarrow> (case description e of
                                  None \<Rightarrow> []
                                | Some d \<Rightarrow> if d \<noteq> [] then [d] else []));
          meta = (case extra item of
                    None \<Rightarrow> []
                  | Some e \<Rightarrow>
                      (case language e of
                         None \<Rightarrow> []
                       | Some l \<Rightarrow> if l \<noteq> [] then [l] else [])
                      @ (case stars e of
                           None \<Rightarrow> []
                         | Some n \<Rightarrow> if n \<noteq> 0 then [formatStars env n @ js '' stars''] else [])
                      @ (case todayStars e of
                           None \<Rightarrow> []
                         | Some n \<Rightarrow> if n \<noteq> 0 then [js ''+'' @ showNat n @ js '' today''] else []));
          desc = (if length parts > 0 then js '' - '' @ joinWith (js '' '') parts else []);
          metaStr = (if length meta > 0 then js '' (*'' @ joinWith (js '', '') meta @ js ''*)''
                     else [])
      in showNat (index + 1) @ js ''. ['' @ title item @ js ''](''  @ link item @ js '')''
         @ desc @ metaStr)"

definition formatGithubMarkdown ::
  "Env \<Rightarrow> (jsstring \<times> jsstring) list \<Rightarrow> jsstring \<Rightarrow> NewsItem list \<Rightarrow> jsstring" where
  "formatGithubMarkdown env parts categoryName newsItems =
     (if length newsItems = 0
      then js ''## '' @ categoryName
           @ [0xa, 0xa, 0x6682, 0x65e0] @ js '' Trending '' @ [0x6570, 0x636e, 0x3002]
      else joinWith [0xa]
             ([js ''## '' @ categoryName, []]
              @ map (\<lambda>(index, item). githubLine env index item) (enumerate 0 newsItems)
              @ [[],
                 js ''> '' @ [0x6765, 0x6e90, 0xff1a] @ js ''GitHub Trending'',
                 js ''> '' @ [0x66f4, 0x65b0, 0x65f6, 0x95f4, 0xff1a] @ formatTime parts]))"

text \<open>
  The branch on \<open>source.type\<close> for the three hot lists: the name of the source and its
  items. A GitHub source in a category without GitHub Trending does not occur; it
  would leave both empty.
\<close>

definition fetchHotSource ::
  "Env \<Rightarrow> SourceConfig \<Rightarrow> int \<Rightarrow> trace \<Rightarrow> (jsstring \<times> RuntimeItem list) \<times> trace" where
  "fetchHotSource env src count tr =
     (case src of
        BaiduHotSource n \<Rightarrow>
          (case fetchBaiduHot (baiduNet env) count tr of
             (newsItems, tr1) \<Rightarrow>
               (((case n of None \<Rightarrow> [0x767e, 0x5ea6, 0x70ed, 0x641c] | Some s \<Rightarrow> s), newsItems),
                tr1))
      | ToutiaoHotSource n \<Rightarrow>
          (case fetchToutiaoHot (toutiaoNet env) count tr of
             (newsItems, tr1) \<Rightarrow>
               (((case n of None \<Rightarrow> [0x4eca, 0x65e5, 0x5934, 0x6761] | Some s \<Rightarrow> s), newsItems),
                tr1))
      | BilibiliHotSource n \<Rightarrow>
          (case fetchBilibiliHot (numberToString env) (bilibiliNet env) count tr of
             (newsItems, tr1) \<Rightarrow>
               (((case n of None \<Rightarrow> js ''B'' @ [0x7ad9, 0x70ed, 0x641c] | Some s \<Rightarrow> s), newsItems),
                tr1))
      | _ \<Rightarrow> (([], []), tr))"

text \<open>
  The body of the loop over the sources from the first test of \<open>items.length\<close> to the
  last: the keyword filter, then the deduplicator. An empty result is a \<open>continue\<close>.
\<close>

definition keepNew ::
  "(jsnumber \<Rightarrow> jsstring) \<Rightarrow> LocalFilter \<Rightarrow> ('a \<Rightarrow> RuntimeItem) \<Rightarrow> 'a list
     \<Rightarrow> RuntimeSeenEntry list \<Rightarrow> exn + 'a list \<times> RuntimeSeenEntry list" where
  "keepNew numText localFilter view fetched seen =
     (if length fetched = 0 then Inr ([], seen)
      else
        (case applyKeywordFilter numText view fetched localFilter of
           Inl e \<Rightarrow> Inl e
         | Inr kept \<Rightarrow>
             if length kept = 0 then Inr ([], seen)
             else dedup_filter_runtime view seen kept))"

text \<open>
  One turn of the loop over the sources of a category, with the groups so far and the
  field \<open>seen\<close> of the deduplicator of the category. The items of a feed have the
  declared type and may be translated; those of a hot list are as the response made
  them and are not translated. A group holds its items as they are at run time.
\<close>

definition sourceStep ::
  "Env \<Rightarrow> LocalFilter \<Rightarrow> bool \<Rightarrow> int \<Rightarrow> SourceConfig \<Rightarrow> (jsstring \<times> RuntimeItem list) list
     \<Rightarrow> RuntimeSeenEntry list \<Rightarrow> trace
     \<Rightarrow> (exn + (jsstring \<times> RuntimeItem list) list \<times> RuntimeSeenEntry list) \<times> trace" where
  "sourceStep env localFilter shouldTranslate count src groups seen tr =
     (case src of
        RssSource rssSource \<Rightarrow>
          (case fetchSingleRssSource (feedNet env) (dateParse env) rssSource count tr of
             (fetched, tr1) \<Rightarrow>
               (case keepNew (numberToString env) localFilter runtimeItem fetched seen of
                  Inl e \<Rightarrow> (Inl e, tr1)
                | Inr (unique, seen1) \<Rightarrow>
                    if length unique = 0 then (Inr (groups, seen1), tr1)
                    else
                      (case (if shouldTranslate
                             then translateTitles (punctOrSymbol env) (translators env)
                                    unique False tr1
                             else (Inr unique, tr1)) of
                         (Inl e, tr2) \<Rightarrow> (Inl e, tr2)
                       | (Inr translatedItems, tr2) \<Rightarrow>
                           (Inr (groups @ [(rss_name rssSource, map runtimeItem translatedItems)],
                                 seen1),
                            tr2))))
      | _ \<Rightarrow>
          (case fetchHotSource env src count tr of
             ((sourceName, fetched), tr1) \<Rightarrow>
               (case keepNew (numberToString env) localFilter (\<lambda>item. item) fetched seen of
                  Inl e \<Rightarrow> (Inl e, tr1)
                | Inr (unique, seen1) \<Rightarrow>
                    if length unique = 0 then (Inr (groups, seen1), tr1)
                    else (Inr (groups @ [(sourceName, unique)], seen1), tr1))))"

fun sourcesLoop ::
  "Env \<Rightarrow> LocalFilter \<Rightarrow> bool \<Rightarrow> int \<Rightarrow> SourceConfig list \<Rightarrow> (jsstring \<times> RuntimeItem list) list
     \<Rightarrow> RuntimeSeenEntry list \<Rightarrow> trace
     \<Rightarrow> (exn + (jsstring \<times> RuntimeItem list) list) \<times> trace" where
  "sourcesLoop env localFilter shouldTranslate count [] groups seen tr = (Inr groups, tr)"
| "sourcesLoop env localFilter shouldTranslate count (src # rest) groups seen tr =
     (case sourceStep env localFilter shouldTranslate count src groups seen tr of
        (Inl e, tr1) \<Rightarrow> (Inl e, tr1)
      | (Inr (groups1, seen1), tr1) \<Rightarrow>
          sourcesLoop env localFilter shouldTranslate count rest groups1 seen1 tr1)"

text \<open>
  What \<open>formatSourceSection\<close> reads of an item: its title and its link, each in a
  template literal, which converts it to a string or throws. \<open>formatNewsMessages\<close> on
  the groups of a run is \<open>formatNewsMessages\<close> on the groups of these strings, when
  every conversion succeeds, and the first exception otherwise.
\<close>

definition sectionItem :: "(jsnumber \<Rightarrow> jsstring) \<Rightarrow> RuntimeItem \<Rightarrow> exn + NewsItem" where
  "sectionItem numText item =
     (case ToString numText (rt_title item) of
        Inl e \<Rightarrow> Inl e
      | Inr t \<Rightarrow>
          (case ToString numText (rt_link item) of
             Inl e \<Rightarrow> Inl e
           | Inr l \<Rightarrow>
               Inr \<lparr>title = t, link = l, source = rt_source item, pubDate = None,
                    extra = None\<rparr>))"

definition sectionGroup ::
  "(jsnumber \<Rightarrow> jsstring) \<Rightarrow> jsstring \<times> RuntimeItem list \<Rightarrow> exn + SourceGroup" where
  "sectionGroup numText grp =
     (case mapThrowing (sectionItem numText) (snd grp) of
        Inl e \<Rightarrow> Inl e
      | Inr newsItems \<Rightarrow> Inr \<lparr>group_name = fst grp, group_items = newsItems\<rparr>)"

definition noDataWarning :: "jsstring \<Rightarrow> jsstring" where
  "noDataWarning categoryName =
     js ''[Dispatcher] '' @ categoryName @ js '': ''
     @ [0x672a, 0x6293, 0x53d6, 0x5230, 0x4efb, 0x4f55, 0x6570, 0x636e, 0xff0c, 0x8df3,
        0x8fc7, 0x63a8, 0x9001, 0x3002]"

definition noNewsWarning :: "jsstring \<Rightarrow> jsstring" where
  "noNewsWarning categoryName =
     js ''[Dispatcher] '' @ categoryName @ js '': ''
     @ [0x672a, 0x6293, 0x53d6, 0x5230, 0x4efb, 0x4f55, 0x65b0, 0x95fb, 0xff0c, 0x8df3,
        0x8fc7, 0x63a8, 0x9001, 0x3002]"

text \<open>
  The messages of a category: the part of the loop body of \<open>dispatch\<close> between the
  lookup of the category and the sending. \<open>None\<close> is a \<open>continue\<close>: nothing to send.
  The items of GitHub Trending are built inside the fetcher from strings and numbers
  of the page and have the declared type.
\<close>

definition categoryMessages ::
  "Env \<Rightarrow> LocalFilter \<Rightarrow> AppConfig \<Rightarrow> CategoryConfig \<Rightarrow> trace
     \<Rightarrow> (exn + jsstring list option) \<times> trace" where
  "categoryMessages env localFilter config category tr =
     (let shouldTranslate = (settings_translate config \<noteq> Some False)
      in if isGithubCategory category then
           (case find isGithubSource (cat_sources category) of
              Some (GithubTrendingSource ghConfig) \<Rightarrow>
                (case fetchGithubTrending env ghConfig (cat_count category) tr of
                   (Inl e, tr1) \<Rightarrow> (Inl e, tr1)
                 | (Inr fetched, tr1) \<Rightarrow>
                     (case applyKeywordFilter (numberToString env) runtimeItem fetched
                             localFilter of
                        Inl e \<Rightarrow> (Inl e, tr1)
                      | Inr kept \<Rightarrow>
                          if length kept = 0
                          then (Inr None, tr1 @ [Warn (noDataWarning (cat_name category))])
                          else
                            (case (if shouldTranslate
                                   then translateTitles (punctOrSymbol env) (translators env)
                                          kept True tr1
                                   else (Inr kept, tr1)) of
                               (Inl e, tr2) \<Rightarrow> (Inl e, tr2)
                             | (Inr translatedItems, tr2) \<Rightarrow>
                                 (Inr (Some [formatGithubMarkdown env (clock env (length tr2))
                                               (cat_name category) translatedItems]),
                                  tr2))))
            | _ \<Rightarrow> (Inr None, tr))
         else
           (case sourcesLoop env localFilter shouldTranslate (cat_count category)
                   (cat_sources category) [] [] tr of
              (Inl e, tr1) \<Rightarrow> (Inl e, tr1)
            | (Inr groups, tr1) \<Rightarrow>
                if length groups = 0
                then (Inr None, tr1 @ [Warn (noNewsWarning (cat_name category))])
                else
                  (case mapThrowing (sectionGroup (numberToString env)) groups of
                     Inl e \<Rightarrow> (Inl e, tr1)
                   | Inr sourceGroups \<Rightarrow>
                       (Inr (Some (formatNewsMessages (clock env (length tr1))
                                     (cat_name category) sourceGroups 3 4500)),
                        tr1))))"

text \<open>
  The loop over the messages for one adapter: \<open>sendMarkdown\<close> in a \<open>try\<close> whose \<open>catch\<close>
  is empty, then one second of sleep. The event records the name of the webhook, the
  text and whether the send resolved.
\<close>

fun sendMessages :: "Env \<Rightarrow> WebhookAdapter \<Rightarrow> jsstring list \<Rightarrow> trace \<Rightarrow> trace" where
  "sendMessages env adapter [] tr = tr"
| "sendMessages env adapter (msg # msgs) tr =
     sendMessages env adapter msgs
       (tr @ [SendCall (adapterName adapter) msg (sendNet env (length tr) adapter msg = None),
              Sleep 1000])"

definition webhookNotFoundWarning :: "jsstring \<Rightarrow> jsstring" where
  "webhookNotFoundWarning webhookId =
     js ''[Dispatcher] webhook '' @ [0x22] @ webhookId @ [0x22] @ js '' ''
     @ [0x672a, 0x627e, 0x5230, 0xff0c, 0x8df3, 0x8fc7, 0x3002]"

text \<open>The loop over the webhooks of a category. \<open>webhookAdapters\<close> is a \<open>Map\<close>: \<open>get\<close>
  finds what was \<open>set\<close> and nothing else.\<close>

fun deliver ::
  "Env \<Rightarrow> (jsstring \<rightharpoonup> WebhookAdapter) \<Rightarrow> jsstring list \<Rightarrow> jsstring list \<Rightarrow> trace \<Rightarrow> trace" where
  "deliver env webhookAdapters [] msgs tr = tr"
| "deliver env webhookAdapters (webhookId # rest) msgs tr =
     (case webhookAdapters webhookId of
        None \<Rightarrow>
          deliver env webhookAdapters rest msgs (tr @ [Warn (webhookNotFoundWarning webhookId)])
      | Some adapter \<Rightarrow>
          deliver env webhookAdapters rest msgs (sendMessages env adapter msgs tr))"

definition unknownCategoryWarning :: "jsstring \<Rightarrow> jsstring" where
  "unknownCategoryWarning categoryId =
     js ''[Dispatcher] '' @ [0x672a, 0x77e5, 0x7684, 0x7c7b, 0x522b] @ js '': '' @ categoryId
     @ [0xff0c, 0x8df3, 0x8fc7, 0x3002]"

text \<open>
  \<open>config.categories[categoryId]\<close> reads a property of an object. When the object has
  no own property of that name, the read goes on to \<open>Object.prototype\<close>, whose
  properties are these twelve. Each of them is a function, and \<open>__proto__\<close> gives the
  prototype itself: a value that is truthy and has no \<open>sources\<close>.
\<close>

definition objectPrototypeProperties :: "jsstring list" where
  "objectPrototypeProperties =
     [js ''constructor'', js ''__defineGetter__'', js ''__defineSetter__'',
      js ''hasOwnProperty'', js ''__lookupGetter__'', js ''__lookupSetter__'',
      js ''isPrototypeOf'', js ''propertyIsEnumerable'', js ''toString'', js ''valueOf'',
      js ''__proto__'', js ''toLocaleString'']"

text \<open>
  The loop over the category ids. An exception leaves the loop, and \<open>dispatch\<close>. An id
  that names a property of \<open>Object.prototype\<close> and no category passes the test
  \<open>!category\<close>, and \<open>isGithubCategory\<close> throws on \<open>category.sources.some\<close>.
\<close>

fun dispatchLoop ::
  "Env \<Rightarrow> LocalFilter \<Rightarrow> AppConfig \<Rightarrow> (jsstring \<rightharpoonup> WebhookAdapter) \<Rightarrow> jsstring list \<Rightarrow> trace
     \<Rightarrow> (exn + unit) \<times> trace" where
  "dispatchLoop env localFilter config webhookAdapters [] tr = (Inr (), tr)"
| "dispatchLoop env localFilter config webhookAdapters (categoryId # rest) tr =
     (case categories config categoryId of
        None \<Rightarrow>
          if categoryId \<in> set objectPrototypeProperties
          then (Inl (cannotRead ''undefined'' ''some''), tr)
          else dispatchLoop env localFilter config webhookAdapters rest
                 (tr @ [Warn (unknownCategoryWarning categoryId)])
      | Some category \<Rightarrow>
          (case categoryMessages env localFilter config category tr of
             (Inl e, tr1) \<Rightarrow> (Inl e, tr1)
           | (Inr None, tr1) \<Rightarrow> dispatchLoop env localFilter config webhookAdapters rest tr1
           | (Inr (Some msgs), tr1) \<Rightarrow>
               dispatchLoop env localFilter config webhookAdapters rest
                 (deliver env webhookAdapters (cat_webhooks category) msgs tr1)))"

text \<open>The first loop of \<open>dispatch\<close>: one adapter for each entry of \<open>config.webhooks\<close>.\<close>

fun createAdapters ::
  "(jsstring \<times> WebhookConfig) list \<Rightarrow> (jsstring \<rightharpoonup> WebhookAdapter)
     \<Rightarrow> exn + (jsstring \<rightharpoonup> WebhookAdapter)" where
  "createAdapters [] webhookAdapters = Inr webhookAdapters"
| "createAdapters ((n, webhookConfig) # rest) webhookAdapters =
     (case createWebhookAdapter n webhookConfig of
        Inl e \<Rightarrow> Inl e
      | Inr adapter \<Rightarrow> createAdapters rest (webhookAdapters(n \<mapsto> adapter)))"

text \<open>\<open>dispatch(config, categoryIds)\<close>, started on the trace \<open>tr\<close>: it resolves
  (\<open>Inr\<close>) or rejects with an exception, and leaves a trace.\<close>

definition dispatch :: "Env \<Rightarrow> AppConfig \<Rightarrow> jsstring list \<Rightarrow> trace \<Rightarrow> (exn + unit) \<times> trace" where
  "dispatch env config categoryIds tr =
     (case loadLocalFilter env of
        Inl e \<Rightarrow> (Inl e, tr)
      | Inr localFilter \<Rightarrow>
          (case createAdapters (webhooks config) Map.empty of
             Inl e \<Rightarrow> (Inl e, tr)
           | Inr webhookAdapters \<Rightarrow>
               dispatchLoop env localFilter config webhookAdapters categoryIds tr))"

text \<open>For the statements about the hot lists: an item whose title and link are strings
  and whose description is a string or absent, as \<open>NewsItem\<close> declares.\<close>

definition isString :: "jsvalue \<Rightarrow> bool" where
  "isString v = (case v of JStr s \<Rightarrow> True | _ \<Rightarrow> False)"

definition typedItem :: "RuntimeItem \<Rightarrow> bool" where
  "typedItem item \<longleftrightarrow>
     isString (rt_title item) \<and> isString (rt_link item)
     \<and> (rt_description item = JUndefined \<or> isString (rt_description item))"

text \<open>For the statements about delivery: the sends a trace attempted, as pairs of the
  name of the webhook and the text, in order and whatever their outcome.\<close>

definition sendAttempts :: "trace \<Rightarrow> (jsstring \<times> jsstring) list" where
  "sendAttempts tr =
     concat (map (\<lambda>ev. case ev of SendCall n msg ok \<Rightarrow> [(n, msg)] | _ \<Rightarrow> []) tr)"

text \<open>For the statements about the order of the result: \<open>a\<close> is at least as new as
  \<open>b\<close>, both having a time value.\<close>

definition newerOrEqual :: "NewsItem \<Rightarrow> NewsItem \<Rightarrow> bool" where
  "newerOrEqual a b \<longleftrightarrow> (\<exists>timeA timeB. timeOf a = Some timeA \<and> timeOf b = Some timeB \<and> timeB \<le> timeA)"

text \<open>
  The invariant of the loop, for the proofs: \<open>ds\<close> are the batches of sections already
  rendered as messages, and the current sections follow them.
\<close>

definition batchInv ::
  "jsstring \<Rightarrow> jsstring \<Rightarrow> int \<Rightarrow> int \<Rightarrow> jsstring list \<Rightarrow> FormatState \<Rightarrow> jsstring list list \<Rightarrow> bool" where
  "batchInv categoryName footer M C sections st ds \<longleftrightarrow>
     messages st = map (\<lambda>k. renderMessage categoryName footer k (ds ! k)) [0..<length ds]
     \<and> batchIndex st = length ds
     \<and> concat ds @ currentSections st = sections
     \<and> currentLength st = runningTotal (currentSections st)
     \<and> [] \<notin> set ds
     \<and> (sections \<noteq> [] \<longrightarrow> currentSections st \<noteq> [])
     \<and> (\<forall>k. k + 1 < length ds \<longrightarrow> splitForced footer M C (ds ! k) (hd (ds ! (k + 1))))
     \<and> (ds \<noteq> [] \<longrightarrow> splitForced footer M C (last ds) (hd (currentSections st)))
     \<and> (\<forall>b \<in> set (ds @ [currentSections st]). \<forall>n. 0 < n \<and> n < length b \<longrightarrow>
            \<not> splitForced footer M C (take n b) (b ! n))"

section \<open>Example inputs\<close>

text \<open>Inputs for the concrete runs below: an RSS item with an ASCII title and link, a
  network on which both providers time out, and one on which the primary provider
  answers every text with the same two ideographs.\<close>

definition exampleItem :: "string \<Rightarrow> string \<Rightarrow> NewsItem" where
  "exampleItem t l =
     \<lparr>title = js t, link = js l, source = js ''feed'', pubDate = None, extra = None\<rparr>"

definition deadNet :: Net where
  "deadNet = \<lparr>primaryNet = (\<lambda>n t. PrimaryRejects (Error (js ''timeout''))),
              fallbackNet = (\<lambda>n t. FallbackRejects (Error (js ''timeout'')))\<rparr>"

definition echoNet :: Net where
  "echoNet = \<lparr>primaryNet = (\<lambda>n t. PrimaryResponse True (Some [0x4f60, 0x597d])),
              fallbackNet = (\<lambda>n t. FallbackRejects (Error (js ''timeout'')))\<rparr>"

text \<open>The parts \<open>formatToParts\<close> gives on 2 November 2026 at 10:54 in Shanghai; two
  groups with one long title each, and four groups with one short title each.\<close>

definition exampleParts :: "(jsstring \<times> jsstring) list" where
  "exampleParts =
     [(js ''year'', js ''2026''), (js ''literal'', js ''/''), (js ''month'', js ''11''),
      (js ''literal'', js ''/''), (js ''day'', js ''02''), (js ''literal'', js '' ''),
      (js ''hour'', js ''10''), (js ''literal'', js '':''), (js ''minute'', js ''54'')]"

definition longGroup :: "string \<Rightarrow> SourceGroup" where
  "longGroup n =
     \<lparr>group_name = js n,
      group_items = [\<lparr>title = replicate 2300 0x78, link = js ''u'', source = js n,
                       pubDate = None, extra = None\<rparr>]\<rparr>"

definition shortGroup :: "string \<Rightarrow> SourceGroup" where
  "shortGroup n = \<lparr>group_name = js n, group_items = [exampleItem ''Hello'' ''u'']\<rparr>"

text \<open>An RSS source, a feed item with an optional date, and a date parser that knows
  three ISO dates (their time values in milliseconds) and rejects everything else.\<close>

definition exampleSource :: RssSourceConfig where
  "exampleSource = \<lparr>rss_name = js ''Feed'', rss_url = js ''https://example.org/rss''\<rparr>"

definition feedEntry :: "string \<Rightarrow> string \<Rightarrow> string \<Rightarrow> FeedItem" where
  "feedEntry t l d =
     \<lparr>item_title = Some (js t), item_link = Some (js l),
      item_pubDate = (if d = [] then None else Some (js d))\<rparr>"

definition exampleParseDate :: "jsstring \<Rightarrow> Date" where
  "exampleParseDate s =
     (if s = js ''1969-12-31T00:00:00Z'' then ValidDate (- 86400000)
      else if s = js ''2026-11-01T00:00:00Z'' then ValidDate 1793491200000
      else if s = js ''2026-11-02T00:00:00Z'' then ValidDate 1793577600000
      else InvalidDate)"

text \<open>
  A world for a run of the dispatcher: three hot lists that answer with one item each,
  in the nesting that each fetcher reads, and a feed with one entry; the webhook named
  \<open>a\<close> answers every send with an error, every other one accepts. The text of a number
  is right on the natural numbers below ten to the power 21. A configuration
  with two webhooks and one category of four sources, which names a webhook that does
  not exist.
\<close>

definition baiduResponse :: "jsvalue list \<Rightarrow> http_response" where
  "baiduResponse entries =
     HttpResponse True 200
       (Inr (JObj [(js ''data'',
                    JObj [(js ''cards'',
                           JArr [JObj [(js ''content'',
                                        JArr [JObj [(js ''content'', JArr entries)]])]])])]))"

definition toutiaoResponse :: "jsvalue list \<Rightarrow> http_response" where
  "toutiaoResponse entries = HttpResponse True 200 (Inr (JObj [(js ''data'', JArr entries)]))"

definition bilibiliResponse :: "jsvalue list \<Rightarrow> http_response" where
  "bilibiliResponse entries =
     HttpResponse True 200 (Inr (JObj [(js ''data'', JObj [(js ''list'', JArr entries)])]))"

definition exampleEnv :: Env where
  "exampleEnv =
     \<lparr>punctOrSymbol = asciiPunctOrSymbol,
      dateParse = exampleParseDate,
      thousandsFixed = (\<lambda>n. showNat (n div 1000) @ js ''.0''),
      clock = (\<lambda>n. exampleParts),
      numberToString = (\<lambda>n. case n of
                          Finite q \<Rightarrow> showNat (nat \<lfloor>q\<rfloor>)
                        | PlusInfinity \<Rightarrow> js ''Infinity''
                        | MinusInfinity \<Rightarrow> js ''-Infinity''),
      loadLocalFilter = Inr \<lparr>blockedKeywords = []\<rparr>,
      translators = deadNet,
      feedNet = (\<lambda>n u. FeedParsed (Some [feedEntry ''D4'' ''d'' ''''])),
      githubNet = (\<lambda>n c k. []),
      baiduNet = (\<lambda>n. baiduResponse
                        [JObj [(js ''word'', JStr (js ''A1'')), (js ''url'', JStr (js ''a''))]]),
      toutiaoNet = (\<lambda>n. toutiaoResponse
                          [JObj [(js ''Title'', JStr (js ''B2'')), (js ''Url'', JStr (js ''b''))]]),
      bilibiliNet = (\<lambda>n. bilibiliResponse
                           [JObj [(js ''keyword'', JStr (js ''C3'')),
                                  (js ''show_name'', JStr (js ''C3''))]]),
      sendNet = (\<lambda>n adapter msg.
                   if adapterName adapter = js ''a'' then Some (Error (js ''HTTP 500''))
                   else None)\<rparr>"

definition exampleCategory :: CategoryConfig where
  "exampleCategory =
     \<lparr>cat_name = js ''News'', cat_count = 5,
      cat_webhooks = [js ''a'', js ''ghost'', js ''b''],
      cat_sources = [BaiduHotSource None, ToutiaoHotSource None, BilibiliHotSource None,
                     RssSource exampleSource]\<rparr>"

definition exampleConfig :: AppConfig where
  "exampleConfig =
     \<lparr>webhooks = [(js ''a'', \<lparr>wh_type = js ''wps-teams'', wh_url = js ''https://a''\<rparr>),
                  (js ''b'', \<lparr>wh_type = js ''wecom'', wh_url = js ''https://b''\<rparr>)],
      categories = [js ''news'' \<mapsto> exampleCategory],
      settings_translate = Some False\<rparr>"

text \<open>The two messages of the category in that world: three sections, then one.\<close>

definition exampleMessages :: "jsstring list" where
  "exampleMessages =
     formatNewsMessages exampleParts (js ''News'')
       [\<lparr>group_name = [0x767e, 0x5ea6, 0x70ed, 0x641c],
         group_items = [\<lparr>title = js ''A1'', link = js ''a'',
                          source = [0x767e, 0x5ea6, 0x70ed, 0x641c],
                          pubDate = None, extra = None\<rparr>]\<rparr>,
        \<lparr>group_name = [0x4eca, 0x65e5, 0x5934, 0x6761],
         group_items = [\<lparr>title = js ''B2'', link = js ''b'',
                          source = [0x4eca, 0x65e5, 0x5934, 0x6761],
                          pubDate = None, extra = None\<rparr>]\<rparr>,
        \<lparr>group_name = js ''B'' @ [0x7ad9, 0x70ed, 0x641c],
         group_items = [\<lparr>title = js ''C3'',
                          link = js ''https://search.bilibili.com/all?keyword=C3'',
                          source = js ''B'' @ [0x7ad9, 0x70ed, 0x641c],
                          pubDate = None, extra = None\<rparr>]\<rparr>,
        \<lparr>group_name = js ''Feed'',
         group_items = [\<lparr>title = js ''D4'', link = js ''d'', source = js ''Feed'',
                          pubDate = None, extra = None\<rparr>]\<rparr>]
       3 4500"

chapter \<open>Properties\<close>

section \<open>Jaccard similarity\<close>

lemma fcard_ffilter_self: "fcard (ffilter (\<lambda>t. t |\<in>| a) a) = fcard a"
proof -
  have "ffilter (\<lambda>t. t |\<in>| a) a = a" by auto
  then show ?thesis by simp
qed

lemma ffilter_disjoint:
  assumes "a |\<inter>| b = {||}"
  shows "ffilter (\<lambda>t. t |\<in>| b) a = {||}"
  using assms by auto

lemma intersection_count: "fcard (ffilter (\<lambda>t. t |\<in>| b) a) = fcard (a |\<inter>| b)"
proof -
  have "ffilter (\<lambda>t. t |\<in>| b) a = a |\<inter>| b" by auto
  then show ?thesis by simp
qed

lemma union_count:
  "rat_of_nat (fcard a) + rat_of_nat (fcard b) - rat_of_nat (fcard (a |\<inter>| b))
     = rat_of_nat (fcard (a |\<union>| b))"
proof -
  have "fcard (a |\<union>| b) + fcard (a |\<inter>| b) = fcard a + fcard b"
    by (rule fcard_funion_finter [symmetric])
  then have "rat_of_nat (fcard (a |\<union>| b)) + rat_of_nat (fcard (a |\<inter>| b))
      = rat_of_nat (fcard a) + rat_of_nat (fcard b)"
    by (metis of_nat_add)
  then show ?thesis by simp
qed

text \<open>
  C6. \<open>jaccard\<close> is the size of the intersection divided by the size of the union
  whenever both sets are non-empty; it is 1 on two identical non-empty sets, 0 on two
  disjoint non-empty sets, and 0 whenever one of the two sets (or both) is empty.
\<close>

theorem jaccard_properties:
  "(a \<noteq> {||} \<and> b \<noteq> {||} \<longrightarrow>
      jaccard a b = rat_of_nat (fcard (a |\<inter>| b)) / rat_of_nat (fcard (a |\<union>| b)))
   \<and> (s \<noteq> {||} \<longrightarrow> jaccard s s = 1)
   \<and> (a \<noteq> {||} \<and> b \<noteq> {||} \<and> a |\<inter>| b = {||} \<longrightarrow> jaccard a b = 0)
   \<and> jaccard s {||} = 0 \<and> jaccard {||} s = 0 \<and> jaccard {||} {||} = 0"
proof -
  have general: "jaccard a b = rat_of_nat (fcard (a |\<inter>| b)) / rat_of_nat (fcard (a |\<union>| b))"
    if "a \<noteq> {||}" "b \<noteq> {||}" for a b
  proof -
    from that have "fcard a \<noteq> 0" "fcard b \<noteq> 0" by simp_all
    then show ?thesis
      by (simp add: jaccard_def Let_def intersection_count union_count)
  qed
  have same: "jaccard s s = 1" if "s \<noteq> {||}"
  proof -
    from that have "fcard s \<noteq> 0" by simp
    then show ?thesis
      by (simp add: jaccard_def Let_def fcard_ffilter_self)
  qed
  have disjoint: "jaccard a b = 0" if "a |\<inter>| b = {||}"
    by (simp add: jaccard_def Let_def ffilter_disjoint [OF that])
  have empty: "jaccard s {||} = 0" "jaccard {||} s = 0" "jaccard {||} {||} = 0"
    by (simp_all add: jaccard_def)
  from general same disjoint empty show ?thesis by blast
qed

theorem jaccard_properties_witness:
  "jaccard {|js ''abc'', js ''def''|} {|js ''abc'', js ''xyz''|} = 1 / 3
   \<and> jaccard {|js ''abc''|} {|js ''abc''|} = 1
   \<and> jaccard {|js ''abc''|} {|js ''xyz''|} = 0
   \<and> jaccard {|js ''abc''|} {||} = 0"
proof -
  have ne: "{|js ''abc'', js ''def''|} \<noteq> {||}" "{|js ''abc'', js ''xyz''|} \<noteq> {||}"
    "{|js ''abc''|} \<noteq> {||}" "{|js ''xyz''|} \<noteq> {||}"
    by simp_all
  have dis: "{|js ''abc''|} |\<inter>| {|js ''xyz''|} = {||}"
    by code_simp
  have i: "fcard ({|js ''abc'', js ''def''|} |\<inter>| {|js ''abc'', js ''xyz''|}) = 1"
    by code_simp
  have u: "fcard ({|js ''abc'', js ''def''|} |\<union>| {|js ''abc'', js ''xyz''|}) = 3"
    by code_simp
  note p = jaccard_properties
    [of "{|js ''abc'', js ''def''|}" "{|js ''abc'', js ''xyz''|}" "{|js ''abc''|}"]
  note q = jaccard_properties [of "{|js ''abc''|}" "{|js ''xyz''|}" "{|js ''abc''|}"]
  from p ne have "jaccard {|js ''abc'', js ''def''|} {|js ''abc'', js ''xyz''|}
      = rat_of_nat (fcard ({|js ''abc'', js ''def''|} |\<inter>| {|js ''abc'', js ''xyz''|}))
        / rat_of_nat (fcard ({|js ''abc'', js ''def''|} |\<union>| {|js ''abc'', js ''xyz''|}))"
    by blast
  then have "jaccard {|js ''abc'', js ''def''|} {|js ''abc'', js ''xyz''|} = 1 / 3"
    unfolding i u by simp
  moreover from p ne have "jaccard {|js ''abc''|} {|js ''abc''|} = 1" by blast
  moreover from q ne dis have "jaccard {|js ''abc''|} {|js ''xyz''|} = 0" by blast
  moreover from p have "jaccard {|js ''abc''|} {||} = 0" by blast
  ultimately show ?thesis by blast
qed

section \<open>The deduplicator keeps the first item seen\<close>

lemma filter_loop_snoc:
  "filter_loop th seen res (pre @ [x]) =
     (let r = filter_loop th seen res pre in
      if isDuplicate th (snd r) x then r
      else (fst r @ [x], snd r @ [entryOf x]))"
proof (induction pre arbitrary: seen res)
  case Nil
  show ?case
    by (auto simp: isDuplicate_def entryOf_def Let_def list_ex_iff)
next
  case (Cons p pre)
  show ?case
    by (simp add: Cons.IH Let_def)
qed

lemma filter_loop_state:
  "filter_loop th seen res items = (r, s) \<Longrightarrow>
     \<exists>acc. r = res @ acc \<and> s = seen @ map entryOf acc \<and> subseq acc items"
proof (induction items arbitrary: seen res r s)
  case Nil
  then show ?case by simp
next
  case (Cons x xs)
  show ?case
  proof (cases "list_ex (\<lambda>s. seen_link s = link x) seen
      \<or> list_ex (\<lambda>s. jaccard (chars s) (extractTokens (title x)) \<ge> th) seen")
    case True
    with Cons.prems have "filter_loop th seen res xs = (r, s)"
      by (auto simp: Let_def split: if_splits)
    from Cons.IH [OF this] obtain acc where
      "r = res @ acc" "s = seen @ map entryOf acc" "subseq acc xs" by blast
    then show ?thesis by (auto intro: exI [of _ acc])
  next
    case False
    with Cons.prems have "filter_loop th (seen @ [entryOf x]) (res @ [x]) xs = (r, s)"
      by (auto simp: Let_def entryOf_def split: if_splits)
    from Cons.IH [OF this] obtain acc where
      "r = (res @ [x]) @ acc" "s = (seen @ [entryOf x]) @ map entryOf acc" "subseq acc xs"
      by blast
    then show ?thesis by (auto intro: exI [of _ "x # acc"])
  qed
qed

text \<open>
  C1. With threshold 0.5, the item \<open>x\<close> that arrives after the items \<open>pre\<close> is dropped
  if and only if some entry of the state reached after \<open>pre\<close> has its link or has a
  token set of Jaccard similarity at least 0.5 with the tokens of its title; otherwise
  it is appended to the result and its record to the state. The state after any run
  is the state before it followed by the records of the accepted items, in the order
  of the result, which is the order of arrival: the entries an item is compared with
  are exactly the items accepted before it.
\<close>

theorem dedup_filter_first_seen_wins:
  "dedup_filter seen (pre @ [x]) (1 / 2) =
     (let r = dedup_filter seen pre (1 / 2) in
      if (\<exists>s \<in> set (snd r). seen_link s = link x
            \<or> jaccard (chars s) (extractTokens (title x)) \<ge> 1 / 2)
      then r
      else (fst r @ [x],
            snd r @ [\<lparr>chars = extractTokens (title x), seen_link = link x\<rparr>]))
   \<and> snd (dedup_filter seen items (1 / 2)) =
       seen @ map (\<lambda>i. \<lparr>chars = extractTokens (title i), seen_link = link i\<rparr>)
                (fst (dedup_filter seen items (1 / 2)))
   \<and> subseq (fst (dedup_filter seen items (1 / 2))) items"
proof -
  have a: "dedup_filter seen (pre @ [x]) (1 / 2) =
     (let r = dedup_filter seen pre (1 / 2) in
      if isDuplicate (1 / 2) (snd r) x then r
      else (fst r @ [x], snd r @ [entryOf x]))"
    unfolding dedup_filter_def by (rule filter_loop_snoc)
  obtain r s where rs: "filter_loop (1 / 2) seen [] items = (r, s)"
    by (cases "filter_loop (1 / 2) seen [] items")
  from filter_loop_state [OF rs] have "s = seen @ map entryOf r" "subseq r items"
    by auto
  with rs have b: "snd (dedup_filter seen items (1 / 2)) =
       seen @ map entryOf (fst (dedup_filter seen items (1 / 2)))"
    and c: "subseq (fst (dedup_filter seen items (1 / 2))) items"
    by (simp_all add: dedup_filter_def)
  have e: "entryOf = (\<lambda>i. \<lparr>chars = extractTokens (title i), seen_link = link i\<rparr>)"
    by (rule ext) (simp add: entryOf_def)
  from a b c show ?thesis
    unfolding isDuplicate_def e by simp
qed

lemma ffilter_finsert:
  "ffilter P (finsert x A) = (if P x then finsert x (ffilter P A) else ffilter P A)"
  by auto

lemma ffilter_fempty: "ffilter P {||} = {||}"
  by auto

lemma fcard_fempty: "fcard {||} = 0"
  by (simp add: fcard.rep_eq)

text \<open>
  A run on four items: the second is a near duplicate of the first (four of five tokens
  in common), the third repeats the link of the first, the fourth is new.
\<close>

lemma dedup_filter_example:
  "dedup_filter []
     [exampleItem ''OpenAI releases GPT model'' ''a'',
      exampleItem ''OpenAI releases new GPT model'' ''b'',
      exampleItem ''Rain in UK'' ''a'',
      exampleItem ''Rain in UK'' ''c''] (1 / 2)
   = ([exampleItem ''OpenAI releases GPT model'' ''a'', exampleItem ''Rain in UK'' ''c''],
      [entryOf (exampleItem ''OpenAI releases GPT model'' ''a''),
       entryOf (exampleItem ''Rain in UK'' ''c'')])"
  by (simp add: dedup_filter_def entryOf_def exampleItem_def extractTokens_def matchCjk_def
      dedup_cjk_def toLowerCase_def lowerUnit_def lower_az_def js_def jaccard_def
      fcard_finsert_if Let_def ffilter_finsert ffilter_fempty fcard_fempty)

section \<open>The needs-translation heuristic\<close>

lemma length_stripMeaningless: "length (stripMeaningless ps t) \<le> length t"
  by (induction ps t rule: stripMeaningless.induct) auto

lemma needsTranslation_int:
  "needsTranslation ps text \<longleftrightarrow>
     length (stripMeaningless ps text) \<noteq> 0
     \<and> 10 * length (filter translator_cjk text) < 3 * length (stripMeaningless ps text)"
proof (cases "length (stripMeaningless ps text) = 0")
  case True
  then show ?thesis by (simp add: needsTranslation_def)
next
  case False
  then have pos: "(0::rat) < rat_of_nat (length (stripMeaningless ps text))" by simp
  have "rat_of_nat (length (filter translator_cjk text)) / rat_of_nat (length (stripMeaningless ps text)) < 3 / 10
    \<longleftrightarrow> rat_of_nat (length (filter translator_cjk text)) * 10 < 3 * rat_of_nat (length (stripMeaningless ps text))"
    using pos by (simp add: field_simps)
  also have "\<dots> \<longleftrightarrow> rat_of_nat (10 * length (filter translator_cjk text)) < rat_of_nat (3 * length (stripMeaningless ps text))"
    by (simp add: mult.commute)
  also have "\<dots> \<longleftrightarrow> 10 * length (filter translator_cjk text) < 3 * length (stripMeaningless ps text)"
    by (rule of_nat_less_iff)
  finally show ?thesis using False by (simp add: needsTranslation_def Let_def)
qed


lemma stripMeaningless_head:
  "\<not> stripped ps c \<Longrightarrow> \<not> high_surrogate c \<Longrightarrow> stripMeaningless ps (c # cs) \<noteq> []"
  by (cases cs) simp_all

lemma js_Cons: "js (x # xs) = of_char x # js xs"
  by (simp add: js_def)

lemma needsTranslation_english: "(\<forall>c. (0x41 \<le> c \<and> c \<le> 0x5a) \<or> (0x61 \<le> c \<and> c \<le> 0x7a) \<longrightarrow> \<not> ps c) \<Longrightarrow> needsTranslation ps (js ''OpenAI releases GPT-5 model update'')"
proof -
  assume h: "\<forall>c. (0x41 \<le> c \<and> c \<le> 0x5a) \<or> (0x61 \<le> c \<and> c \<le> 0x7a) \<longrightarrow> \<not> ps c"
  have c: "filter translator_cjk (js ''OpenAI releases GPT-5 model update'') = []"
    by (simp add: js_def translator_cjk_def)
  from h have "\<not> ps 0x4f" by simp
  then have "\<not> stripped ps 0x4f" by (simp add: stripped_def js_space_def js_digit_def)
  moreover have "\<not> high_surrogate 0x4f" by (simp add: high_surrogate_def)
  ultimately have "stripMeaningless ps (0x4f # js ''penAI releases GPT-5 model update'') \<noteq> []"
    by (rule stripMeaningless_head)
  moreover have "js ''OpenAI releases GPT-5 model update'' = 0x4f # js ''penAI releases GPT-5 model update''"
    by (simp add: js_Cons)
  ultimately have "stripMeaningless ps (js ''OpenAI releases GPT-5 model update'') \<noteq> []"
    by simp
  then show ?thesis unfolding needsTranslation_int c by simp
qed

lemma needsTranslation_chinese: "\<not> needsTranslation ps [0x4e2d, 0x56fd, 0x4eba, 0x5de5, 0x667a, 0x80fd, 0x4ea7, 0x4e1a, 0x89c4, 0x6a21, 0x7834, 0x4e07, 0x4ebf]"
proof -
  define t :: jsstring where "t = [0x4e2d, 0x56fd, 0x4eba, 0x5de5, 0x667a, 0x80fd, 0x4ea7, 0x4e1a, 0x89c4, 0x6a21, 0x7834, 0x4e07, 0x4ebf]"
  have c: "length (filter translator_cjk t) = 13"
    by (simp add: t_def translator_cjk_def)
  have "length (stripMeaningless ps t) \<le> length t" by (rule length_stripMeaningless)
  also have "length t = 13" by (simp add: t_def)
  finally have "\<not> 10 * 13 < 3 * length (stripMeaningless ps t)" by linarith
  then have "\<not> needsTranslation ps t" unfolding needsTranslation_int c by blast
  then show ?thesis unfolding t_def .
qed

lemma needsTranslation_no_meaningful: "ps 0x21 \<Longrightarrow> ps 0x2e \<Longrightarrow> \<not> needsTranslation ps (js ''123 !!! ...'')"
proof -
  assume "ps 0x21" "ps 0x2e"
  then have "stripMeaningless ps (js ''123 !!! ...'') = []"
    by (simp add: js_def high_surrogate_def stripped_def js_space_def js_digit_def)
  then show ?thesis by (simp add: needsTranslation_int)
qed

text \<open>
  C5. \<open>needsTranslation\<close> is false when nothing is left of the text once white space,
  digits, punctuation and symbols are removed; otherwise it is true exactly when the
  number of CJK code units divided by the length of what is left is below 0.3
  (lengths are string lengths, in UTF-16 code units, as \<open>.length\<close> counts them). The
  three examples: an English headline needs translation whenever the engine's tables
  class no Latin letter as punctuation or symbol; a headline of thirteen ideographs
  needs none, whatever the tables; a text of digits, spaces, exclamation marks and
  full stops needs none when the tables class the two marks as punctuation.
\<close>

theorem needsTranslation_heuristic:
  "(stripMeaningless ps text = [] \<longrightarrow> \<not> needsTranslation ps text)
   \<and> (stripMeaningless ps text \<noteq> [] \<longrightarrow>
        (needsTranslation ps text \<longleftrightarrow>
           rat_of_nat (length (filter translator_cjk text))
             / rat_of_nat (length (stripMeaningless ps text)) < 3 / 10))
   \<and> ((\<forall>c. (0x41 \<le> c \<and> c \<le> 0x5a) \<or> (0x61 \<le> c \<and> c \<le> 0x7a) \<longrightarrow> \<not> ps c) \<longrightarrow>
        needsTranslation ps (js ''OpenAI releases GPT-5 model update''))
   \<and> \<not> needsTranslation ps [0x4e2d, 0x56fd, 0x4eba, 0x5de5, 0x667a, 0x80fd, 0x4ea7,
                              0x4e1a, 0x89c4, 0x6a21, 0x7834, 0x4e07, 0x4ebf]
   \<and> (ps 0x21 \<and> ps 0x2e \<longrightarrow> \<not> needsTranslation ps (js ''123 !!! ...''))"
proof -
  have a: "\<not> needsTranslation ps text" if "stripMeaningless ps text = []"
    using that by (simp add: needsTranslation_def)
  have b: "needsTranslation ps text \<longleftrightarrow>
           rat_of_nat (length (filter translator_cjk text))
             / rat_of_nat (length (stripMeaningless ps text)) < 3 / 10"
    if "stripMeaningless ps text \<noteq> []"
    using that by (simp add: needsTranslation_def Let_def)
  from a b needsTranslation_english [of ps] needsTranslation_chinese [of ps]
    needsTranslation_no_meaningful [of ps]
  show ?thesis by blast
qed

theorem needsTranslation_heuristic_witness:
  "needsTranslation asciiPunctOrSymbol (js ''OpenAI releases GPT-5 model update'')
   \<and> \<not> needsTranslation asciiPunctOrSymbol (js ''123 !!! ...'')
   \<and> \<not> needsTranslation asciiPunctOrSymbol (js ''2024!'')
   \<and> needsTranslation asciiPunctOrSymbol (js ''AI 2024'')"
proof -
  have letters: "\<forall>c. (0x41 \<le> c \<and> c \<le> 0x5a) \<or> (0x61 \<le> c \<and> c \<le> 0x7a)
      \<longrightarrow> \<not> asciiPunctOrSymbol c"
    by (auto simp: asciiPunctOrSymbol_def)
  have marks: "asciiPunctOrSymbol 0x21 \<and> asciiPunctOrSymbol 0x2e"
    by (simp add: asciiPunctOrSymbol_def)
  have empty: "stripMeaningless asciiPunctOrSymbol (js ''2024!'') = []"
    by (simp add: js_def high_surrogate_def stripped_def js_space_def js_digit_def
        asciiPunctOrSymbol_def)
  have left: "stripMeaningless asciiPunctOrSymbol (js ''AI 2024'') = js ''AI''"
    by (simp add: js_def high_surrogate_def stripped_def js_space_def js_digit_def
        asciiPunctOrSymbol_def)
  have none: "filter translator_cjk (js ''AI 2024'') = []"
    by (simp add: js_def translator_cjk_def)
  have ne: "js ''AI'' \<noteq> []" "length (js ''AI'') = 2"
    by (simp_all add: js_def)
  from needsTranslation_heuristic [of asciiPunctOrSymbol "js ''2024!''"] letters marks empty
  have "needsTranslation asciiPunctOrSymbol (js ''OpenAI releases GPT-5 model update'')"
    and "\<not> needsTranslation asciiPunctOrSymbol (js ''123 !!! ...'')"
    and "\<not> needsTranslation asciiPunctOrSymbol (js ''2024!'')"
    by blast+
  moreover from needsTranslation_heuristic [of asciiPunctOrSymbol "js ''AI 2024''"]
  have "needsTranslation asciiPunctOrSymbol (js ''AI 2024'')"
    unfolding left none using ne by simp
  ultimately show ?thesis by blast
qed

section \<open>The two CJK character classes\<close>

text \<open>
  C7, as the code has it. The class of \<open>needsTranslation\<close> is the class of the
  tokenizer together with two more ranges, U+3400 to U+4DBF and U+F900 to U+FAFF:
  every code unit the tokenizer collects as an ideograph counts as CJK for the
  translator, and the translator counts the code units of the two other ranges too.
\<close>

theorem cjk_classes:
  "translator_cjk c \<longleftrightarrow>
     dedup_cjk c \<or> (0x3400 \<le> c \<and> c \<le> 0x4dbf) \<or> (0xf900 \<le> c \<and> c \<le> 0xfaff)"
  by (simp add: translator_cjk_def dedup_cjk_def)

text \<open>The two classes differ at U+3400: CJK for the translator, no token for the
  deduplicator.\<close>

theorem cjk_ranges_differ:
  "\<not> (\<forall>c. translator_cjk c \<longleftrightarrow> dedup_cjk c)
   \<and> translator_cjk 0x3400 \<and> \<not> dedup_cjk 0x3400
   \<and> needsTranslation asciiPunctOrSymbol [0x3400] = False
   \<and> extractTokens [0x3400] = {||}"
proof -
  have a: "translator_cjk 0x3400" "\<not> dedup_cjk 0x3400"
    by (simp_all add: translator_cjk_def dedup_cjk_def)
  then have "\<not> (\<forall>c. translator_cjk c \<longleftrightarrow> dedup_cjk c)" by blast
  moreover have "needsTranslation asciiPunctOrSymbol [0x3400] = False"
    by (simp add: needsTranslation_def translator_cjk_def stripped_def js_space_def
        js_digit_def asciiPunctOrSymbol_def)
  moreover have "extractTokens [0x3400] = {||}"
    by (simp add: extractTokens_def matchCjk_def dedup_cjk_def toLowerCase_def lowerUnit_def
        lower_az_def)
  ultimately show ?thesis using a by blast
qed

section \<open>The translator: contract and circuit breaker\<close>

lemma translateText_Inr: "\<exists>r tr'. translateText net text tr = (Inr r, tr')"
  unfolding translateText_def
  by (auto split: prod.splits sum.splits option.splits)

lemma tryTitle_cases:
  assumes "tryTitle ps net item st tr = (r, st1, tr1)"
  shows "(r = Inr Continue \<and> (\<exists>t. st1 = st\<lparr>results := results st @
               [item\<lparr>title := withTranslation (title item) t\<rparr>],
             translatedCount := translatedCount st + 1, consecutiveFailures := 0\<rparr>))
       \<or> (r = Inr FallThrough \<and> st1 = st\<lparr>results := results st @ [item]\<rparr>)
       \<or> (r = Inr FallThrough \<and> st1 = st\<lparr>consecutiveFailures := consecutiveFailures st + 1,
             results := results st @ [item]\<rparr>)"
proof (cases "needsTranslation ps (title item)")
  case False
  with assms show ?thesis by (simp add: tryTitle_def)
next
  case True
  let ?tr1 = "if translatedCount st > 0 then tr @ [Sleep THROTTLE_MS] else tr"
  from translateText_Inr obtain x tr2 where tt: "translateText net (title item) ?tr1 = (Inr x, tr2)"
    by blast
  with True assms show ?thesis
    by (cases x) (auto simp: tryTitle_def Let_def split: if_splits)
qed

lemma tryGithub_cases:
  assumes "tryGithub ps net item st tr = (r, st1, tr1)"
  shows "(r = Inr Continue \<and> (\<exists>t e desc. extra item = Some e \<and> description e = Some desc \<and>
             st1 = st\<lparr>results := results st @
               [item\<lparr>extra := Some (e\<lparr>description := Some (withTranslation desc t)\<rparr>)\<rparr>],
             translatedCount := translatedCount st + 1, consecutiveFailures := 0\<rparr>))
       \<or> (r = Inr FallThrough \<and> st1 = st\<lparr>results := results st @ [item]\<rparr>)
       \<or> (r = Inr FallThrough \<and> st1 = st\<lparr>consecutiveFailures := consecutiveFailures st + 1,
             results := results st @ [item]\<rparr>)"
proof (cases "extra item")
  case None
  with assms show ?thesis by (simp add: tryGithub_def)
next
  case (Some e)
  note e = this
  show ?thesis
  proof (cases "description e")
    case None
    with e assms show ?thesis by (simp add: tryGithub_def)
  next
    case (Some desc)
    note d = this
    show ?thesis
    proof (cases "desc \<noteq> [] \<and> needsTranslation ps desc")
      case False
      with e d assms show ?thesis by (auto simp: tryGithub_def)
    next
      case True
      let ?tr1 = "if translatedCount st > 0 then tr @ [Sleep THROTTLE_MS] else tr"
      from translateText_Inr obtain x tr2 where tt: "translateText net desc ?tr1 = (Inr x, tr2)"
        by blast
      with True e d assms show ?thesis
        by (cases x) (auto simp: tryGithub_def Let_def split: if_splits)
    qed
  qed
qed

lemma try_cases:
  assumes "(if g then tryGithub ps net item st tr else tryTitle ps net item st tr) = (r, st1, tr1)"
  shows "(r = Inr Continue \<and> consecutiveFailures st1 = 0 \<and> aborted st1 = aborted st \<and>
           (\<exists>y. results st1 = results st @ [y] \<and>
              (if g then \<exists>e desc t. extra item = Some e \<and> description e = Some desc \<and>
                     y = item\<lparr>extra := Some (e\<lparr>description := Some (withTranslation desc t)\<rparr>)\<rparr>
               else \<exists>t. y = item\<lparr>title := withTranslation (title item) t\<rparr>)))
       \<or> (r = Inr FallThrough \<and> results st1 = results st @ [item] \<and> aborted st1 = aborted st)"
proof (cases g)
  case True
  with assms have "tryGithub ps net item st tr = (r, st1, tr1)" by simp
  from tryGithub_cases [OF this] True show ?thesis by auto
next
  case False
  with assms have "tryTitle ps net item st tr = (r, st1, tr1)" by simp
  from tryTitle_cases [OF this] False show ?thesis by auto
qed

lemma translateStep_aborted:
  "aborted st \<Longrightarrow> translateStep ps net g item (st, tr) = (st\<lparr>results := results st @ [item]\<rparr>, tr)"
  by (simp add: translateStep_def)

lemma translateStep_cases:
  assumes "translateStep ps net g item (st, tr) = (st', tr')"
  shows "\<exists>y. results st' = results st @ [y] \<and>
           (y = item \<or> (consecutiveFailures st' = 0 \<and> \<not> aborted st' \<and>
              (if g then \<exists>e desc t. extra item = Some e \<and> description e = Some desc \<and>
                     y = item\<lparr>extra := Some (e\<lparr>description := Some (withTranslation desc t)\<rparr>)\<rparr>
               else \<exists>t. y = item\<lparr>title := withTranslation (title item) t\<rparr>)))"
proof (cases "aborted st")
  case True
  with assms show ?thesis by (auto simp: translateStep_aborted)
next
  case False
  obtain r st1 tr1 where t:
    "(if g then tryGithub ps net item st tr else tryTitle ps net item st tr) = (r, st1, tr1)"
    by (metis prod_cases3)
  from try_cases [OF t] show ?thesis
  proof
    assume c: "r = Inr Continue \<and> consecutiveFailures st1 = 0 \<and> aborted st1 = aborted st \<and>
           (\<exists>y. results st1 = results st @ [y] \<and>
              (if g then \<exists>e desc t. extra item = Some e \<and> description e = Some desc \<and>
                     y = item\<lparr>extra := Some (e\<lparr>description := Some (withTranslation desc t)\<rparr>)\<rparr>
               else \<exists>t. y = item\<lparr>title := withTranslation (title item) t\<rparr>))"
    with False t assms have "st' = st1" by (simp add: translateStep_def)
    with c False show ?thesis by auto
  next
    assume f: "r = Inr FallThrough \<and> results st1 = results st @ [item] \<and> aborted st1 = aborted st"
    with False t assms have "st' = st1 \<or> st' = st1\<lparr>aborted := True\<rparr>"
      by (auto simp: translateStep_def Let_def split: if_splits)
    with f show ?thesis by auto
  qed
qed

lemma translateStep_invariant:
  assumes "translateStep ps net g item (st, tr) = (st', tr')"
    and "aborted st \<longleftrightarrow> MAX_CONSECUTIVE_FAILURES \<le> consecutiveFailures st"
  shows "aborted st' \<longleftrightarrow> MAX_CONSECUTIVE_FAILURES \<le> consecutiveFailures st'"
proof (cases "aborted st")
  case True
  with assms show ?thesis by (auto simp: translateStep_aborted)
next
  case False
  obtain r st1 tr1 where t:
    "(if g then tryGithub ps net item st tr else tryTitle ps net item st tr) = (r, st1, tr1)"
    by (metis prod_cases3)
  from try_cases [OF t] show ?thesis
  proof
    assume c: "r = Inr Continue \<and> consecutiveFailures st1 = 0 \<and> aborted st1 = aborted st \<and>
           (\<exists>y. results st1 = results st @ [y] \<and>
              (if g then \<exists>e desc t. extra item = Some e \<and> description e = Some desc \<and>
                     y = item\<lparr>extra := Some (e\<lparr>description := Some (withTranslation desc t)\<rparr>)\<rparr>
               else \<exists>t. y = item\<lparr>title := withTranslation (title item) t\<rparr>))"
    with False t assms have "st' = st1" by (simp add: translateStep_def)
    with c False show ?thesis by (simp add: MAX_CONSECUTIVE_FAILURES_def)
  next
    assume f: "r = Inr FallThrough \<and> results st1 = results st @ [item] \<and> aborted st1 = aborted st"
    with False t assms show ?thesis
      by (auto simp: translateStep_def Let_def split: if_splits)
  qed
qed

lemma translateLoop_append:
  "translateLoop ps net g (xs @ ys) s = translateLoop ps net g ys (translateLoop ps net g xs s)"
  by (induction xs arbitrary: s) simp_all

lemma translateLoop_aborted:
  "aborted st \<Longrightarrow>
     translateLoop ps net g xs (st, tr) = (st\<lparr>results := results st @ xs\<rparr>, tr)"
proof (induction xs arbitrary: st)
  case Nil
  then show ?case by simp
next
  case (Cons x xs)
  from Cons.prems have "aborted (st\<lparr>results := results st @ [x]\<rparr>)" by simp
  from Cons.IH [OF this] Cons.prems show ?case
    by (simp add: translateStep_aborted)
qed

lemma translateLoop_invariant:
  assumes "translateLoop ps net g xs (st, tr) = (st', tr')"
    and "aborted st \<longleftrightarrow> MAX_CONSECUTIVE_FAILURES \<le> consecutiveFailures st"
  shows "aborted st' \<longleftrightarrow> MAX_CONSECUTIVE_FAILURES \<le> consecutiveFailures st'"
  using assms
proof (induction xs arbitrary: st tr)
  case Nil
  then show ?case by simp
next
  case (Cons x xs)
  obtain st1 tr1 where s: "translateStep ps net g x (st, tr) = (st1, tr1)"
    by (cases "translateStep ps net g x (st, tr)")
  from translateStep_invariant [OF s Cons.prems(2)]
  have "aborted st1 \<longleftrightarrow> MAX_CONSECUTIVE_FAILURES \<le> consecutiveFailures st1" .
  moreover from Cons.prems(1) s have "translateLoop ps net g xs (st1, tr1) = (st', tr')" by simp
  ultimately show ?case by (rule Cons.IH [rotated])
qed

lemma initial_invariant:
  "aborted initialState \<longleftrightarrow> MAX_CONSECUTIVE_FAILURES \<le> consecutiveFailures initialState"
  by (simp add: initialState_def MAX_CONSECUTIVE_FAILURES_def)


lemma translateLoop_results:
  assumes "translateLoop ps net g xs (st, tr) = (st', tr')"
  shows "\<exists>out. results st' = results st @ out \<and>
           list_all2 (\<lambda>x y. link y = link x \<and> (y = x \<or>
              (if g then \<exists>e desc t. extra x = Some e \<and> description e = Some desc \<and>
                     y = x\<lparr>extra := Some (e\<lparr>description := Some (withTranslation desc t)\<rparr>)\<rparr>
               else \<exists>t. y = x\<lparr>title := withTranslation (title x) t\<rparr>))) xs out"
  using assms
proof (induction xs arbitrary: st tr)
  case Nil
  then show ?case by simp
next
  case (Cons x xs)
  obtain st1 tr1 where s: "translateStep ps net g x (st, tr) = (st1, tr1)"
    by (cases "translateStep ps net g x (st, tr)")
  from translateStep_cases [OF s] obtain y where y: "results st1 = results st @ [y]"
    "y = x \<or> (if g then \<exists>e desc t. extra x = Some e \<and> description e = Some desc \<and>
                     y = x\<lparr>extra := Some (e\<lparr>description := Some (withTranslation desc t)\<rparr>)\<rparr>
               else \<exists>t. y = x\<lparr>title := withTranslation (title x) t\<rparr>)"
    by blast
  from y(2) have l: "link y = link x" by (auto split: if_splits)
  from Cons.prems s have "translateLoop ps net g xs (st1, tr1) = (st', tr')" by simp
  from Cons.IH [OF this] obtain out where out: "results st' = results st1 @ out"
    "list_all2 (\<lambda>x y. link y = link x \<and> (y = x \<or>
              (if g then \<exists>e desc t. extra x = Some e \<and> description e = Some desc \<and>
                     y = x\<lparr>extra := Some (e\<lparr>description := Some (withTranslation desc t)\<rparr>)\<rparr>
               else \<exists>t. y = x\<lparr>title := withTranslation (title x) t\<rparr>))) xs out"
    by blast
  from out(1) y(1) have "results st' = results st @ (y # out)" by simp
  moreover from out(2) y(2) l have "list_all2 (\<lambda>x y. link y = link x \<and> (y = x \<or>
              (if g then \<exists>e desc t. extra x = Some e \<and> description e = Some desc \<and>
                     y = x\<lparr>extra := Some (e\<lparr>description := Some (withTranslation desc t)\<rparr>)\<rparr>
               else \<exists>t. y = x\<lparr>title := withTranslation (title x) t\<rparr>))) (x # xs) (y # out)"
    by simp
  ultimately show ?case by blast
qed

text \<open>
  C3. \<open>translateTitles\<close> never rejects: whatever the providers answer, and whenever
  they throw, it resolves to a list of the length of its input, whose i-th item is the
  i-th item of the input, either unchanged or with its title (for GitHub, the
  description of its \<open>extra\<close>) replaced by the original followed by a translation in
  fullwidth parentheses. The link of every item is the link it came with.
\<close>

theorem translateTitles_contract:
  "\<exists>out tr'. translateTitles ps net items g tr = (Inr out, tr') \<and> length out = length items \<and>
     list_all2 (\<lambda>x y. link y = link x \<and> (y = x \<or>
        (if g then \<exists>e desc t. extra x = Some e \<and> description e = Some desc \<and>
               y = x\<lparr>extra := Some (e\<lparr>description := Some (withTranslation desc t)\<rparr>)\<rparr>
         else \<exists>t. y = x\<lparr>title := withTranslation (title x) t\<rparr>))) items out"
proof -
  obtain st' tr' where r: "translateLoop ps net g items (initialState, tr) = (st', tr')"
    by (cases "translateLoop ps net g items (initialState, tr)")
  from translateLoop_results [OF r] obtain out where out:
    "results st' = results initialState @ out"
    "list_all2 (\<lambda>x y. link y = link x \<and> (y = x \<or>
        (if g then \<exists>e desc t. extra x = Some e \<and> description e = Some desc \<and>
               y = x\<lparr>extra := Some (e\<lparr>description := Some (withTranslation desc t)\<rparr>)\<rparr>
         else \<exists>t. y = x\<lparr>title := withTranslation (title x) t\<rparr>))) items out"
    by blast
  from out(1) have "results st' = out" by (simp add: initialState_def)
  with r have "translateTitles ps net items g tr = (Inr out, tr')"
    by (simp add: translateTitles_def)
  moreover from out(2) have "length out = length items"
    by (simp add: list_all2_lengthD)
  ultimately show ?thesis using out(2) by blast
qed

lemma translateStep_failure:
  assumes "\<not> aborted st"
    and "(if g then tryGithub ps net x st t else tryTitle ps net x st t) = (Inr FallThrough, st1, t1)"
    and "consecutiveFailures st1 = consecutiveFailures st + 1"
  shows "consecutiveFailures (fst (translateStep ps net g x (st, t))) = consecutiveFailures st + 1"
  using assms by (simp add: translateStep_def Let_def)

lemma translateText_None_iff:
  "fst (translateText net text tr) = Inr None \<longleftrightarrow>
     (\<forall>s. s \<noteq> [] \<longrightarrow> fst (translatePrimary net text tr) \<noteq> Inr (Some s))
     \<and> (\<forall>s. s \<noteq> [] \<longrightarrow>
           fst (translateFallback net text (tr @ [PrimaryCall text])) \<noteq> Inr (Some s))"
proof -
  have t: "snd (translatePrimary net text tr) = tr @ [PrimaryCall text]"
    by (simp add: translatePrimary_def split: primary_response.splits)
  obtain p where p: "translatePrimary net text tr = (p, tr @ [PrimaryCall text])"
    using t by (metis prod.collapse)
  obtain f tr2 where f: "translateFallback net text (tr @ [PrimaryCall text]) = (f, tr2)"
    by (cases "translateFallback net text (tr @ [PrimaryCall text])")
  from p f show ?thesis
    by (cases p; cases f) (auto simp: translateText_def split: option.splits)
qed

text \<open>
  C2. Let \<open>st\<close> and \<open>t\<close> be the locals and the trace after the items \<open>pre\<close> of a call.
  If the counter of consecutive failures has reached 2, then whatever items \<open>post\<close>
  follow, the call returns the results so far followed by \<open>post\<close>, unchanged, and
  its trace is \<open>t\<close>: no request and no other event is added. Every turn of the loop
  appends one item to the results, and when that item is not the input item (a
  translation succeeded) the counter is zero afterwards. While the counter is below
  2, a turn whose text needs translation and for which \<open>translateText\<close> returns
  \<open>null\<close> adds one to the counter, for a title as for a GitHub description.
\<close>

theorem circuit_breaker:
  assumes "translateLoop ps net g pre (initialState, tr) = (st, t)"
  shows "(MAX_CONSECUTIVE_FAILURES \<le> consecutiveFailures st \<longrightarrow>
            translateTitles ps net (pre @ post) g tr = (Inr (results st @ post), t))
       \<and> (\<exists>y. results (fst (translateStep ps net g x (st, t))) = results st @ [y] \<and>
             (y \<noteq> x \<longrightarrow> consecutiveFailures (fst (translateStep ps net g x (st, t))) = 0))
       \<and> (consecutiveFailures st < MAX_CONSECUTIVE_FAILURES \<and> needsTranslation ps (title x) \<and>
            fst (translateText net (title x)
                   (if translatedCount st > 0 then t @ [Sleep THROTTLE_MS] else t)) = Inr None \<longrightarrow>
            consecutiveFailures (fst (translateStep ps net False x (st, t)))
              = consecutiveFailures st + 1)
       \<and> (consecutiveFailures st < MAX_CONSECUTIVE_FAILURES \<and> extra x = Some e \<and>
            description e = Some desc \<and> desc \<noteq> [] \<and> needsTranslation ps desc \<and>
            fst (translateText net desc
                   (if translatedCount st > 0 then t @ [Sleep THROTTLE_MS] else t)) = Inr None \<longrightarrow>
            consecutiveFailures (fst (translateStep ps net True x (st, t)))
              = consecutiveFailures st + 1)"
proof -
  from translateLoop_invariant [OF assms initial_invariant]
  have inv: "aborted st \<longleftrightarrow> MAX_CONSECUTIVE_FAILURES \<le> consecutiveFailures st" .
  have a: "translateTitles ps net (pre @ post) g tr = (Inr (results st @ post), t)"
    if "MAX_CONSECUTIVE_FAILURES \<le> consecutiveFailures st"
  proof -
    from that inv have "aborted st" by simp
    then have "translateLoop ps net g post (st, t) = (st\<lparr>results := results st @ post\<rparr>, t)"
      by (rule translateLoop_aborted)
    with assms show ?thesis
      by (simp add: translateTitles_def translateLoop_append)
  qed
  obtain st' t' where s: "translateStep ps net g x (st, t) = (st', t')"
    by (cases "translateStep ps net g x (st, t)")
  from translateStep_cases [OF s] s
  have b: "\<exists>y. results (fst (translateStep ps net g x (st, t))) = results st @ [y] \<and>
             (y \<noteq> x \<longrightarrow> consecutiveFailures (fst (translateStep ps net g x (st, t))) = 0)"
    by auto
  have c: "consecutiveFailures (fst (translateStep ps net False x (st, t)))
              = consecutiveFailures st + 1"
    if h: "consecutiveFailures st < MAX_CONSECUTIVE_FAILURES" "needsTranslation ps (title x)"
      "fst (translateText net (title x)
             (if translatedCount st > 0 then t @ [Sleep THROTTLE_MS] else t)) = Inr None"
  proof -
    from h(1) inv have na: "\<not> aborted st" by simp
    obtain t2 where "translateText net (title x)
             (if translatedCount st > 0 then t @ [Sleep THROTTLE_MS] else t) = (Inr None, t2)"
      using h(3) by (metis prod.collapse)
    with h(2) have "tryTitle ps net x st t =
        (Inr FallThrough, st\<lparr>consecutiveFailures := consecutiveFailures st + 1,
                    results := results st @ [x]\<rparr>, t2)"
      by (simp add: tryTitle_def Let_def)
    then have "(if False then tryGithub ps net x st t else tryTitle ps net x st t) =
        (Inr FallThrough, st\<lparr>consecutiveFailures := consecutiveFailures st + 1,
                    results := results st @ [x]\<rparr>, t2)"
      by simp
    from translateStep_failure [OF na this] show ?thesis by simp
  qed
  have d: "consecutiveFailures (fst (translateStep ps net True x (st, t)))
              = consecutiveFailures st + 1"
    if h: "consecutiveFailures st < MAX_CONSECUTIVE_FAILURES" "extra x = Some e"
      "description e = Some desc" "desc \<noteq> []" "needsTranslation ps desc"
      "fst (translateText net desc
             (if translatedCount st > 0 then t @ [Sleep THROTTLE_MS] else t)) = Inr None"
  proof -
    from h(1) inv have na: "\<not> aborted st" by simp
    obtain t2 where "translateText net desc
             (if translatedCount st > 0 then t @ [Sleep THROTTLE_MS] else t) = (Inr None, t2)"
      using h(6) by (metis prod.collapse)
    with h(2-5) have "tryGithub ps net x st t =
        (Inr FallThrough, st\<lparr>consecutiveFailures := consecutiveFailures st + 1,
                    results := results st @ [x]\<rparr>, t2)"
      by (simp add: tryGithub_def Let_def)
    then have "(if True then tryGithub ps net x st t else tryTitle ps net x st t) =
        (Inr FallThrough, st\<lparr>consecutiveFailures := consecutiveFailures st + 1,
                    results := results st @ [x]\<rparr>, t2)"
      by simp
    from translateStep_failure [OF na this] show ?thesis by simp
  qed
  from a b c d show ?thesis by blast
qed

lemmas translator_eval =
  translateStep_def initialState_def tryTitle_def needsTranslation_def exampleItem_def js_def
  deadNet_def echoNet_def translateText_def translatePrimary_def translateFallback_def
  translator_cjk_def high_surrogate_def stripped_def js_space_def js_digit_def
  asciiPunctOrSymbol_def MAX_CONSECUTIVE_FAILURES_def THROTTLE_MS_def orNull_def Let_def

lemma deadNet_two_items:
  "translateLoop asciiPunctOrSymbol deadNet False
     [exampleItem ''Hello'' ''a'', exampleItem ''World'' ''b''] (initialState, []) =
   (\<lparr>results = [exampleItem ''Hello'' ''a'', exampleItem ''World'' ''b''],
       translatedCount = 0, consecutiveFailures = 2, aborted = True\<rparr>,
     [PrimaryCall (js ''Hello''), FallbackCall (js ''Hello''),
      Warn (translateFailedWarning (js ''Hello'') (Error (js ''timeout''))),
      PrimaryCall (js ''World''), FallbackCall (js ''World''),
      Warn (translateFailedWarning (js ''World'') (Error (js ''timeout''))),
      Warn (abortWarning (Suc (Suc 0)))])"
  by (simp add: translator_eval)

text \<open>
  On a network where both providers time out, the first two English titles are tried
  (two requests each) and fail; the third item comes back as it is, and the trace
  holds no request for it.
\<close>

theorem circuit_breaker_witness:
  "translateTitles asciiPunctOrSymbol deadNet
     ([exampleItem ''Hello'' ''a'', exampleItem ''World'' ''b''] @ [exampleItem ''Third'' ''c''])
     False [] =
   (Inr ([exampleItem ''Hello'' ''a'', exampleItem ''World'' ''b'']
         @ [exampleItem ''Third'' ''c'']),
    [PrimaryCall (js ''Hello''), FallbackCall (js ''Hello''),
     Warn (translateFailedWarning (js ''Hello'') (Error (js ''timeout''))),
     PrimaryCall (js ''World''), FallbackCall (js ''World''),
     Warn (translateFailedWarning (js ''World'') (Error (js ''timeout''))),
     Warn (abortWarning (Suc (Suc 0)))])"
  using circuit_breaker [OF deadNet_two_items, of "[exampleItem ''Third'' ''c'']"]
  by (simp add: MAX_CONSECUTIVE_FAILURES_def)

lemma echoNet_one_item:
  "translateTitles asciiPunctOrSymbol echoNet [exampleItem ''Hello'' ''a''] False [] =
     (Inr [(exampleItem ''Hello'' ''a'')
             \<lparr>title := withTranslation (js ''Hello'') [0x4f60, 0x597d]\<rparr>],
      [PrimaryCall (js ''Hello'')])"
  by (simp add: translateTitles_def translator_eval)

text \<open>
  On a network where the primary provider answers, the title of the one item is
  replaced by the title followed by the answer in parentheses, and the link stays.
\<close>

theorem translateTitles_contract_witness:
  "\<exists>out tr'. translateTitles asciiPunctOrSymbol echoNet [exampleItem ''Hello'' ''a''] False []
       = (Inr out, tr')
     \<and> length out = 1
     \<and> map link out = [js ''a'']
     \<and> map title out = [js ''Hello'' @ [0xff08, 0x4f60, 0x597d, 0xff09]]"
proof -
  from translateTitles_contract
    [of asciiPunctOrSymbol echoNet "[exampleItem ''Hello'' ''a'']" False "[]"]
  obtain out tr' where o:
    "translateTitles asciiPunctOrSymbol echoNet [exampleItem ''Hello'' ''a''] False []
       = (Inr out, tr')"
    "length out = length [exampleItem ''Hello'' ''a'']"
    by blast
  from o(1) echoNet_one_item have "out = [(exampleItem ''Hello'' ''a'')
             \<lparr>title := withTranslation (js ''Hello'') [0x4f60, 0x597d]\<rparr>]"
    by simp
  then have "map link out = [js ''a'']"
    "map title out = [js ''Hello'' @ [0xff08, 0x4f60, 0x597d, 0xff09]]"
    by (simp_all add: exampleItem_def withTranslation_def)
  with o show ?thesis by auto
qed

section \<open>The formatter: batches of sections\<close>

lemma runningTotal_snoc: "runningTotal (xs @ [s]) = runningTotal xs + int (length s) + 2"
  by (simp add: runningTotal_def)

lemma batchInv_init:
  "batchInv categoryName footer M C []
     \<lparr>messages = [], batchIndex = 0, currentSections = [], currentLength = 0\<rparr> []"
  by (simp add: batchInv_def runningTotal_def)

lemma map_upt_snoc_nth:
  "map (\<lambda>k. f k ((ds @ [c]) ! k)) [0..<length (ds @ [c])]
     = map (\<lambda>k. f k (ds ! k)) [0..<length ds] @ [f (length ds) c]"
  by (simp add: nth_append)

lemma batchInv_step:
  assumes inv: "batchInv categoryName footer M C sections st ds"
  shows "\<exists>ds'. batchInv categoryName footer M C (sections @ [formatSourceSection g])
           (formatStep categoryName footer M C st g) ds'"
proof -
  let ?s = "formatSourceSection g"
  let ?cur = "currentSections st"
  from inv have
    m: "messages st = map (\<lambda>k. renderMessage categoryName footer k (ds ! k)) [0..<length ds]"
    and bi: "batchIndex st = length ds"
    and cc: "concat ds @ ?cur = sections"
    and cl: "currentLength st = runningTotal ?cur"
    and ne: "[] \<notin> set ds"
    and cne: "sections \<noteq> [] \<longrightarrow> ?cur \<noteq> []"
    and forced: "\<forall>k. k + 1 < length ds \<longrightarrow> splitForced footer M C (ds ! k) (hd (ds ! (k + 1)))"
    and lastf: "ds \<noteq> [] \<longrightarrow> splitForced footer M C (last ds) (hd ?cur)"
    and compact: "\<forall>b \<in> set (ds @ [?cur]). \<forall>n. 0 < n \<and> n < length b \<longrightarrow>
            \<not> splitForced footer M C (take n b) (b ! n)"
    by (simp_all add: batchInv_def)
  show ?thesis
  proof (cases "?cur \<noteq> [] \<and> splitForced footer M C ?cur ?s")
    case True
    then have c: "?cur \<noteq> []" and f: "splitForced footer M C ?cur ?s" by simp_all
    from c f cl have step: "formatStep categoryName footer M C st g =
        st\<lparr>messages := messages st @ [renderMessage categoryName footer (batchIndex st) ?cur],
           batchIndex := batchIndex st + 1,
           currentSections := [?s],
           currentLength := int (length ?s) + 2\<rparr>"
      by (simp add: formatStep_def Let_def splitForced_def)
    have "batchInv categoryName footer M C (sections @ [?s])
           (formatStep categoryName footer M C st g) (ds @ [?cur])"
      unfolding batchInv_def step
    proof (intro conjI)
      show "messages (st\<lparr>messages := messages st @ [renderMessage categoryName footer (batchIndex st) ?cur],
           batchIndex := batchIndex st + 1, currentSections := [?s],
           currentLength := int (length ?s) + 2\<rparr>) =
        map (\<lambda>k. renderMessage categoryName footer k ((ds @ [?cur]) ! k)) [0..<length (ds @ [?cur])]"
        unfolding map_upt_snoc_nth using m bi by simp
      show "\<forall>k. k + 1 < length (ds @ [?cur]) \<longrightarrow>
          splitForced footer M C ((ds @ [?cur]) ! k) (hd ((ds @ [?cur]) ! (k + 1)))"
      proof (intro allI impI)
        fix k assume k: "k + 1 < length (ds @ [?cur])"
        show "splitForced footer M C ((ds @ [?cur]) ! k) (hd ((ds @ [?cur]) ! (k + 1)))"
        proof (cases "k + 1 < length ds")
          case True
          with forced show ?thesis by (simp add: nth_append)
        next
          case False
          with k have e: "k + 1 = length ds" by simp
          then have "ds \<noteq> []" by auto
          with lastf have "splitForced footer M C (last ds) (hd ?cur)" by simp
          moreover from e \<open>ds \<noteq> []\<close> have "last ds = ds ! k"
            by (metis last_conv_nth diff_Suc_1 Suc_eq_plus1)
          ultimately show ?thesis using e by (simp add: nth_append)
        qed
      qed
      show "\<forall>b \<in> set ((ds @ [?cur]) @ [currentSections (st\<lparr>messages := messages st @ [renderMessage categoryName footer (batchIndex st) ?cur],
           batchIndex := batchIndex st + 1, currentSections := [?s],
           currentLength := int (length ?s) + 2\<rparr>)]). \<forall>n. 0 < n \<and> n < length b \<longrightarrow>
            \<not> splitForced footer M C (take n b) (b ! n)"
        using compact by auto
    qed (use bi cc ne c f in \<open>simp_all add: runningTotal_def\<close>)
    then show ?thesis by blast
  next
    case False
    with cl have step: "formatStep categoryName footer M C st g =
        st\<lparr>currentSections := ?cur @ [?s],
           currentLength := currentLength st + int (length ?s) + 2\<rparr>"
      by (auto simp: formatStep_def Let_def splitForced_def wouldExceedChars_def)
    have "batchInv categoryName footer M C (sections @ [?s])
           (formatStep categoryName footer M C st g) ds"
      unfolding batchInv_def step
    proof (intro conjI)
      show "ds \<noteq> [] \<longrightarrow> splitForced footer M C (last ds)
          (hd (currentSections (st\<lparr>currentSections := ?cur @ [?s],
           currentLength := currentLength st + int (length ?s) + 2\<rparr>)))"
      proof
        assume d: "ds \<noteq> []"
        then have "concat ds \<noteq> []" using ne by (cases ds) auto
        with cc have "sections \<noteq> []" by auto
        with cne have "?cur \<noteq> []" by simp
        with lastf d show "splitForced footer M C (last ds)
          (hd (currentSections (st\<lparr>currentSections := ?cur @ [?s],
           currentLength := currentLength st + int (length ?s) + 2\<rparr>)))"
          by simp
      qed
      show "\<forall>b \<in> set (ds @ [currentSections (st\<lparr>currentSections := ?cur @ [?s],
           currentLength := currentLength st + int (length ?s) + 2\<rparr>)]).
          \<forall>n. 0 < n \<and> n < length b \<longrightarrow> \<not> splitForced footer M C (take n b) (b ! n)"
      proof (intro ballI allI impI)
        fix b n
        assume b: "b \<in> set (ds @ [currentSections (st\<lparr>currentSections := ?cur @ [?s],
           currentLength := currentLength st + int (length ?s) + 2\<rparr>)])"
          and n: "0 < n \<and> n < length b"
        show "\<not> splitForced footer M C (take n b) (b ! n)"
        proof (cases "b \<in> set ds")
          case True
          with compact n show ?thesis by auto
        next
          case nb: False
          with b have be: "b = ?cur @ [?s]" by auto
          show ?thesis
          proof (cases "n < length ?cur")
            case True
            with compact n have "\<not> splitForced footer M C (take n ?cur) (?cur ! n)" by auto
            with True be show ?thesis by (simp add: nth_append)
          next
            case nl: False
            with n be have e: "n = length ?cur" by simp
            with n have "?cur \<noteq> []" by auto
            with False have "\<not> splitForced footer M C ?cur ?s" by simp
            with e be show ?thesis by simp
          qed
        qed
      qed
    qed (use m bi cc cl ne forced in \<open>simp_all add: runningTotal_snoc\<close>)
    then show ?thesis by blast
  qed
qed

lemma batchInv_foldl:
  "\<exists>ds. batchInv categoryName footer M C (map formatSourceSection gs)
     (foldl (formatStep categoryName footer M C)
        \<lparr>messages = [], batchIndex = 0, currentSections = [], currentLength = 0\<rparr> gs) ds"
proof (induction gs rule: rev_induct)
  case Nil
  show ?case by (simp add: batchInv_init exI [of _ "[]"])
next
  case (snoc g gs)
  then obtain ds where "batchInv categoryName footer M C (map formatSourceSection gs)
     (foldl (formatStep categoryName footer M C)
        \<lparr>messages = [], batchIndex = 0, currentSections = [], currentLength = 0\<rparr> gs) ds"
    by blast
  from batchInv_step [OF this, of g] show ?case by simp
qed

lemma formatNewsMessages_batches:
  assumes "filter (\<lambda>g. length (group_items g) > 0) groups \<noteq> []"
  shows "\<exists>batches.
      concat batches = map formatSourceSection (filter (\<lambda>g. length (group_items g) > 0) groups)
    \<and> [] \<notin> set batches
    \<and> formatNewsMessages parts categoryName groups M C =
        map (\<lambda>k. renderMessage categoryName (footerOf parts) k (batches ! k)) [0..<length batches]
    \<and> (\<forall>k. k + 1 < length batches \<longrightarrow>
          splitForced (footerOf parts) M C (batches ! k) (hd (batches ! (k + 1))))
    \<and> (\<forall>b \<in> set batches. \<forall>n. 0 < n \<and> n < length b \<longrightarrow>
          \<not> splitForced (footerOf parts) M C (take n b) (b ! n))"
proof -
  let ?ne = "filter (\<lambda>g. length (group_items g) > 0) groups"
  let ?st = "foldl (formatStep categoryName (footerOf parts) M C)
        \<lparr>messages = [], batchIndex = 0, currentSections = [], currentLength = 0\<rparr> ?ne"
  from batchInv_foldl obtain ds where
    inv: "batchInv categoryName (footerOf parts) M C (map formatSourceSection ?ne) ?st ds"
    by blast
  from assms have sne: "map formatSourceSection ?ne \<noteq> []" by simp
  from inv sne have cur: "currentSections ?st \<noteq> []" by (simp add: batchInv_def)
  let ?bs = "ds @ [currentSections ?st]"
  from inv have 1: "concat ?bs = map formatSourceSection ?ne" by (simp add: batchInv_def)
  from inv cur have 2: "[] \<notin> set ?bs" by (simp add: batchInv_def)
  from inv have m: "messages ?st =
      map (\<lambda>k. renderMessage categoryName (footerOf parts) k (ds ! k)) [0..<length ds]"
    and bi: "batchIndex ?st = length ds"
    by (simp_all add: batchInv_def)
  from assms cur have "formatNewsMessages parts categoryName groups M C =
      messages ?st @ [renderMessage categoryName (footerOf parts) (batchIndex ?st)
        (currentSections ?st)]"
    by (simp add: formatNewsMessages_def Let_def)
  with m bi have 3: "formatNewsMessages parts categoryName groups M C =
      map (\<lambda>k. renderMessage categoryName (footerOf parts) k (?bs ! k)) [0..<length ?bs]"
    unfolding map_upt_snoc_nth by simp
  have 4: "\<forall>k. k + 1 < length ?bs \<longrightarrow>
          splitForced (footerOf parts) M C (?bs ! k) (hd (?bs ! (k + 1)))"
  proof (intro allI impI)
    fix k assume k: "k + 1 < length ?bs"
    show "splitForced (footerOf parts) M C (?bs ! k) (hd (?bs ! (k + 1)))"
    proof (cases "k + 1 < length ds")
      case True
      with inv show ?thesis by (simp add: batchInv_def nth_append)
    next
      case False
      with k have e: "k + 1 = length ds" by simp
      then have d: "ds \<noteq> []" by auto
      with inv have "splitForced (footerOf parts) M C (last ds) (hd (currentSections ?st))"
        by (simp add: batchInv_def)
      moreover from e d have "last ds = ds ! k"
        by (metis last_conv_nth diff_Suc_1 Suc_eq_plus1)
      ultimately show ?thesis using e by (simp add: nth_append)
    qed
  qed
  from inv have 5: "\<forall>b \<in> set ?bs. \<forall>n. 0 < n \<and> n < length b \<longrightarrow>
          \<not> splitForced (footerOf parts) M C (take n b) (b ! n)"
    unfolding batchInv_def by blast
  from 1 2 3 4 5 show ?thesis by blast
qed

lemma suffix_renderMessage: "suffix footer (renderMessage categoryName footer k b)"
  unfolding renderMessage_def suffix_def by (metis append.assoc)

lemma every_message_ends_with_footer:
  assumes "filter (\<lambda>g. length (group_items g) > 0) groups \<noteq> []"
  shows "\<forall>m \<in> set (formatNewsMessages parts categoryName groups M C). suffix (footerOf parts) m"
proof -
  from formatNewsMessages_batches [OF assms, of parts categoryName M C]
  obtain batches where "formatNewsMessages parts categoryName groups M C =
        map (\<lambda>k. renderMessage categoryName (footerOf parts) k (batches ! k)) [0..<length batches]"
    by blast
  then show ?thesis by (auto simp: suffix_renderMessage)
qed

lemma formatNewsMessages_no_data:
  assumes "filter (\<lambda>g. length (group_items g) > 0) groups = []"
  shows "formatNewsMessages parts categoryName groups M C = [noDataMessage categoryName]"
  using assms by (simp add: formatNewsMessages_def)

lemma footer_length: "length (footerOf exampleParts) = 25"
  by (simp add: footerOf_def formatTime_def getPart_def exampleParts_def js_def)

lemma formatTime_example: "formatTime exampleParts = js ''2026-11-02 10:54''"
  by (simp add: formatTime_def getPart_def exampleParts_def js_def)

lemma section_long: "length (formatSourceSection (longGroup n)) = 2314 + length n"
  by (simp add: formatSourceSection_def longGroup_def itemLine_def showNat_def js_def enumerate_eq_zip)

lemma two_long:
  "formatNewsMessages exampleParts (js ''Tech'') [longGroup ''A'', longGroup ''B''] 3 4500 =
     [renderMessage (js ''Tech'') (footerOf exampleParts) 0 [formatSourceSection (longGroup ''A'')],
      renderMessage (js ''Tech'') (footerOf exampleParts) 1 [formatSourceSection (longGroup ''B'')]]"
proof -
  have ne: "group_items (longGroup n) \<noteq> []" for n by (simp add: longGroup_def)
  show ?thesis
    by (simp add: formatNewsMessages_def Let_def ne formatStep_def wouldExceedChars_def
        wouldExceedCount_def section_long footer_length)
qed

lemma four_short:
  "formatNewsMessages exampleParts (js ''Tech'')
     [shortGroup ''A'', shortGroup ''B'', shortGroup ''C'', shortGroup ''D''] 3 4500 =
     [renderMessage (js ''Tech'') (footerOf exampleParts) 0
        [formatSourceSection (shortGroup ''A''), formatSourceSection (shortGroup ''B''),
         formatSourceSection (shortGroup ''C'')],
      renderMessage (js ''Tech'') (footerOf exampleParts) 1 [formatSourceSection (shortGroup ''D'')]]"
proof -
  have ne: "group_items (shortGroup n) \<noteq> []" for n by (simp add: shortGroup_def)
  have len: "length (formatSourceSection (shortGroup n)) = 19 + length n" for n
    by (simp add: formatSourceSection_def shortGroup_def exampleItem_def itemLine_def showNat_def js_def enumerate_eq_zip)
  show ?thesis
    by (simp add: formatNewsMessages_def Let_def ne formatStep_def wouldExceedChars_def
        wouldExceedCount_def len footer_length)
qed

text \<open>
  C4. When some group has items, the messages of \<open>formatNewsMessages\<close> (at most 3
  sections, 4500 characters) are the renderings of consecutive batches of the
  sections of the groups that have items: the batches, concatenated, are the sections
  in order, so that a section lies whole in one message, however long it is. A new
  message starts exactly where a split is forced: between two consecutive batches,
  the running character total of the first plus the next section and its separator
  exceeds 4500 minus the length of the footer minus 30, or the first holds 3 sections
  already; inside a batch, neither holds before any of its sections but the first.
\<close>

theorem formatNewsMessages_splitting:
  assumes "filter (\<lambda>g. length (group_items g) > 0) groups \<noteq> []"
  shows "\<exists>batches.
      concat batches = map formatSourceSection (filter (\<lambda>g. length (group_items g) > 0) groups)
    \<and> [] \<notin> set batches
    \<and> formatNewsMessages parts categoryName groups 3 4500 =
        map (\<lambda>k. renderMessage categoryName (footerOf parts) k (batches ! k))
          [0..<length batches]
    \<and> (\<forall>k. k + 1 < length batches \<longrightarrow>
          splitForced (footerOf parts) 3 4500 (batches ! k) (hd (batches ! (k + 1))))
    \<and> (\<forall>b \<in> set batches. \<forall>n. 0 < n \<and> n < length b \<longrightarrow>
          \<not> splitForced (footerOf parts) 3 4500 (take n b) (b ! n))"
  using formatNewsMessages_batches [OF assms] .

text \<open>
  Two sections of 2315 characters do not fit one message (the budget left is 4445):
  two messages. Four short sections: three in the first message, one in the second.
\<close>

theorem formatNewsMessages_splitting_witness:
  "formatNewsMessages exampleParts (js ''Tech'') [longGroup ''A'', longGroup ''B''] 3 4500 =
     [renderMessage (js ''Tech'') (footerOf exampleParts) 0
        [formatSourceSection (longGroup ''A'')],
      renderMessage (js ''Tech'') (footerOf exampleParts) 1
        [formatSourceSection (longGroup ''B'')]]
   \<and> (\<exists>batches. concat batches
          = [formatSourceSection (longGroup ''A''), formatSourceSection (longGroup ''B'')]
        \<and> formatNewsMessages exampleParts (js ''Tech'') [longGroup ''A'', longGroup ''B''] 3 4500
          = map (\<lambda>k. renderMessage (js ''Tech'') (footerOf exampleParts) k (batches ! k))
              [0..<length batches])
   \<and> formatNewsMessages exampleParts (js ''Tech'')
       [shortGroup ''A'', shortGroup ''B'', shortGroup ''C'', shortGroup ''D''] 3 4500 =
     [renderMessage (js ''Tech'') (footerOf exampleParts) 0
        [formatSourceSection (shortGroup ''A''), formatSourceSection (shortGroup ''B''),
         formatSourceSection (shortGroup ''C'')],
      renderMessage (js ''Tech'') (footerOf exampleParts) 1
        [formatSourceSection (shortGroup ''D'')]]"
proof -
  have ne: "filter (\<lambda>g. length (group_items g) > 0) [longGroup ''A'', longGroup ''B'']
      = [longGroup ''A'', longGroup ''B'']"
    by (simp add: longGroup_def)
  then have "filter (\<lambda>g. length (group_items g) > 0) [longGroup ''A'', longGroup ''B''] \<noteq> []"
    by simp
  from formatNewsMessages_splitting [OF this, of exampleParts "js ''Tech''"]
  have "\<exists>batches. concat batches
          = [formatSourceSection (longGroup ''A''), formatSourceSection (longGroup ''B'')]
        \<and> formatNewsMessages exampleParts (js ''Tech'') [longGroup ''A'', longGroup ''B''] 3 4500
          = map (\<lambda>k. renderMessage (js ''Tech'') (footerOf exampleParts) k (batches ! k))
              [0..<length batches]"
    unfolding ne by auto
  with two_long four_short show ?thesis by blast
qed

section \<open>The formatter: footer and the message without news\<close>

lemma suffix_last: "suffix xs ys \<Longrightarrow> xs \<noteq> [] \<Longrightarrow> last ys = last xs"
  by (auto simp: suffix_def)

text \<open>
  C8, as the code has it. When some group has items, every message ends with the
  footer: two line feeds, the quote mark and the label, and the time of \<open>formatTime\<close>,
  which is \<open>YYYY-MM-DD HH:mm\<close> when the clock's parts are a year of four digits and a
  month, day, hour and minute of two digits. When no group has items, the one message
  returned is the header of the category, an empty line and a sentence saying that
  there is no news: it carries the header and no footer.
\<close>

theorem formatNewsMessages_footer:
  "(filter (\<lambda>g. length (group_items g) > 0) groups \<noteq> [] \<longrightarrow>
      (\<forall>m \<in> set (formatNewsMessages parts categoryName groups maxSourcesPerMsg maxChars).
          suffix (footerOf parts) m))
   \<and> (filter (\<lambda>g. length (group_items g) > 0) groups = [] \<longrightarrow>
        formatNewsMessages parts categoryName groups maxSourcesPerMsg maxChars
          = [noDataMessage categoryName])
   \<and> prefix (js ''## '' @ categoryName) (noDataMessage categoryName)
   \<and> suffix (formatTime parts) (footerOf parts)
   \<and> (length (getPart parts (js ''year'')) = 4 \<and> list_all js_digit (getPart parts (js ''year''))
       \<and> (\<forall>t \<in> {js ''month'', js ''day'', js ''hour'', js ''minute''}.
             length (getPart parts t) = 2 \<and> list_all js_digit (getPart parts t))
       \<longrightarrow> (\<exists>y mo d h mi. formatTime parts
                 = y @ js ''-'' @ mo @ js ''-'' @ d @ js '' '' @ h @ js '':'' @ mi
               \<and> length y = 4 \<and> length mo = 2 \<and> length d = 2 \<and> length h = 2 \<and> length mi = 2
               \<and> list_all js_digit (y @ mo @ d @ h @ mi)))"
proof -
  have a: "\<forall>m \<in> set (formatNewsMessages parts categoryName groups maxSourcesPerMsg maxChars).
          suffix (footerOf parts) m"
    if "filter (\<lambda>g. length (group_items g) > 0) groups \<noteq> []"
    using that by (rule every_message_ends_with_footer)
  have b: "formatNewsMessages parts categoryName groups maxSourcesPerMsg maxChars
          = [noDataMessage categoryName]"
    if "filter (\<lambda>g. length (group_items g) > 0) groups = []"
    using that by (rule formatNewsMessages_no_data)
  have c: "prefix (js ''## '' @ categoryName) (noDataMessage categoryName)"
    by (simp add: noDataMessage_def prefix_def)
  have d: "suffix (formatTime parts) (footerOf parts)"
    unfolding footerOf_def suffix_def by (metis append.assoc)
  have e: "\<exists>y mo d h mi. formatTime parts
                 = y @ js ''-'' @ mo @ js ''-'' @ d @ js '' '' @ h @ js '':'' @ mi
               \<and> length y = 4 \<and> length mo = 2 \<and> length d = 2 \<and> length h = 2 \<and> length mi = 2
               \<and> list_all js_digit (y @ mo @ d @ h @ mi)"
    if "length (getPart parts (js ''year'')) = 4 \<and> list_all js_digit (getPart parts (js ''year''))
       \<and> (\<forall>t \<in> {js ''month'', js ''day'', js ''hour'', js ''minute''}.
             length (getPart parts t) = 2 \<and> list_all js_digit (getPart parts t))"
  proof -
    from that have
      "formatTime parts = getPart parts (js ''year'') @ js ''-'' @ getPart parts (js ''month'')
         @ js ''-'' @ getPart parts (js ''day'') @ js '' '' @ getPart parts (js ''hour'')
         @ js '':'' @ getPart parts (js ''minute'')
       \<and> length (getPart parts (js ''year'')) = 4 \<and> length (getPart parts (js ''month'')) = 2
       \<and> length (getPart parts (js ''day'')) = 2 \<and> length (getPart parts (js ''hour'')) = 2
       \<and> length (getPart parts (js ''minute'')) = 2
       \<and> list_all js_digit (getPart parts (js ''year'') @ getPart parts (js ''month'')
            @ getPart parts (js ''day'') @ getPart parts (js ''hour'')
            @ getPart parts (js ''minute''))"
      by (simp add: formatTime_def)
    then show ?thesis by blast
  qed
  from a b c d e show ?thesis by blast
qed

theorem formatNewsMessages_footer_witness:
  "suffix ([0xa, 0xa] @ js ''> '' @ [0x66f4, 0x65b0, 0x65f6, 0x95f4, 0xff1a]
           @ js ''2026-11-02 10:54'')
     (renderMessage (js ''Tech'') (footerOf exampleParts) 0
        [formatSourceSection (longGroup ''A'')])
   \<and> suffix ([0xa, 0xa] @ js ''> '' @ [0x66f4, 0x65b0, 0x65f6, 0x95f4, 0xff1a]
           @ js ''2026-11-02 10:54'')
     (renderMessage (js ''Tech'') (footerOf exampleParts) 1
        [formatSourceSection (longGroup ''B'')])
   \<and> (\<exists>y mo d h mi. js ''2026-11-02 10:54''
         = y @ js ''-'' @ mo @ js ''-'' @ d @ js '' '' @ h @ js '':'' @ mi
       \<and> length y = 4 \<and> length mo = 2 \<and> length d = 2 \<and> length h = 2 \<and> length mi = 2
       \<and> list_all js_digit (y @ mo @ d @ h @ mi))"
proof -
  have ne: "filter (\<lambda>g. length (group_items g) > 0) [longGroup ''A'', longGroup ''B''] \<noteq> []"
    by (simp add: longGroup_def)
  have digits: "length (getPart exampleParts (js ''year'')) = 4
       \<and> list_all js_digit (getPart exampleParts (js ''year''))
       \<and> (\<forall>t \<in> {js ''month'', js ''day'', js ''hour'', js ''minute''}.
             length (getPart exampleParts t) = 2 \<and> list_all js_digit (getPart exampleParts t))"
    by (simp add: getPart_def exampleParts_def js_def js_digit_def)
  have f: "footerOf exampleParts = [0xa, 0xa] @ js ''> '' @ [0x66f4, 0x65b0, 0x65f6, 0x95f4, 0xff1a]
               @ js ''2026-11-02 10:54''"
    by (simp add: footerOf_def formatTime_example)
  note t = formatNewsMessages_footer
    [of "[longGroup ''A'', longGroup ''B'']" exampleParts "js ''Tech''" 3 4500]
  from t ne have "\<forall>m \<in> set (formatNewsMessages exampleParts (js ''Tech'')
        [longGroup ''A'', longGroup ''B''] 3 4500). suffix (footerOf exampleParts) m"
    by blast
  moreover from t digits have "\<exists>y mo d h mi. formatTime exampleParts
         = y @ js ''-'' @ mo @ js ''-'' @ d @ js '' '' @ h @ js '':'' @ mi
       \<and> length y = 4 \<and> length mo = 2 \<and> length d = 2 \<and> length h = 2 \<and> length mi = 2
       \<and> list_all js_digit (y @ mo @ d @ h @ mi)"
    by blast
  ultimately show ?thesis
    unfolding two_long f formatTime_example by simp
qed

text \<open>
  A category whose only group has no items: the one message returned is the header
  and the sentence. It does not end with the footer, nor with the time: its last
  character is the ideographic full stop of the sentence.
\<close>

theorem no_data_message_has_no_footer:
  "formatNewsMessages exampleParts (js ''Tech'') [\<lparr>group_name = js ''A'', group_items = []\<rparr>]
      3 4500 = [noDataMessage (js ''Tech'')]
   \<and> \<not> suffix (footerOf exampleParts) (noDataMessage (js ''Tech''))
   \<and> \<not> suffix (formatTime exampleParts) (noDataMessage (js ''Tech''))
   \<and> last (noDataMessage (js ''Tech'')) = 0x3002"
proof -
  have m: "formatNewsMessages exampleParts (js ''Tech'')
      [\<lparr>group_name = js ''A'', group_items = []\<rparr>] 3 4500 = [noDataMessage (js ''Tech'')]"
    by (simp add: formatNewsMessages_def)
  have l: "last (noDataMessage (js ''Tech'')) = 0x3002"
    by (simp add: noDataMessage_def)
  have lt: "formatTime exampleParts \<noteq> []" "last (formatTime exampleParts) = 0x34"
    by (simp_all add: formatTime_example js_def)
  have lf: "footerOf exampleParts \<noteq> []" "last (footerOf exampleParts) = 0x34"
    using lt by (simp_all add: footerOf_def)
  have "\<not> suffix (footerOf exampleParts) (noDataMessage (js ''Tech''))"
    using suffix_last [OF _ lf(1)] l lf(2) by auto
  moreover have "\<not> suffix (formatTime exampleParts) (noDataMessage (js ''Tech''))"
    using suffix_last [OF _ lt(1)] l lt(2) by auto
  ultimately show ?thesis using m l by blast
qed

section \<open>The RSS source\<close>

lemma set_insertBy: "set (insertBy cmp x xs) = insert x (set xs)"
  by (induction xs) auto

lemma set_sortBy: "set (sortBy cmp xs) = set xs"
  by (induction xs) (simp_all add: sortBy_def set_insertBy)

lemma distinct_map_insertBy:
  "distinct (map f (insertBy cmp x xs)) \<longleftrightarrow> f x \<notin> f ` set xs \<and> distinct (map f xs)"
  by (induction xs) (auto simp: set_insertBy)

lemma distinct_map_sortBy: "distinct (map f (sortBy cmp xs)) \<longleftrightarrow> distinct (map f xs)"
  by (induction xs) (simp_all add: sortBy_def distinct_map_insertBy set_sortBy [unfolded sortBy_def])

lemma length_sortBy: "length (sortBy cmp xs) = length xs"
proof (induction xs)
  case Nil
  show ?case by (simp add: sortBy_def)
next
  case (Cons x xs)
  have "length (insertBy cmp x ys) = Suc (length ys)" for ys
    by (induction ys) auto
  with Cons show ?case by (simp add: sortBy_def)
qed

lemma set_uniqueByLink: "set (uniqueByLink seen xs) \<subseteq> set xs"
  by (induction xs arbitrary: seen) auto

lemma uniqueByLink_fresh: "x \<in> set (uniqueByLink seen xs) \<Longrightarrow> link x |\<notin>| seen"
  by (induction xs arbitrary: seen) (auto split: if_splits)

lemma distinct_uniqueByLink: "distinct (map link (uniqueByLink seen xs))"
proof (induction xs arbitrary: seen)
  case Nil
  show ?case by simp
next
  case (Cons x xs)
  have "link x \<notin> link ` set (uniqueByLink (finsert (link x) seen) xs)"
  proof
    assume "link x \<in> link ` set (uniqueByLink (finsert (link x) seen) xs)"
    then obtain z where z: "z \<in> set (uniqueByLink (finsert (link x) seen) xs)"
      and l: "link z = link x" by auto
    from uniqueByLink_fresh [OF z] l show False by simp
  qed
  with Cons show ?case by simp
qed

lemma uniqueByLink_first:
  "x \<in> set (uniqueByLink seen xs) \<Longrightarrow> find (\<lambda>y. link y = link x) xs = Some x"
proof (induction xs arbitrary: seen)
  case Nil
  then show ?case by simp
next
  case (Cons y ys)
  show ?case
  proof (cases "link y |\<in>| seen")
    case True
    with Cons.prems have x: "x \<in> set (uniqueByLink seen ys)" by simp
    from uniqueByLink_fresh [OF x] True have "link y \<noteq> link x" by auto
    with Cons.IH [OF x] show ?thesis by simp
  next
    case False
    with Cons.prems have "x = y \<or> x \<in> set (uniqueByLink (finsert (link y) seen) ys)" by auto
    then show ?thesis
    proof
      assume "x = y"
      then show ?thesis by simp
    next
      assume x: "x \<in> set (uniqueByLink (finsert (link y) seen) ys)"
      from uniqueByLink_fresh [OF x] have "link y \<noteq> link x" by auto
      with Cons.IH [OF x] show ?thesis by simp
    qed
  qed
qed

lemma uniqueByLink_complete:
  "y \<in> set xs \<Longrightarrow> link y |\<notin>| seen \<Longrightarrow> link y \<in> link ` set (uniqueByLink seen xs)"
  by (induction xs arbitrary: seen) (auto split: if_splits)

lemma sorted_insertBy:
  assumes "sorted_wrt newerOrEqual ys" "timeOf x \<noteq> None" "\<forall>y \<in> set ys. timeOf y \<noteq> None"
  shows "sorted_wrt newerOrEqual (insertBy byTimeDescending x ys)"
  using assms
proof (induction ys)
  case Nil
  then show ?case by simp
next
  case (Cons y ys)
  from Cons.prems obtain tx ty where t: "timeOf x = Some tx" "timeOf y = Some ty" by auto
  then have c: "byTimeDescending x y = Some (ty - tx)" by (simp add: byTimeDescending_def)
  show ?case
  proof (cases "ty - tx \<le> 0")
    case True
    then have xy: "newerOrEqual x y" using t by (simp add: newerOrEqual_def)
    have "newerOrEqual x z" if "z \<in> set ys" for z
    proof -
      from Cons.prems(1) that have "newerOrEqual y z" by simp
      with xy show ?thesis by (auto simp: newerOrEqual_def)
    qed
    moreover from True c have "insertBy byTimeDescending x (y # ys) = x # y # ys" by simp
    ultimately show ?thesis using xy Cons.prems(1) by simp
  next
    case False
    then have yx: "newerOrEqual y x" using t by (simp add: newerOrEqual_def)
    from Cons.prems have "sorted_wrt newerOrEqual (insertBy byTimeDescending x ys)"
      by (intro Cons.IH) simp_all
    moreover from False c have "insertBy byTimeDescending x (y # ys) = y # insertBy byTimeDescending x ys"
      by simp
    ultimately show ?thesis using yx Cons.prems(1) by (auto simp: set_insertBy)
  qed
qed

lemma sorted_sortBy:
  assumes "\<forall>y \<in> set xs. timeOf y \<noteq> None"
  shows "sorted_wrt newerOrEqual (sortBy byTimeDescending xs)"
  using assms
proof (induction xs)
  case Nil
  show ?case by (simp add: sortBy_def)
next
  case (Cons x xs)
  then have "sorted_wrt newerOrEqual (sortBy byTimeDescending xs)" by simp
  moreover from Cons.prems have "timeOf x \<noteq> None"
    "\<forall>y \<in> set (sortBy byTimeDescending xs). timeOf y \<noteq> None"
    by (simp_all add: set_sortBy)
  ultimately have "sorted_wrt newerOrEqual (insertBy byTimeDescending x (sortBy byTimeDescending xs))"
    by (rule sorted_insertBy)
  then show ?case by (simp add: sortBy_def)
qed

lemma set_sliceTo: "set (sliceTo count xs) \<subseteq> set xs"
  by (auto simp: sliceTo_def dest: in_set_takeD)

lemma sliceTo_take: "\<exists>n. sliceTo count xs = take n xs"
  by (auto simp: sliceTo_def)

lemma length_sliceTo: "0 \<le> count \<Longrightarrow> int (length (sliceTo count xs)) \<le> count"
  by (simp add: sliceTo_def)

text \<open>
  C10, as the code has it. \<open>fetchSingleRssSource\<close> returns at most \<open>count\<close> items
  when \<open>count\<close> is not negative; every item has a non-empty title and a non-empty
  link; the links are pairwise distinct, and each item is the first item of the feed
  with its link; when no date of the feed is invalid, the items are in descending
  order of time value, an item without a date having the time value 0 (the epoch:
  after every item dated later, before every item dated earlier); and when the fetch
  or the parse fails the result is the empty list, with a warning in the trace.
\<close>

theorem fetchSingleRssSource_result:
  assumes "fetchSingleRssSource feed parseDate src count tr = (out, tr')"
  shows "(0 \<le> count \<longrightarrow> int (length out) \<le> count)
    \<and> (\<forall>item \<in> set out. title item \<noteq> [] \<and> link item \<noteq> [])
    \<and> distinct (map link out)
    \<and> (\<forall>item \<in> set out.
          find (\<lambda>y. link y = link item) (fst (fetchSingleFeed feed parseDate src tr))
            = Some item)
    \<and> ((\<forall>item \<in> set (fst (fetchSingleFeed feed parseDate src tr)).
           pubDate item \<noteq> Some InvalidDate) \<longrightarrow>
         sorted_wrt (\<lambda>a b. \<exists>timeA timeB. timeOf a = Some timeA \<and> timeOf b = Some timeB
                              \<and> timeB \<le> timeA) out)
    \<and> (\<forall>item \<in> set out. pubDate item = None \<longrightarrow> timeOf item = Some 0)
    \<and> (\<forall>e. feed (length tr) (rss_url src) = FeedRejects e \<longrightarrow>
          out = [] \<and> tr' = tr @ [FetchCall (rss_url src), Warn (rssFailedWarning src e)])"
proof -
  obtain feedItems tr1 where f: "fetchSingleFeed feed parseDate src tr = (feedItems, tr1)"
    by (cases "fetchSingleFeed feed parseDate src tr")
  let ?u = "uniqueByLink {||} feedItems"
  let ?s = "sortBy byTimeDescending ?u"
  from assms f have out: "out = sliceTo count ?s" and tr': "tr' = tr1"
    by (simp_all add: fetchSingleRssSource_def)
  have sub: "set out \<subseteq> set feedItems"
    using set_sliceTo [of count ?s] set_uniqueByLink [of "{||}" feedItems]
    by (auto simp: out set_sortBy)
  have subu: "set out \<subseteq> set ?u"
    using set_sliceTo [of count ?s] by (auto simp: out set_sortBy)
  have 1: "0 \<le> count \<longrightarrow> int (length out) \<le> count"
    unfolding out by (simp add: length_sliceTo)
  have fi: "\<forall>item \<in> set feedItems. title item \<noteq> [] \<and> link item \<noteq> []"
    using f by (auto simp: fetchSingleFeed_def split: feed_response.splits)
  with sub have 2: "\<forall>item \<in> set out. title item \<noteq> [] \<and> link item \<noteq> []" by blast
  obtain n where n: "out = take n ?s" using sliceTo_take [of count ?s] out by auto
  have "distinct (map link ?s)"
    by (simp add: distinct_map_sortBy distinct_uniqueByLink)
  then have 3: "distinct (map link out)"
    unfolding n by (simp add: take_map [symmetric] distinct_take)
  have 4: "\<forall>item \<in> set out.
          find (\<lambda>y. link y = link item) (fst (fetchSingleFeed feed parseDate src tr))
            = Some item"
    using subu uniqueByLink_first [of _ "{||}" feedItems] f by auto
  have 5: "sorted_wrt (\<lambda>a b. \<exists>timeA timeB. timeOf a = Some timeA \<and> timeOf b = Some timeB
                              \<and> timeB \<le> timeA) out"
    if v: "\<forall>item \<in> set (fst (fetchSingleFeed feed parseDate src tr)).
           pubDate item \<noteq> Some InvalidDate"
  proof -
    have "timeOf y \<noteq> None" if "y \<in> set ?u" for y
    proof -
      from that set_uniqueByLink [of "{||}" feedItems] have "y \<in> set feedItems" by auto
      with v f have "pubDate y \<noteq> Some InvalidDate" by simp
      then show ?thesis by (auto simp: timeOf_def split: option.splits Date.splits)
    qed
    then have "sorted_wrt newerOrEqual ?s" by (intro sorted_sortBy) simp
    then have "sorted_wrt newerOrEqual out" unfolding n by (rule sorted_wrt_take)
    then show ?thesis by (simp add: newerOrEqual_def [abs_def])
  qed
  have 6: "\<forall>item \<in> set out. pubDate item = None \<longrightarrow> timeOf item = Some 0"
    by (simp add: timeOf_def)
  have 7: "\<forall>e. feed (length tr) (rss_url src) = FeedRejects e \<longrightarrow>
          out = [] \<and> tr' = tr @ [FetchCall (rss_url src), Warn (rssFailedWarning src e)]"
  proof (intro allI impI)
    fix e assume "feed (length tr) (rss_url src) = FeedRejects e"
    with f have "feedItems = []" "tr1 = tr @ [FetchCall (rss_url src), Warn (rssFailedWarning src e)]"
      by (simp_all add: fetchSingleFeed_def)
    then show "out = [] \<and> tr' = tr @ [FetchCall (rss_url src), Warn (rssFailedWarning src e)]"
      by (simp add: out tr' sortBy_def sliceTo_def)
  qed
  from 1 2 3 4 5 6 7 show ?thesis by blast
qed

lemmas rss_eval =
  fetchSingleRssSource_def fetchSingleFeed_def toNewsItem_def feedEntry_def exampleSource_def
  exampleParseDate_def trim_def js_space_def js_def sortBy_def byTimeDescending_def timeOf_def
  sliceTo_def

lemma example_run:
  "fetchSingleRssSource
     (\<lambda>n u. FeedParsed (Some
        [feedEntry ''Old'' ''o'' ''2026-11-01T00:00:00Z'',
         feedEntry '' New '' ''n'' ''2026-11-02T00:00:00Z'',
         feedEntry ''Again'' ''o'' ''2026-11-02T00:00:00Z'',
         feedEntry '''' ''e'' ''2026-11-02T00:00:00Z'',
         feedEntry ''Undated'' ''u'' '''']))
     exampleParseDate exampleSource 2 [] =
   ([\<lparr>title = js ''New'', link = js ''n'', source = js ''Feed'',
       pubDate = Some (ValidDate 1793577600000), extra = None\<rparr>,
     \<lparr>title = js ''Old'', link = js ''o'', source = js ''Feed'',
       pubDate = Some (ValidDate 1793491200000), extra = None\<rparr>],
    [FetchCall (js ''https://example.org/rss'')])"
  by (simp add: rss_eval)

lemma epoch_run:
  "fetchSingleRssSource
     (\<lambda>n u. FeedParsed (Some
        [feedEntry ''Before the epoch'' ''b'' ''1969-12-31T00:00:00Z'',
         feedEntry ''Undated'' ''u'' '''']))
     exampleParseDate exampleSource 10 [] =
   ([\<lparr>title = js ''Undated'', link = js ''u'', source = js ''Feed'',
       pubDate = None, extra = None\<rparr>,
     \<lparr>title = js ''Before the epoch'', link = js ''b'', source = js ''Feed'',
       pubDate = Some (ValidDate (- 86400000)), extra = None\<rparr>],
    [FetchCall (js ''https://example.org/rss'')])"
  by (simp add: rss_eval)

lemma negative_run:
  "length (fst (fetchSingleRssSource
     (\<lambda>n u. FeedParsed (Some
        [feedEntry ''One'' ''a'' '''', feedEntry ''Two'' ''b'' '''',
         feedEntry ''Three'' ''c'' '''']))
     exampleParseDate exampleSource (- 1) [])) = 2"
  by (simp add: rss_eval)

lemma invalid_run:
  "map title (fst (fetchSingleRssSource
     (\<lambda>n u. FeedParsed (Some
        [feedEntry ''Old'' ''o'' ''2026-11-01T00:00:00Z'',
         feedEntry ''Unparsed'' ''x'' ''yesterday'',
         feedEntry ''New'' ''n'' ''2026-11-02T00:00:00Z'']))
     exampleParseDate exampleSource 10 [])) = [js ''Old'', js ''Unparsed'', js ''New'']"
  by (simp add: rss_eval)

text \<open>
  A feed of five entries: a duplicate link, an empty title and an undated entry; the
  two newest distinct entries come back, newest first, the title trimmed.
\<close>

theorem fetchSingleRssSource_result_witness:
  "fetchSingleRssSource
     (\<lambda>n u. FeedParsed (Some
        [feedEntry ''Old'' ''o'' ''2026-11-01T00:00:00Z'',
         feedEntry '' New '' ''n'' ''2026-11-02T00:00:00Z'',
         feedEntry ''Again'' ''o'' ''2026-11-02T00:00:00Z'',
         feedEntry '''' ''e'' ''2026-11-02T00:00:00Z'',
         feedEntry ''Undated'' ''u'' '''']))
     exampleParseDate exampleSource 2 [] =
   ([\<lparr>title = js ''New'', link = js ''n'', source = js ''Feed'',
       pubDate = Some (ValidDate 1793577600000), extra = None\<rparr>,
     \<lparr>title = js ''Old'', link = js ''o'', source = js ''Feed'',
       pubDate = Some (ValidDate 1793491200000), extra = None\<rparr>],
    [FetchCall (js ''https://example.org/rss'')])
   \<and> distinct (map link
        [\<lparr>title = js ''New'', link = js ''n'', source = js ''Feed'',
           pubDate = Some (ValidDate 1793577600000), extra = None\<rparr>,
         \<lparr>title = js ''Old'', link = js ''o'', source = js ''Feed'',
           pubDate = Some (ValidDate 1793491200000), extra = None\<rparr>])
   \<and> sorted_wrt (\<lambda>a b. \<exists>timeA timeB. timeOf a = Some timeA \<and> timeOf b = Some timeB
                              \<and> timeB \<le> timeA)
        [\<lparr>title = js ''New'', link = js ''n'', source = js ''Feed'',
           pubDate = Some (ValidDate 1793577600000), extra = None\<rparr>,
         \<lparr>title = js ''Old'', link = js ''o'', source = js ''Feed'',
           pubDate = Some (ValidDate 1793491200000), extra = None\<rparr>]"
proof -
  have valid: "\<forall>item \<in> set (fst (fetchSingleFeed
     (\<lambda>n u. FeedParsed (Some
        [feedEntry ''Old'' ''o'' ''2026-11-01T00:00:00Z'',
         feedEntry '' New '' ''n'' ''2026-11-02T00:00:00Z'',
         feedEntry ''Again'' ''o'' ''2026-11-02T00:00:00Z'',
         feedEntry '''' ''e'' ''2026-11-02T00:00:00Z'',
         feedEntry ''Undated'' ''u'' '''']))
     exampleParseDate exampleSource [])). pubDate item \<noteq> Some InvalidDate"
    by (simp add: rss_eval)
  from fetchSingleRssSource_result [OF example_run] valid example_run
  show ?thesis by blast
qed

text \<open>
  Three runs. An entry dated one day before the epoch and an undated entry: the
  undated entry comes first, as the newer of the two. A \<open>count\<close> of -1 on three
  entries: two items come back. An entry whose date does not parse between an older
  and a newer one: every comparison with it is NaN, and the older entry stays before
  the newer one.
\<close>

theorem undated_items_are_not_oldest:
  "fst (fetchSingleRssSource
     (\<lambda>n u. FeedParsed (Some
        [feedEntry ''Before the epoch'' ''b'' ''1969-12-31T00:00:00Z'',
         feedEntry ''Undated'' ''u'' '''']))
     exampleParseDate exampleSource 10 []) =
   [\<lparr>title = js ''Undated'', link = js ''u'', source = js ''Feed'',
      pubDate = None, extra = None\<rparr>,
    \<lparr>title = js ''Before the epoch'', link = js ''b'', source = js ''Feed'',
      pubDate = Some (ValidDate (- 86400000)), extra = None\<rparr>]
   \<and> length (fst (fetchSingleRssSource
     (\<lambda>n u. FeedParsed (Some
        [feedEntry ''One'' ''a'' '''', feedEntry ''Two'' ''b'' '''',
         feedEntry ''Three'' ''c'' '''']))
     exampleParseDate exampleSource (- 1) [])) = 2
   \<and> map title (fst (fetchSingleRssSource
     (\<lambda>n u. FeedParsed (Some
        [feedEntry ''Old'' ''o'' ''2026-11-01T00:00:00Z'',
         feedEntry ''Unparsed'' ''x'' ''yesterday'',
         feedEntry ''New'' ''n'' ''2026-11-02T00:00:00Z'']))
     exampleParseDate exampleSource 10 [])) = [js ''Old'', js ''Unparsed'', js ''New'']"
  using epoch_run negative_run invalid_run by simp

section \<open>The dispatcher: values at run time\<close>

text \<open>
  Some values of the conversions the dispatcher meets: an array is joined with commas,
  a parsed object has the text of \<open>Object.prototype.toString\<close> unless it has a property
  \<open>toString\<close> of its own; the encoding of a space, an ampersand, an ideograph and a
  character outside the basic plane.
\<close>

lemma ToString_examples:
  "ToString num (JArr [JStr (js ''a''), JNull, JArr [JBool True, JStr (js ''b'')]])
     = Inr (js ''a,,true,b'')"
  "ToString num (JObj [(js ''k'', JNull)]) = Inr (js ''[object Object]'')"
  "ToString num (JArr [JObj [(js ''toString'', JNull)]]) = Inl notPrimitive"
  by (simp_all add: js_def)

lemma encodeURIComponent_example:
  "encodeURIComponent (js ''a b&c'' @ [0x4e2d, 0xd83d, 0xde00])
     = Inr (js ''a%20b%26c%E4%B8%AD%F0%9F%98%80'')"
  by (simp add: js_def high_surrogate_def low_surrogate_def uriUnreserved_def percentEncoded_def
      utf8_def hexDigit_def codePoint_def)

text \<open>
  Whatever goes wrong inside a fetcher of a hot list ends in its \<open>catch\<close>: a request
  that fails, a status that is not \<open>ok\<close>, an element that is \<open>null\<close>, a list that is a
  string, a keyword that cannot be encoded. Each gives the empty list and one warning. A
  response without the list gives the empty list and no warning.
\<close>

lemma hot_list_failures_are_caught:
  "fetchBaiduHot (\<lambda>n. FetchRejects (Error (js ''timeout''))) 5 [] =
     ([], [FetchCall (js ''https://top.baidu.com/api/board?platform=wise&tab=realtime''),
           Warn (hotFailedWarning [0x767e, 0x5ea6, 0x70ed, 0x641c] (Error (js ''timeout'')))])"
  "fetchBaiduHot (\<lambda>n. HttpResponse False 503 (Inr JNull)) 5 [] =
     ([], [FetchCall (js ''https://top.baidu.com/api/board?platform=wise&tab=realtime''),
           Warn (hotFailedWarning [0x767e, 0x5ea6, 0x70ed, 0x641c] (Error (js ''HTTP '' @ showNat 503)))])"
  "fetchToutiaoHot (\<lambda>n. toutiaoResponse [JNull]) 5 [] =
     ([], [FetchCall (js ''https://www.toutiao.com/hot-event/hot-board/?origin=toutiao_pc''),
           Warn (hotFailedWarning [0x4eca, 0x65e5, 0x5934, 0x6761]
                   (cannotRead ''null'' ''Title''))])"
  "fetchToutiaoHot (\<lambda>n. HttpResponse True 200 (Inr (JObj [(js ''data'', JStr (js ''busy''))])))
     5 [] =
     ([], [FetchCall (js ''https://www.toutiao.com/hot-event/hot-board/?origin=toutiao_pc''),
           Warn (hotFailedWarning [0x4eca, 0x65e5, 0x5934, 0x6761]
                   (notAFunction ''items.slice(...).map''))])"
  "fetchToutiaoHot (\<lambda>n. HttpResponse True 200 (Inr JNull)) 5 [] =
     ([], [FetchCall (js ''https://www.toutiao.com/hot-event/hot-board/?origin=toutiao_pc'')])"
  "fetchBilibiliHot num (\<lambda>n. bilibiliResponse [JObj [(js ''keyword'', JStr [0xd800])]]) 5 [] =
     ([], [FetchCall (js ''https://app.bilibili.com/x/v2/search/trending/ranking''),
           Warn (hotFailedWarning (js ''B'' @ [0x7ad9, 0x70ed, 0x641c]) uriMalformed)])"
  by (simp_all add: fetchBaiduHot_def fetchToutiaoHot_def fetchBilibiliHot_def responseData_def
      toutiaoResponse_def bilibiliResponse_def optional_def orEmptyArray_def sliceMap_def
      sliceTo_def toutiaoItem_def bilibiliItem_def readProperty_def Let_def js_def
      high_surrogate_def low_surrogate_def)

text \<open>
  On items of the declared type the deduplicator of a run is \<open>filter_loop\<close>: the same
  items are kept, and the same records, with their links as string values.
\<close>

lemma filter_loop_runtime_declared:
  "filter_loop_runtime runtimeItem th
     (map (\<lambda>s. \<lparr>rt_chars = chars s, rt_seen_link = JStr (seen_link s)\<rparr>) seen) res newsItems =
   Inr (fst (filter_loop th seen res newsItems),
        map (\<lambda>s. \<lparr>rt_chars = chars s, rt_seen_link = JStr (seen_link s)\<rparr>)
          (snd (filter_loop th seen res newsItems)))"
proof (induction newsItems arbitrary: seen res)
  case Nil
  show ?case by simp
next
  case (Cons x xs)
  have l: "list_ex (\<lambda>s. strictEquals (rt_seen_link s) (JStr (link x)))
             (map (\<lambda>s. \<lparr>rt_chars = chars s, rt_seen_link = JStr (seen_link s)\<rparr>) seen)
           = list_ex (\<lambda>s. seen_link s = link x) seen"
    by (simp add: list_ex_iff)
  have j: "list_ex (\<lambda>s. jaccard (rt_chars s) tokens \<ge> th)
             (map (\<lambda>s. \<lparr>rt_chars = chars s, rt_seen_link = JStr (seen_link s)\<rparr>) seen)
           = list_ex (\<lambda>s. jaccard (chars s) tokens \<ge> th) seen" for tokens
    by (simp add: list_ex_iff)
  have t: "extractTokensOf (rt_title (runtimeItem x)) = Inr (extractTokens (title x))"
    by (simp add: extractTokensOf_def runtimeItem_def)
  have r: "rt_link (runtimeItem x) = JStr (link x)" by (simp add: runtimeItem_def)
  from Cons [of seen res]
    Cons [of "seen @ [\<lparr>chars = extractTokens (title x), seen_link = link x\<rparr>]" "res @ [x]"]
  show ?case
    by (simp add: l j t r Let_def)
qed

section \<open>The dispatcher: failures that do not stop the run\<close>

text \<open>
  An item of the declared type passes the keyword filter, the deduplicator and the
  formatter without an exception, so a source whose items are all of that type adds
  at most a group to the category.
\<close>

lemma translateTitles_Inr: "\<exists>out tr'. translateTitles ps net xs g tr = (Inr out, tr')"
  by (simp add: translateTitles_def split: prod.splits)

lemma typedItem_runtimeItem: "typedItem (runtimeItem i)"
  by (simp add: typedItem_def runtimeItem_def isString_def split: option.splits)

lemma isString_iff: "isString v \<longleftrightarrow> (\<exists>s. v = JStr s)"
  by (cases v) (simp_all add: isString_def)

lemma keywordText_typed:
  assumes "typedItem i"
  shows "\<exists>t. keywordText num i = Inr t"
  using assms unfolding typedItem_def isString_iff keywordText_def by auto

lemma filterThrowing_Inr:
  assumes "\<forall>x \<in> set xs. \<exists>b. p x = Inr b"
  shows "\<exists>ys. filterThrowing p xs = Inr ys \<and> set ys \<subseteq> set xs"
  using assms
proof (induction xs)
  case Nil
  show ?case by simp
next
  case (Cons x xs)
  then obtain b ys where "p x = Inr b" "filterThrowing p xs = Inr ys" "set ys \<subseteq> set xs"
    by auto
  then show ?case by auto
qed

lemma applyKeywordFilter_typed:
  assumes "\<forall>x \<in> set xs. typedItem (view x)"
  shows "\<exists>kept. applyKeywordFilter num view xs f = Inr kept \<and> set kept \<subseteq> set xs"
proof (cases "length (blockedKeywords f) = 0")
  case True
  then show ?thesis by (simp add: applyKeywordFilter_def)
next
  case False
  have "\<forall>x \<in> set xs. \<exists>b. (case keywordText num (view x) of
             Inl e \<Rightarrow> Inl e
           | Inr text \<Rightarrow>
               Inr (\<not> list_ex (\<lambda>kw. stringIncludes text kw) (blockedKeywords f))) = Inr b"
  proof
    fix x assume "x \<in> set xs"
    with assms obtain t where "keywordText num (view x) = Inr t"
      using keywordText_typed by blast
    then show "\<exists>b. (case keywordText num (view x) of
             Inl e \<Rightarrow> Inl e
           | Inr text \<Rightarrow>
               Inr (\<not> list_ex (\<lambda>kw. stringIncludes text kw) (blockedKeywords f))) = Inr b"
      by simp
  qed
  from filterThrowing_Inr [OF this] False show ?thesis
    by (simp add: applyKeywordFilter_def)
qed

lemma filter_loop_runtime_typed:
  assumes "\<forall>x \<in> set xs. typedItem (view x)"
  shows "\<exists>r s. filter_loop_runtime view th seen res xs = Inr (r, s)
           \<and> set r \<subseteq> set res \<union> set xs"
  using assms
proof (induction xs arbitrary: seen res)
  case Nil
  show ?case by simp
next
  case (Cons x xs)
  from Cons.prems obtain t where t: "rt_title (view x) = JStr t"
    by (auto simp: typedItem_def isString_iff)
  from Cons.prems have rest: "\<forall>x \<in> set xs. typedItem (view x)" by simp
  from Cons.IH [OF rest, of seen res] obtain r1 s1 where
    1: "filter_loop_runtime view th seen res xs = Inr (r1, s1)" "set r1 \<subseteq> set res \<union> set xs"
    by blast
  from Cons.IH [OF rest, of "seen @ [\<lparr>rt_chars = extractTokens t, rt_seen_link = rt_link (view x)\<rparr>]"
      "res @ [x]"] obtain r2 s2 where
    2: "filter_loop_runtime view th
          (seen @ [\<lparr>rt_chars = extractTokens t, rt_seen_link = rt_link (view x)\<rparr>]) (res @ [x]) xs
        = Inr (r2, s2)" "set r2 \<subseteq> set (res @ [x]) \<union> set xs"
    by blast
  from 1 2 t show ?case
    by (auto simp: extractTokensOf_def)
qed

lemma keepNew_typed:
  assumes "\<forall>x \<in> set xs. typedItem (view x)"
  shows "\<exists>unique seen1. keepNew num f view xs seen = Inr (unique, seen1) \<and> set unique \<subseteq> set xs"
proof -
  from applyKeywordFilter_typed [OF assms] obtain kept where
    k: "applyKeywordFilter num view xs f = Inr kept" "set kept \<subseteq> set xs" by blast
  with assms have "\<forall>x \<in> set kept. typedItem (view x)" by blast
  from filter_loop_runtime_typed [OF this, of "1 / 2" seen "[]"] obtain r s where
    "filter_loop_runtime view (1 / 2) seen [] kept = Inr (r, s)" "set r \<subseteq> set kept"
    by auto
  with k show ?thesis
    by (auto simp: keepNew_def dedup_filter_runtime_def)
qed

lemma mapThrowing_Inr:
  assumes "\<forall>x \<in> set xs. \<exists>y. f x = Inr y"
  shows "\<exists>ys. mapThrowing f xs = Inr ys"
  using assms
proof (induction xs)
  case Nil
  show ?case by simp
next
  case (Cons x xs)
  then obtain y ys where "f x = Inr y" "mapThrowing f xs = Inr ys" by auto
  then show ?case by simp
qed

lemma sectionItem_typed:
  assumes "typedItem i"
  shows "\<exists>n. sectionItem num i = Inr n"
  using assms unfolding typedItem_def isString_iff sectionItem_def by auto

lemma sectionGroup_typed:
  assumes "\<forall>i \<in> set (snd g). typedItem i"
  shows "\<exists>sg. sectionGroup num g = Inr sg"
proof -
  from assms have "\<forall>i \<in> set (snd g). \<exists>n. sectionItem num i = Inr n"
    using sectionItem_typed by blast
  from mapThrowing_Inr [OF this] show ?thesis by (auto simp: sectionGroup_def)
qed

lemma fetchHotSource_typed:
  assumes "\<forall>count t. list_all typedItem (fst (fetchBaiduHot (baiduNet env) count t))"
    and "\<forall>count t. list_all typedItem (fst (fetchToutiaoHot (toutiaoNet env) count t))"
    and "\<forall>count t. list_all typedItem
           (fst (fetchBilibiliHot (numberToString env) (bilibiliNet env) count t))"
  shows "\<forall>i \<in> set (snd (fst (fetchHotSource env src count tr))). typedItem i"
proof (cases src)
  case (BaiduHotSource n)
  from assms(1) have "list_all typedItem (fst (fetchBaiduHot (baiduNet env) count tr))" by blast
  with BaiduHotSource show ?thesis
    by (simp add: fetchHotSource_def list_all_iff split: prod.splits)
next
  case (ToutiaoHotSource n)
  from assms(2) have "list_all typedItem (fst (fetchToutiaoHot (toutiaoNet env) count tr))" by blast
  with ToutiaoHotSource show ?thesis
    by (simp add: fetchHotSource_def list_all_iff split: prod.splits)
next
  case (BilibiliHotSource n)
  from assms(3) have "list_all typedItem
      (fst (fetchBilibiliHot (numberToString env) (bilibiliNet env) count tr))" by blast
  with BilibiliHotSource show ?thesis
    by (simp add: fetchHotSource_def list_all_iff split: prod.splits)
qed (simp_all add: fetchHotSource_def)

lemma sourceStep_Inr:
  assumes "\<forall>count t. list_all typedItem (fst (fetchBaiduHot (baiduNet env) count t))"
    and "\<forall>count t. list_all typedItem (fst (fetchToutiaoHot (toutiaoNet env) count t))"
    and "\<forall>count t. list_all typedItem
           (fst (fetchBilibiliHot (numberToString env) (bilibiliNet env) count t))"
    and "\<forall>g \<in> set groups. \<forall>i \<in> set (snd g). typedItem i"
  shows "\<exists>groups1 seen1 tr'.
           sourceStep env f shouldTranslate count src groups seen tr = (Inr (groups1, seen1), tr')
           \<and> (\<forall>g \<in> set groups1. \<forall>i \<in> set (snd g). typedItem i)"
proof (cases "\<exists>rssSource. src = RssSource rssSource")
  case True
  then obtain rssSource where src: "src = RssSource rssSource" by blast
  obtain fetched tr1 where
    fe: "fetchSingleRssSource (feedNet env) (dateParse env) rssSource count tr = (fetched, tr1)"
    by (metis prod.collapse)
  have "\<forall>x \<in> set fetched. typedItem (runtimeItem x)" by (simp add: typedItem_runtimeItem)
  from keepNew_typed [OF this] obtain unique seen1 where
    k: "keepNew (numberToString env) f runtimeItem fetched seen = Inr (unique, seen1)" by blast
  obtain out tr2 where t: "translateTitles (punctOrSymbol env) (translators env) unique False tr1
      = (Inr out, tr2)"
    using translateTitles_Inr by blast
  from assms(4) show ?thesis
    unfolding sourceStep_def src by (auto simp: fe k t typedItem_runtimeItem)
next
  case False
  obtain sourceName fetched tr1 where
    fe: "fetchHotSource env src count tr = ((sourceName, fetched), tr1)"
    by (metis prod.collapse)
  from fetchHotSource_typed [OF assms(1-3), of src count tr] fe
  have ty: "\<forall>x \<in> set fetched. typedItem x" by simp
  from keepNew_typed [OF this, of "numberToString env" f seen] obtain unique seen1 where
    k: "keepNew (numberToString env) f (\<lambda>item. item) fetched seen = Inr (unique, seen1)"
      "set unique \<subseteq> set fetched" by blast
  with ty have u: "\<forall>x \<in> set unique. typedItem x" by blast
  from False have "sourceStep env f shouldTranslate count src groups seen tr =
      (case fetchHotSource env src count tr of
         ((sourceName, fetched), tr1) \<Rightarrow>
           (case keepNew (numberToString env) f (\<lambda>item. item) fetched seen of
              Inl e \<Rightarrow> (Inl e, tr1)
            | Inr (unique, seen1) \<Rightarrow>
                if length unique = 0 then (Inr (groups, seen1), tr1)
                else (Inr (groups @ [(sourceName, unique)], seen1), tr1)))"
    by (cases src) (simp_all add: sourceStep_def)
  with assms(4) u show ?thesis
    by (auto simp: fe k)
qed


lemma sourcesLoop_Inr:
  assumes "\<forall>count t. list_all typedItem (fst (fetchBaiduHot (baiduNet env) count t))"
    and "\<forall>count t. list_all typedItem (fst (fetchToutiaoHot (toutiaoNet env) count t))"
    and "\<forall>count t. list_all typedItem
           (fst (fetchBilibiliHot (numberToString env) (bilibiliNet env) count t))"
    and "\<forall>g \<in> set groups. \<forall>i \<in> set (snd g). typedItem i"
  shows "\<exists>groups1 tr'.
           sourcesLoop env f shouldTranslate count srcs groups seen tr = (Inr groups1, tr')
           \<and> (\<forall>g \<in> set groups1. \<forall>i \<in> set (snd g). typedItem i)"
  using assms(4)
proof (induction srcs arbitrary: groups seen tr)
  case Nil
  then show ?case by simp
next
  case (Cons src rest)
  from sourceStep_Inr [OF assms(1-3) Cons.prems] obtain groups1 seen1 tr1 where
    s: "sourceStep env f shouldTranslate count src groups seen tr = (Inr (groups1, seen1), tr1)"
      "\<forall>g \<in> set groups1. \<forall>i \<in> set (snd g). typedItem i"
    by blast
  from Cons.IH [OF s(2), of seen1 tr1] s(1) show ?case by simp
qed

lemma fetchGithubTrending_Inr:
  assumes "case gh_language c of None \<Rightarrow> True | Some l \<Rightarrow> wellFormed l"
  shows "\<exists>r tr'. fetchGithubTrending env c count tr = (Inr r, tr')"
  using assms by (cases "gh_language c") (auto simp: fetchGithubTrending_def)

lemma categoryMessages_Inr:
  assumes "\<forall>count t. list_all typedItem (fst (fetchBaiduHot (baiduNet env) count t))"
    and "\<forall>count t. list_all typedItem (fst (fetchToutiaoHot (toutiaoNet env) count t))"
    and "\<forall>count t. list_all typedItem
           (fst (fetchBilibiliHot (numberToString env) (bilibiliNet env) count t))"
    and "\<forall>c. GithubTrendingSource c \<in> set (cat_sources category) \<longrightarrow>
             (case gh_language c of None \<Rightarrow> True | Some l \<Rightarrow> wellFormed l)"
  shows "\<exists>r tr'. categoryMessages env f config category tr = (Inr r, tr')"
proof (cases "isGithubCategory category")
  case False
  have "\<forall>g \<in> set ([] :: (jsstring \<times> RuntimeItem list) list). \<forall>i \<in> set (snd g). typedItem i"
    by simp
  from sourcesLoop_Inr [OF assms(1-3) this] obtain groups tr1 where
    s: "sourcesLoop env f (settings_translate config \<noteq> Some False)
      (cat_count category) (cat_sources category) [] [] tr = (Inr groups, tr1)"
      "\<forall>g \<in> set groups. \<forall>i \<in> set (snd g). typedItem i"
    by blast
  from s(2) have "\<forall>g \<in> set groups. \<exists>sg. sectionGroup (numberToString env) g = Inr sg"
    using sectionGroup_typed by blast
  from mapThrowing_Inr [OF this] obtain sgs where
    "mapThrowing (sectionGroup (numberToString env)) groups = Inr sgs" by blast
  with False s(1) show ?thesis by (simp add: categoryMessages_def Let_def)
next
  case True
  show ?thesis
  proof (cases "find isGithubSource (cat_sources category)")
    case None
    with True show ?thesis by (simp add: categoryMessages_def Let_def)
  next
    case (Some s)
    then have sin: "s \<in> set (cat_sources category)" and sg: "isGithubSource s"
      by (auto simp: find_Some_iff)
    from sg obtain c where c: "s = GithubTrendingSource c"
      by (cases s) (simp_all add: isGithubSource_def)
    with sin assms(4) have "case gh_language c of None \<Rightarrow> True | Some l \<Rightarrow> wellFormed l"
      by blast
    from fetchGithubTrending_Inr [OF this] obtain fetched tr1 where
      fe: "fetchGithubTrending env c (cat_count category) tr = (Inr fetched, tr1)" by blast
    have "\<forall>x \<in> set fetched. typedItem (runtimeItem x)" by (simp add: typedItem_runtimeItem)
    from applyKeywordFilter_typed [OF this] obtain kept where
      k: "applyKeywordFilter (numberToString env) runtimeItem fetched f = Inr kept" by blast
    obtain out tr2 where t: "translateTitles (punctOrSymbol env) (translators env)
        kept True tr1 = (Inr out, tr2)"
      using translateTitles_Inr by blast
    from True Some c fe k t show ?thesis
      by (simp add: categoryMessages_def Let_def)
  qed
qed

lemma dispatchLoop_Inr:
  assumes "\<forall>count t. list_all typedItem (fst (fetchBaiduHot (baiduNet env) count t))"
    and "\<forall>count t. list_all typedItem (fst (fetchToutiaoHot (toutiaoNet env) count t))"
    and "\<forall>count t. list_all typedItem
           (fst (fetchBilibiliHot (numberToString env) (bilibiliNet env) count t))"
    and "\<forall>categoryId category c. categories config categoryId = Some category
             \<and> GithubTrendingSource c \<in> set (cat_sources category) \<longrightarrow>
             (case gh_language c of None \<Rightarrow> True | Some l \<Rightarrow> wellFormed l)"
    and "\<forall>categoryId \<in> set categoryIds. categories config categoryId = None \<longrightarrow>
             categoryId \<notin> set objectPrototypeProperties"
  shows "\<exists>tr'. dispatchLoop env f config webhookAdapters categoryIds tr = (Inr (), tr')"
  using assms(5)
proof (induction categoryIds arbitrary: tr)
  case Nil
  show ?case by simp
next
  case (Cons categoryId rest)
  from Cons.prems have r: "\<forall>categoryId \<in> set rest. categories config categoryId = None \<longrightarrow>
             categoryId \<notin> set objectPrototypeProperties" by simp
  show ?case
  proof (cases "categories config categoryId")
    case None
    with Cons.prems have "categoryId \<notin> set objectPrototypeProperties" by simp
    with None Cons.IH [OF r] show ?thesis by simp
  next
    case (Some category)
    with assms(4) have "\<forall>c. GithubTrendingSource c \<in> set (cat_sources category) \<longrightarrow>
             (case gh_language c of None \<Rightarrow> True | Some l \<Rightarrow> wellFormed l)"
      by blast
    from categoryMessages_Inr [OF assms(1-3) this] obtain r0 tr1 where
      m: "categoryMessages env f config category tr = (Inr r0, tr1)" by blast
    from Some m Cons.IH [OF r] show ?thesis by (cases r0) simp_all
  qed
qed

lemma createAdapters_Inr:
  assumes "\<forall>(n, w) \<in> set ws. wh_type w = js ''wps-teams'' \<or> wh_type w = js ''wecom''"
  shows "\<exists>m. createAdapters ws m0 = Inr m"
  using assms
proof (induction ws arbitrary: m0)
  case Nil
  show ?case by simp
next
  case (Cons p ws)
  obtain n w where p: "p = (n, w)" by (cases p)
  with Cons.prems have "wh_type w = js ''wps-teams'' \<or> wh_type w = js ''wecom''" by simp
  then obtain a where "createWebhookAdapter n w = Inr a"
    unfolding createWebhookAdapter_def by (cases "wh_type w = js ''wps-teams''") auto
  moreover from Cons.prems have "\<forall>(n, w) \<in> set ws. wh_type w = js ''wps-teams'' \<or> wh_type w = js ''wecom''"
    by simp
  ultimately show ?case using Cons.IH p by simp
qed

lemma dispatch_Inr:
  assumes "loadLocalFilter env = Inr f"
    and "\<forall>(n, w) \<in> set (webhooks config). wh_type w = js ''wps-teams'' \<or> wh_type w = js ''wecom''"
    and "\<forall>count t. list_all typedItem (fst (fetchBaiduHot (baiduNet env) count t))"
    and "\<forall>count t. list_all typedItem (fst (fetchToutiaoHot (toutiaoNet env) count t))"
    and "\<forall>count t. list_all typedItem
           (fst (fetchBilibiliHot (numberToString env) (bilibiliNet env) count t))"
    and "\<forall>categoryId category c. categories config categoryId = Some category
             \<and> GithubTrendingSource c \<in> set (cat_sources category) \<longrightarrow>
             (case gh_language c of None \<Rightarrow> True | Some l \<Rightarrow> wellFormed l)"
    and "\<forall>categoryId \<in> set categoryIds. categories config categoryId = None \<longrightarrow>
             categoryId \<notin> set objectPrototypeProperties"
  shows "\<exists>tr'. dispatch env config categoryIds tr = (Inr (), tr')"
proof -
  from createAdapters_Inr [OF assms(2)] obtain m where
    "createAdapters (webhooks config) Map.empty = Inr m" by blast
  with dispatchLoop_Inr [OF assms(3-7)] assms(1) show ?thesis by (simp add: dispatch_def)
qed

text \<open>The run of the example world, step by step.\<close>

lemma sliceTo_single: "sliceTo count [x] = (if count \<le> 0 then [] else [x])"
  by (auto simp: sliceTo_def take_Cons')

lemma example_baidu:
  "fetchBaiduHot (baiduNet exampleEnv) count t =
     ((if count \<le> 0 then []
       else [\<lparr>rt_title = JStr (js ''A1''), rt_link = JStr (js ''a''),
              rt_source = [0x767e, 0x5ea6, 0x70ed, 0x641c], rt_description = JUndefined\<rparr>]),
      t @ [FetchCall (js ''https://top.baidu.com/api/board?platform=wise&tab=realtime'')])"
  by (simp add: fetchBaiduHot_def exampleEnv_def baiduResponse_def responseData_def optional_def
      orEmptyArray_def sliceMap_def sliceTo_single baiduItem_def readProperty_def js_def Let_def)

lemma example_toutiao:
  "fetchToutiaoHot (toutiaoNet exampleEnv) count t =
     ((if count \<le> 0 then []
       else [\<lparr>rt_title = JStr (js ''B2''), rt_link = JStr (js ''b''),
              rt_source = [0x4eca, 0x65e5, 0x5934, 0x6761], rt_description = JUndefined\<rparr>]),
      t @ [FetchCall (js ''https://www.toutiao.com/hot-event/hot-board/?origin=toutiao_pc'')])"
  by (simp add: fetchToutiaoHot_def exampleEnv_def toutiaoResponse_def responseData_def
      optional_def orEmptyArray_def sliceMap_def sliceTo_single toutiaoItem_def readProperty_def
      js_def Let_def)

lemma example_bilibili:
  "fetchBilibiliHot (numberToString exampleEnv) (bilibiliNet exampleEnv) count t =
     ((if count \<le> 0 then []
       else [\<lparr>rt_title = JStr (js ''C3''),
              rt_link = JStr (js ''https://search.bilibili.com/all?keyword=C3''),
              rt_source = js ''B'' @ [0x7ad9, 0x70ed, 0x641c], rt_description = JUndefined\<rparr>]),
      t @ [FetchCall (js ''https://app.bilibili.com/x/v2/search/trending/ranking'')])"
  by (simp add: fetchBilibiliHot_def exampleEnv_def bilibiliResponse_def responseData_def
      optional_def orEmptyArray_def sliceMap_def sliceTo_single bilibiliItem_def readProperty_def
      js_def Let_def high_surrogate_def low_surrogate_def uriUnreserved_def)


lemma sendAttempts_append: "sendAttempts (xs @ ys) = sendAttempts xs @ sendAttempts ys"
  by (simp add: sendAttempts_def)

lemma sendAttempts_sendMessages:
  "sendAttempts (sendMessages env adapter msgs tr)
     = sendAttempts tr @ map (\<lambda>msg. (adapterName adapter, msg)) msgs"
  by (induction msgs arbitrary: tr) (simp_all add: sendAttempts_append, simp add: sendAttempts_def)

lemma sendMessages_extends: "\<exists>evs. sendMessages env adapter msgs tr = tr @ evs"
proof (induction msgs arbitrary: tr)
  case Nil
  show ?case by simp
next
  case (Cons msg msgs)
  from Cons [of "tr @ [SendCall (adapterName adapter) msg (sendNet env (length tr) adapter msg = None),
              Sleep 1000]"]
  show ?case by auto
qed

lemma deliver_extends: "\<exists>evs. deliver env webhookAdapters ids msgs tr = tr @ evs"
proof (induction ids arbitrary: tr)
  case Nil
  show ?case by simp
next
  case (Cons webhookId rest)
  show ?case
  proof (cases "webhookAdapters webhookId")
    case None
    from Cons [of "tr @ [Warn (webhookNotFoundWarning webhookId)]"] None show ?thesis by auto
  next
    case (Some adapter)
    obtain evs where e: "sendMessages env adapter msgs tr = tr @ evs"
      using sendMessages_extends by blast
    from Cons [of "tr @ evs"] Some e show ?thesis by auto
  qed
qed

lemma sendAttempts_deliver:
  "sendAttempts (deliver env webhookAdapters ids msgs tr)
     = sendAttempts tr
       @ concat (map (\<lambda>webhookId. case webhookAdapters webhookId of
                        None \<Rightarrow> []
                      | Some adapter \<Rightarrow> map (\<lambda>msg. (adapterName adapter, msg)) msgs) ids)"
proof (induction ids arbitrary: tr)
  case Nil
  show ?case by simp
next
  case (Cons webhookId rest)
  show ?case
  proof (cases "webhookAdapters webhookId")
    case None
    with Cons [of "tr @ [Warn (webhookNotFoundWarning webhookId)]"] show ?thesis
      by (simp add: sendAttempts_append) (simp add: sendAttempts_def)
  next
    case (Some adapter)
    with Cons [of "sendMessages env adapter msgs tr"] show ?thesis
      by (simp add: sendAttempts_sendMessages)
  qed
qed

lemma deliver_warns:
  "webhookId \<in> set ids \<Longrightarrow> webhookAdapters webhookId = None \<Longrightarrow>
     Warn (webhookNotFoundWarning webhookId) \<in> set (deliver env webhookAdapters ids msgs tr)"
proof (induction ids arbitrary: tr)
  case Nil
  then show ?case by simp
next
  case (Cons i rest)
  show ?case
  proof (cases "i = webhookId")
    case True
    obtain evs where "deliver env webhookAdapters rest msgs
        (tr @ [Warn (webhookNotFoundWarning webhookId)])
        = (tr @ [Warn (webhookNotFoundWarning webhookId)]) @ evs"
      using deliver_extends by blast
    with True Cons.prems(2) show ?thesis by simp
  next
    case False
    with Cons.prems have "webhookId \<in> set rest" by simp
    from Cons.IH [OF this Cons.prems(2)] show ?thesis
      by (cases "webhookAdapters i") simp_all
  qed
qed

lemma dispatchLoop_append:
  "dispatchLoop env f config webhookAdapters (xs @ ys) tr =
     (case dispatchLoop env f config webhookAdapters xs tr of
        (Inl e, t) \<Rightarrow> (Inl e, t)
      | (Inr u, t) \<Rightarrow> dispatchLoop env f config webhookAdapters ys t)"
proof (induction xs arbitrary: tr)
  case Nil
  show ?case by simp
next
  case (Cons x xs)
  show ?case
  proof (cases "categories config x")
    case None
    with Cons show ?thesis by simp
  next
    case (Some category)
    obtain r t1 where m: "categoryMessages env f config category tr = (r, t1)"
      by (cases "categoryMessages env f config category tr")
    from Some m Cons show ?thesis
      by (cases r) (auto split: option.splits)
  qed
qed

lemma tokens_none:
  "extractTokens (js ''A1'') = {||}" "extractTokens (js ''B2'') = {||}"
  "extractTokens (js ''C3'') = {||}" "extractTokens (js ''D4'') = {||}"
  by (simp_all add: extractTokens_def matchCjk_def dedup_cjk_def toLowerCase_def lowerUnit_def
      lower_az_def js_def)

lemma example_messages_length: "length exampleMessages = 2"
proof -
  have len: "length (formatSourceSection \<lparr>group_name = n, group_items = [i]\<rparr>)
      = length n + length (title i) + length (link i) + 13" for n i
    by (simp add: formatSourceSection_def itemLine_def showNat_def js_def enumerate_eq_zip)
  show ?thesis
    by (simp add: exampleMessages_def formatNewsMessages_def Let_def formatStep_def
        wouldExceedChars_def wouldExceedCount_def len footer_length js_def)
qed

lemma example_category_messages:
  "categoryMessages exampleEnv \<lparr>blockedKeywords = []\<rparr> exampleConfig exampleCategory tr =
     (Inr (Some exampleMessages),
      tr @ [FetchCall (js ''https://top.baidu.com/api/board?platform=wise&tab=realtime''),
            FetchCall (js ''https://www.toutiao.com/hot-event/hot-board/?origin=toutiao_pc''),
            FetchCall (js ''https://app.bilibili.com/x/v2/search/trending/ranking''),
            FetchCall (js ''https://example.org/rss'')])"
proof -
  have j: "jaccard a {||} = 0" for a by (simp add: jaccard_def)
  have rss: "fetchSingleRssSource (feedNet exampleEnv) (dateParse exampleEnv) exampleSource 5 tr0
     = ([\<lparr>title = js ''D4'', link = js ''d'', source = js ''Feed'', pubDate = None, extra = None\<rparr>],
        tr0 @ [FetchCall (js ''https://example.org/rss'')])" for tr0
    by (simp add: fetchSingleRssSource_def fetchSingleFeed_def toNewsItem_def feedEntry_def
        exampleSource_def exampleEnv_def trim_def js_space_def js_def sortBy_def sliceTo_def)
  have ne: "js ''a'' \<noteq> js ''b''" "js ''a'' \<noteq> js ''d''" "js ''b'' \<noteq> js ''d''"
    "js ''https://search.bilibili.com/all?keyword=C3'' \<noteq> js ''a''"
    "js ''https://search.bilibili.com/all?keyword=C3'' \<noteq> js ''b''"
    "js ''https://search.bilibili.com/all?keyword=C3'' \<noteq> js ''d''"
    by (simp_all add: js_def)
  have n: "rss_name exampleSource = js ''Feed''" by (simp add: exampleSource_def)
  have st: "settings_translate exampleConfig = Some False" by (simp add: exampleConfig_def)
  have c: "clock exampleEnv k = exampleParts" for k by (simp add: exampleEnv_def)
  show ?thesis
    unfolding categoryMessages_def exampleCategory_def
    using ne
    by (simp add: isGithubCategory_def isGithubSource_def st Let_def
        sourceStep_def fetchHotSource_def example_baidu example_toutiao example_bilibili rss
        keepNew_def applyKeywordFilter_def dedup_filter_runtime_def extractTokensOf_def
        runtimeItem_def tokens_none j n sectionGroup_def sectionItem_def
        exampleMessages_def c)
qed


lemma dispatch_example:
  "dispatch exampleEnv exampleConfig [js ''nope'', js ''news''] [] =
     (Inr (),
      [Warn (unknownCategoryWarning (js ''nope'')),
       FetchCall (js ''https://top.baidu.com/api/board?platform=wise&tab=realtime''),
       FetchCall (js ''https://www.toutiao.com/hot-event/hot-board/?origin=toutiao_pc''),
       FetchCall (js ''https://app.bilibili.com/x/v2/search/trending/ranking''),
       FetchCall (js ''https://example.org/rss''),
       SendCall (js ''a'') (exampleMessages ! 0) False, Sleep 1000,
       SendCall (js ''a'') (exampleMessages ! 1) False, Sleep 1000,
       Warn (webhookNotFoundWarning (js ''ghost'')),
       SendCall (js ''b'') (exampleMessages ! 0) True, Sleep 1000,
       SendCall (js ''b'') (exampleMessages ! 1) True, Sleep 1000])"
proof -
  from example_messages_length obtain m1 m2 where m: "exampleMessages = [m1, m2]"
    by (metis (no_types, opaque_lifting) Suc_length_conv length_0_conv numeral_2_eq_2)
  have ne: "js ''nope'' \<noteq> js ''news''" "js ''ghost'' \<noteq> js ''a''" "js ''ghost'' \<noteq> js ''b''"
    "js ''a'' \<noteq> js ''b''" "js ''wecom'' \<noteq> js ''wps-teams''"
    by (simp_all add: js_def)
  have c: "categories exampleConfig (js ''news'') = Some exampleCategory"
    "categories exampleConfig (js ''nope'') = None"
    using ne by (simp_all add: exampleConfig_def)
  have p: "js ''nope'' \<notin> set objectPrototypeProperties"
    by (simp add: objectPrototypeProperties_def js_def)
  have l: "loadLocalFilter exampleEnv = Inr \<lparr>blockedKeywords = []\<rparr>"
    by (simp add: exampleEnv_def)
  have w: "cat_webhooks exampleCategory = [js ''a'', js ''ghost'', js ''b'']"
    by (simp add: exampleCategory_def)
  have a: "createAdapters (webhooks exampleConfig) Map.empty =
      Inr [js ''a'' \<mapsto> WpsTeamsWebhook (js ''a'') (js ''https://a''),
           js ''b'' \<mapsto> WecomWebhook (js ''b'') (js ''https://b'')]"
    using ne by (simp add: exampleConfig_def createWebhookAdapter_def)
  have s: "sendNet exampleEnv k adapter msg
      = (if adapterName adapter = js ''a'' then Some (Error (js ''HTTP 500'')) else None)"
    for k adapter msg
    by (simp add: exampleEnv_def)
  show ?thesis
    unfolding dispatch_def a l
    using ne by (simp add: c p example_category_messages w m s)
qed

lemma example_hot_lists_typed:
  "\<forall>count t. list_all typedItem (fst (fetchBaiduHot (baiduNet exampleEnv) count t))"
  "\<forall>count t. list_all typedItem (fst (fetchToutiaoHot (toutiaoNet exampleEnv) count t))"
  "\<forall>count t. list_all typedItem
     (fst (fetchBilibiliHot (numberToString exampleEnv) (bilibiliNet exampleEnv) count t))"
  by (simp_all add: example_baidu example_toutiao example_bilibili typedItem_def isString_def)

text \<open>
  C9, as the code has it. The configuration, the local filter and the items of the
  feeds and of GitHub Trending have their declared types. Suppose that
  \<open>loadLocalFilter\<close> returns, that every configured webhook is of type \<open>wps-teams\<close> or
  \<open>wecom\<close>, that every item the fetchers of the three hot lists return has a string
  as title and as link and a string or nothing as description, that the language of
  every GitHub Trending source can be encoded (it has no lone surrogate), and that no
  id of the list that names no category is the name of a property of
  \<open>Object.prototype\<close>. Then \<open>dispatch\<close> resolves, whatever the network answers and
  whichever sends fail. An id of the list that names no category adds a warning, after
  the ids before it have been processed, and the loop goes on with the ids after it. A
  known category yields its messages without throwing, they are delivered, and the
  loop goes on. In a delivery every message is sent to every webhook id that has an
  adapter, webhook by webhook and message by message, whether or not the sends before
  it failed; a webhook id without an adapter adds a warning.
\<close>

theorem dispatch_never_aborts:
  assumes "loadLocalFilter env = Inr localFilter"
    and "\<forall>(n, w) \<in> set (webhooks config).
           wh_type w = js ''wps-teams'' \<or> wh_type w = js ''wecom''"
    and "\<forall>count t. list_all typedItem (fst (fetchBaiduHot (baiduNet env) count t))"
    and "\<forall>count t. list_all typedItem (fst (fetchToutiaoHot (toutiaoNet env) count t))"
    and "\<forall>count t. list_all typedItem
           (fst (fetchBilibiliHot (numberToString env) (bilibiliNet env) count t))"
    and "\<forall>categoryId category c. categories config categoryId = Some category
             \<and> GithubTrendingSource c \<in> set (cat_sources category) \<longrightarrow>
             (case gh_language c of None \<Rightarrow> True | Some l \<Rightarrow> wellFormed l)"
    and "\<forall>categoryId \<in> set categoryIds. categories config categoryId = None \<longrightarrow>
           categoryId \<notin> set objectPrototypeProperties"
  shows "(\<exists>tr'. dispatch env config categoryIds tr = (Inr (), tr'))
    \<and> (categoryIds = earlier @ categoryId # rest \<and> categories config categoryId = None \<longrightarrow>
         (\<exists>t1. dispatchLoop env localFilter config webhookAdapters earlier t = (Inr (), t1)
            \<and> dispatchLoop env localFilter config webhookAdapters categoryIds t
              = dispatchLoop env localFilter config webhookAdapters rest
                  (t1 @ [Warn (unknownCategoryWarning categoryId)])))
    \<and> (categories config categoryId = Some category \<longrightarrow>
         (\<exists>r t1. categoryMessages env localFilter config category t = (Inr r, t1)
            \<and> dispatchLoop env localFilter config webhookAdapters (categoryId # rest) t
              = dispatchLoop env localFilter config webhookAdapters rest
                  (case r of
                     None \<Rightarrow> t1
                   | Some msgs \<Rightarrow> deliver env webhookAdapters (cat_webhooks category) msgs t1)))
    \<and> sendAttempts (deliver env webhookAdapters webhookIds msgs t)
        = sendAttempts t
          @ concat (map (\<lambda>webhookId. case webhookAdapters webhookId of
                           None \<Rightarrow> []
                         | Some adapter \<Rightarrow> map (\<lambda>msg. (adapterName adapter, msg)) msgs)
                      webhookIds)
    \<and> (\<forall>webhookId \<in> set webhookIds. webhookAdapters webhookId = None \<longrightarrow>
          Warn (webhookNotFoundWarning webhookId)
            \<in> set (deliver env webhookAdapters webhookIds msgs t))"
proof -
  have 1: "\<exists>tr'. dispatch env config categoryIds tr = (Inr (), tr')"
    using assms by (rule dispatch_Inr)
  have 2: "\<exists>t1. dispatchLoop env localFilter config webhookAdapters earlier t = (Inr (), t1)
            \<and> dispatchLoop env localFilter config webhookAdapters categoryIds t
              = dispatchLoop env localFilter config webhookAdapters rest
                  (t1 @ [Warn (unknownCategoryWarning categoryId)])"
    if split: "categoryIds = earlier @ categoryId # rest"
      and unknown: "categories config categoryId = None"
  proof -
    from assms(7) split have
      e: "\<forall>categoryId \<in> set earlier. categories config categoryId = None \<longrightarrow>
            categoryId \<notin> set objectPrototypeProperties"
      and c: "categoryId \<notin> set objectPrototypeProperties"
      using unknown by auto
    from dispatchLoop_Inr [OF assms(3-6) e] obtain t1 where
      "dispatchLoop env localFilter config webhookAdapters earlier t = (Inr (), t1)" by blast
    with unknown c show ?thesis
      unfolding split by (simp add: dispatchLoop_append)
  qed
  have 3: "\<exists>r t1. categoryMessages env localFilter config category t = (Inr r, t1)
            \<and> dispatchLoop env localFilter config webhookAdapters (categoryId # rest) t
              = dispatchLoop env localFilter config webhookAdapters rest
                  (case r of
                     None \<Rightarrow> t1
                   | Some msgs \<Rightarrow> deliver env webhookAdapters (cat_webhooks category) msgs t1)"
    if c: "categories config categoryId = Some category"
  proof -
    from c assms(6) have "\<forall>c. GithubTrendingSource c \<in> set (cat_sources category) \<longrightarrow>
             (case gh_language c of None \<Rightarrow> True | Some l \<Rightarrow> wellFormed l)"
      by blast
    from categoryMessages_Inr [OF assms(3-5) this] obtain r t1 where
      m: "categoryMessages env localFilter config category t = (Inr r, t1)" by blast
    with c show ?thesis by (cases r) simp_all
  qed
  note 4 = sendAttempts_deliver [of env webhookAdapters webhookIds msgs t]
  have 5: "\<forall>webhookId \<in> set webhookIds. webhookAdapters webhookId = None \<longrightarrow>
          Warn (webhookNotFoundWarning webhookId)
            \<in> set (deliver env webhookAdapters webhookIds msgs t)"
    by (simp add: deliver_warns)
  from 1 2 3 4 5 show ?thesis by blast
qed

text \<open>
  A run on two category ids, the first unknown. The webhook \<open>a\<close> fails on both
  messages, \<open>ghost\<close> does not exist, \<open>b\<close> accepts: all four sends are attempted, in
  this order, and both warnings are in the trace.
\<close>

theorem dispatch_never_aborts_witness:
  "fst (dispatch exampleEnv exampleConfig [js ''nope'', js ''news''] []) = Inr ()
   \<and> sendAttempts (snd (dispatch exampleEnv exampleConfig [js ''nope'', js ''news''] []))
      = [(js ''a'', exampleMessages ! 0), (js ''a'', exampleMessages ! 1),
         (js ''b'', exampleMessages ! 0), (js ''b'', exampleMessages ! 1)]
   \<and> Warn (unknownCategoryWarning (js ''nope''))
       \<in> set (snd (dispatch exampleEnv exampleConfig [js ''nope'', js ''news''] []))
   \<and> Warn (webhookNotFoundWarning (js ''ghost''))
       \<in> set (snd (dispatch exampleEnv exampleConfig [js ''nope'', js ''news''] []))
   \<and> SendCall (js ''a'') (exampleMessages ! 0) False
       \<in> set (snd (dispatch exampleEnv exampleConfig [js ''nope'', js ''news''] []))"
proof -
  have loaded: "loadLocalFilter exampleEnv = Inr \<lparr>blockedKeywords = []\<rparr>"
    by (simp add: exampleEnv_def)
  have supported: "\<forall>(n, w) \<in> set (webhooks exampleConfig).
             wh_type w = js ''wps-teams'' \<or> wh_type w = js ''wecom''"
    by (simp add: exampleConfig_def)
  have encodable: "\<forall>categoryId category c.
      categories exampleConfig categoryId = Some category
        \<and> GithubTrendingSource c \<in> set (cat_sources category) \<longrightarrow>
      (case gh_language c of None \<Rightarrow> True | Some l \<Rightarrow> wellFormed l)"
    by (auto simp: exampleConfig_def exampleCategory_def split: if_splits)
  have own: "\<forall>categoryId \<in> set [js ''nope'', js ''news''].
      categories exampleConfig categoryId = None \<longrightarrow>
      categoryId \<notin> set objectPrototypeProperties"
    by (simp add: objectPrototypeProperties_def js_def)
  from dispatch_never_aborts [OF loaded supported example_hot_lists_typed encodable own,
      THEN conjunct1]
  obtain tr' where "dispatch exampleEnv exampleConfig [js ''nope'', js ''news''] [] = (Inr (), tr')"
    by blast
  then have f: "fst (dispatch exampleEnv exampleConfig [js ''nope'', js ''news''] []) = Inr ()"
    by simp
  have s: "snd (dispatch exampleEnv exampleConfig [js ''nope'', js ''news''] []) =
      [Warn (unknownCategoryWarning (js ''nope'')),
       FetchCall (js ''https://top.baidu.com/api/board?platform=wise&tab=realtime''),
       FetchCall (js ''https://www.toutiao.com/hot-event/hot-board/?origin=toutiao_pc''),
       FetchCall (js ''https://app.bilibili.com/x/v2/search/trending/ranking''),
       FetchCall (js ''https://example.org/rss''),
       SendCall (js ''a'') (exampleMessages ! 0) False, Sleep 1000,
       SendCall (js ''a'') (exampleMessages ! 1) False, Sleep 1000,
       Warn (webhookNotFoundWarning (js ''ghost'')),
       SendCall (js ''b'') (exampleMessages ! 0) True, Sleep 1000,
       SendCall (js ''b'') (exampleMessages ! 1) True, Sleep 1000]"
    unfolding dispatch_example by (rule snd_conv)
  have a: "sendAttempts (snd (dispatch exampleEnv exampleConfig [js ''nope'', js ''news''] []))
      = [(js ''a'', exampleMessages ! 0), (js ''a'', exampleMessages ! 1),
         (js ''b'', exampleMessages ! 0), (js ''b'', exampleMessages ! 1)]"
    unfolding s sendAttempts_def by simp
  have w: "Warn (unknownCategoryWarning (js ''nope''))
       \<in> set (snd (dispatch exampleEnv exampleConfig [js ''nope'', js ''news''] []))"
    "Warn (webhookNotFoundWarning (js ''ghost''))
       \<in> set (snd (dispatch exampleEnv exampleConfig [js ''nope'', js ''news''] []))"
    "SendCall (js ''a'') (exampleMessages ! 0) False
       \<in> set (snd (dispatch exampleEnv exampleConfig [js ''nope'', js ''news''] []))"
    unfolding s by simp_all
  from f a w show ?thesis by blast
qed

text \<open>
  Two runs that end with an exception before anything is fetched or sent. In the
  first the configuration has one more webhook, of a type for which there is no
  adapter: \<open>createWebhookAdapter\<close> throws while the adapters are built. In the second a
  GitHub Trending category, whose language is a lone surrogate, comes before the
  category of the run above: \<open>encodeURIComponent\<close> throws, and the second category
  is never reached.
\<close>

theorem dispatch_aborts:
  "dispatch exampleEnv
     (exampleConfig\<lparr>webhooks := webhooks exampleConfig
        @ [(js ''c'', \<lparr>wh_type = js ''slack'', wh_url = js ''https://c''\<rparr>)]\<rparr>)
     [js ''nope'', js ''news''] []
     = (Inl (unsupportedWebhookType (js ''slack'')), [])
   \<and> dispatch exampleEnv
       (exampleConfig\<lparr>categories := (categories exampleConfig)
          (js ''stars'' \<mapsto>
             \<lparr>cat_name = js ''Stars'', cat_count = 5, cat_webhooks = [js ''b''],
              cat_sources = [GithubTrendingSource
                 \<lparr>gh_name = None, gh_language = Some [0xd800], gh_since = None\<rparr>]\<rparr>)\<rparr>)
       [js ''stars'', js ''news''] []
     = (Inl (Error (js ''URI malformed'')), [])"
proof -
  have ne: "js ''slack'' \<noteq> js ''wps-teams''" "js ''slack'' \<noteq> js ''wecom''"
    "js ''wecom'' \<noteq> js ''wps-teams''"
    by (simp_all add: js_def)
  have l: "loadLocalFilter exampleEnv = Inr \<lparr>blockedKeywords = []\<rparr>"
    by (simp add: exampleEnv_def)
  have a: "dispatch exampleEnv
     (exampleConfig\<lparr>webhooks := webhooks exampleConfig
        @ [(js ''c'', \<lparr>wh_type = js ''slack'', wh_url = js ''https://c''\<rparr>)]\<rparr>)
     [js ''nope'', js ''news''] []
     = (Inl (unsupportedWebhookType (js ''slack'')), [])"
    using ne by (simp add: dispatch_def l exampleConfig_def createWebhookAdapter_def)
  have adapters: "\<exists>m. createAdapters (webhooks exampleConfig) Map.empty = Inr m"
    using ne by (simp add: exampleConfig_def createWebhookAdapter_def)
  have b: "dispatch exampleEnv
       (exampleConfig\<lparr>categories := (categories exampleConfig)
          (js ''stars'' \<mapsto>
             \<lparr>cat_name = js ''Stars'', cat_count = 5, cat_webhooks = [js ''b''],
              cat_sources = [GithubTrendingSource
                 \<lparr>gh_name = None, gh_language = Some [0xd800], gh_since = None\<rparr>]\<rparr>)\<rparr>)
       [js ''stars'', js ''news''] []
     = (Inl (Error (js ''URI malformed'')), [])"
    using adapters
    by (auto simp: dispatch_def l categoryMessages_def isGithubCategory_def isGithubSource_def
        fetchGithubTrending_def high_surrogate_def low_surrogate_def Let_def)
  from a b show ?thesis by blast
qed

text \<open>
  Two runs on the configuration of the example that end with a \<open>TypeError\<close>. In the
  first the id \<open>constructor\<close> names no category: the lookup finds the function that every
  object inherits, there is no warning, and \<open>isGithubCategory\<close> throws before anything
  is fetched. In the second the first hot list answers with an entry that has a \<open>url\<close>
  and no \<open>word\<close>: the item has no title, and \<open>extractTokens\<close> throws after the first
  fetch; the other sources are not fetched and nothing is sent.
\<close>

lemma dispatch_type_errors:
  "dispatch exampleEnv exampleConfig [js ''constructor'', js ''news''] []
     = (Inl (cannotRead ''undefined'' ''some''), [])"
  "dispatch
     (exampleEnv\<lparr>baiduNet := (\<lambda>n. baiduResponse [JObj [(js ''url'', JStr (js ''a''))]])\<rparr>)
     exampleConfig [js ''news''] []
     = (Inl (cannotRead ''undefined'' ''match''),
        [FetchCall (js ''https://top.baidu.com/api/board?platform=wise&tab=realtime'')])"
proof -
  have ne: "js ''wecom'' \<noteq> js ''wps-teams''" by (simp add: js_def)
  have l: "loadLocalFilter exampleEnv = Inr \<lparr>blockedKeywords = []\<rparr>"
    by (simp add: exampleEnv_def)
  have adapters: "\<exists>m. createAdapters (webhooks exampleConfig) Map.empty = Inr m"
    using ne by (simp add: exampleConfig_def createWebhookAdapter_def)
  have none: "categories exampleConfig (js ''constructor'') = None"
    by (simp add: exampleConfig_def js_def)
  have inherited: "js ''constructor'' \<in> set objectPrototypeProperties"
    by (simp add: objectPrototypeProperties_def)
  show "dispatch exampleEnv exampleConfig [js ''constructor'', js ''news''] []
     = (Inl (cannotRead ''undefined'' ''some''), [])"
    using adapters by (auto simp: dispatch_def l none inherited)
  have news: "categories exampleConfig (js ''news'') = Some exampleCategory"
    by (simp add: exampleConfig_def)
  have l2: "loadLocalFilter
      (exampleEnv\<lparr>baiduNet := (\<lambda>n. baiduResponse [JObj [(js ''url'', JStr (js ''a''))]])\<rparr>)
      = Inr \<lparr>blockedKeywords = []\<rparr>"
    by (simp add: exampleEnv_def)
  have fetched: "fetchBaiduHot (\<lambda>n. baiduResponse [JObj [(js ''url'', JStr (js ''a''))]]) 5 []
      = ([\<lparr>rt_title = JUndefined, rt_link = JStr (js ''a''),
            rt_source = [0x767e, 0x5ea6, 0x70ed, 0x641c], rt_description = JUndefined\<rparr>],
         [FetchCall (js ''https://top.baidu.com/api/board?platform=wise&tab=realtime'')])"
    by (simp add: fetchBaiduHot_def baiduResponse_def responseData_def optional_def
        orEmptyArray_def sliceMap_def sliceTo_single baiduItem_def readProperty_def js_def Let_def)
  have m: "categoryMessages
      (exampleEnv\<lparr>baiduNet := (\<lambda>n. baiduResponse [JObj [(js ''url'', JStr (js ''a''))]])\<rparr>)
      \<lparr>blockedKeywords = []\<rparr> exampleConfig exampleCategory []
     = (Inl (cannotRead ''undefined'' ''match''),
        [FetchCall (js ''https://top.baidu.com/api/board?platform=wise&tab=realtime'')])"
    unfolding categoryMessages_def exampleCategory_def
    by (simp add: isGithubCategory_def isGithubSource_def Let_def sourceStep_def
        fetchHotSource_def fetched keepNew_def applyKeywordFilter_def dedup_filter_runtime_def
        extractTokensOf_def)
  show "dispatch
     (exampleEnv\<lparr>baiduNet := (\<lambda>n. baiduResponse [JObj [(js ''url'', JStr (js ''a''))]])\<rparr>)
     exampleConfig [js ''news''] []
     = (Inl (cannotRead ''undefined'' ''match''),
        [FetchCall (js ''https://top.baidu.com/api/board?platform=wise&tab=realtime'')])"
    using adapters by (auto simp: dispatch_def l2 news m)
qed

end
